(* ===== verification/Prelude.thy ===== *)
theory Prelude
  imports
    Main
    "HOL-Library.AList"
    "HOL-Library.Char_ord"
    "HOL-Library.List_Lexorder"
    "HOL-Library.Word"
begin

text \<open>
  What the components share.  The collections of the Rust standard library
  that the service uses are executable lists here: a \<open>HashMap\<close> is an association list
  whose order stands for the (unspecified) iteration order, a \<open>HashSet\<close> is a list, a
  \<open>BTreeMap\<close> is an association list in ascending key order and a \<open>BTreeSet\<close> a list in
  ascending order.  Both map types implement the interface \<open>std_map\<close>, whose laws carry the
  proofs of the components.  Strings are lists of bytes (\<open>char\<close>), compared lexicographically
  as \<open>str\<close> is.  The theory also holds \<open>trim\<close>, decimal printing and parsing, \<open>sort\<close> with
  \<open>dedup\<close> and the binary search of \<open>slice\<close>, and the transition systems whose
  invariants the stateful components prove.
\<close>

type_synonym u8 = "8 word"
type_synonym u16 = "16 word"
type_synonym u32 = "32 word"

named_theorems store_simps "equations of the keyed stores"
named_theorems step_defs "definitions of the operations a step relation is made of"


section \<open>Maps of the standard library\<close>

type_synonym ('k, 'v) hmap = "('k \<times> 'v) list"

abbreviation hm_get :: "('k, 'v) hmap \<Rightarrow> 'k \<Rightarrow> 'v option" where
  "hm_get \<equiv> map_of"

definition hm_put :: "'k \<Rightarrow> 'v \<Rightarrow> ('k, 'v) hmap \<Rightarrow> ('k, 'v) hmap" where
  "hm_put k v m = AList.update k v m"

definition hm_del :: "'k \<Rightarrow> ('k, 'v) hmap \<Rightarrow> ('k, 'v) hmap" where
  "hm_del k m = AList.delete k m"

definition hm_ok :: "('k, 'v) hmap \<Rightarrow> bool" where
  "hm_ok m \<longleftrightarrow> distinct (map fst m)"

definition hm_or :: "'v \<Rightarrow> ('k, 'v) hmap \<Rightarrow> 'k \<Rightarrow> 'v" where
  "hm_or d m k = (case hm_get m k of None \<Rightarrow> d | Some v \<Rightarrow> v)"

fun bt_put :: "'k::linorder \<Rightarrow> 'v \<Rightarrow> ('k, 'v) hmap \<Rightarrow> ('k, 'v) hmap" where
  "bt_put k v [] = [(k, v)]"
| "bt_put k v ((k', v') # m) =
     (if k < k' then (k, v) # (k', v') # m
      else if k = k' then (k, v) # m
      else (k', v') # bt_put k v m)"

definition bt_ok :: "('k::linorder, 'v) hmap \<Rightarrow> bool" where
  "bt_ok m \<longleftrightarrow> sorted_wrt (<) (map fst m)"

text \<open>The contract both map types keep, with what follows from it.\<close>

locale std_map =
  fixes get :: "'m \<Rightarrow> 'k \<Rightarrow> 'v option"
    and put :: "'k \<Rightarrow> 'v \<Rightarrow> 'm \<Rightarrow> 'm"
    and del :: "'k \<Rightarrow> 'm \<Rightarrow> 'm"
    and keys :: "'m \<Rightarrow> 'k list"
    and ok :: "'m \<Rightarrow> bool"
  assumes get_put: "ok m \<Longrightarrow> get (put k v m) = (get m)(k \<mapsto> v)"
    and get_del: "ok m \<Longrightarrow> get (del k m) = (get m)(k := None)"
    and ok_put: "ok m \<Longrightarrow> ok (put k v m)"
    and ok_del: "ok m \<Longrightarrow> ok (del k m)"
    and keys_get: "ok m \<Longrightarrow> set (keys m) = dom (get m)"
    and keys_distinct: "ok m \<Longrightarrow> distinct (keys m)"
begin

lemma length_keys: "ok m \<Longrightarrow> length (keys m) = card (dom (get m))"
  using distinct_card keys_distinct keys_get by metis

lemma length_put:
  assumes "ok m"
  shows "length (keys (put k v m)) =
    (if get m k = None then Suc (length (keys m)) else length (keys m))"
proof -
  have "finite (dom (get m))" using keys_get [OF assms] by (metis List.finite_set)
  then show ?thesis
    using assms by (auto simp: length_keys ok_put get_put card_insert_if domIff)
qed

lemma length_del_le:
  assumes "ok m"
  shows "length (keys (del k m)) \<le> length (keys m)"
proof -
  have "finite (dom (get m))" using keys_get [OF assms] by (metis List.finite_set)
  then show ?thesis
    using assms by (simp add: length_keys ok_del get_del card_Diff1_le)
qed

lemma get_fold_del:
  "ok m \<Longrightarrow> ok (fold del ks m) \<and> get (fold del ks m) = (\<lambda>k. if k \<in> set ks then None else get m k)"
  by (induction ks arbitrary: m) (auto simp: ok_del get_del fun_eq_iff)

end

lemma bt_put_keys: "fst ` set (bt_put k v m) = insert k (fst ` set m)"
proof (induction m)
  case (Cons e m)
  then show ?case by (cases e) auto
qed simp

lemma bt_put_sorted: "bt_ok m \<Longrightarrow> bt_ok (bt_put k v m)"
proof (induction m)
  case Nil
  then show ?case by (simp add: bt_ok_def)
next
  case (Cons e m)
  obtain k' v' where e: "e = (k', v')" by (cases e)
  have ih: "bt_ok (bt_put k v m)" using Cons by (simp add: bt_ok_def)
  have "\<forall>x \<in> fst ` set m. k' < x" using Cons.prems e by (simp add: bt_ok_def)
  then have "k' < k \<Longrightarrow> \<forall>x \<in> fst ` set (bt_put k v m). k' < x"
    by (simp only: bt_put_keys) auto
  then show ?case
    using Cons.prems ih e by (auto simp: bt_ok_def)
qed

lemma bt_get_put: "bt_ok m \<Longrightarrow> map_of (bt_put k v m) = (map_of m)(k \<mapsto> v)"
proof (induction m)
  case (Cons e m)
  obtain k' v' where e: "e = (k', v')" by (cases e)
  have "bt_ok m" using Cons.prems by (simp add: bt_ok_def)
  then show ?case using Cons.IH e by (auto simp: fun_eq_iff)
qed simp

lemma map_of_del: "map_of (AList.delete k m) = (map_of m)(k := None)"
  by (simp add: delete_conv')

lemma sorted_wrt_del: "sorted_wrt P (map fst m) \<Longrightarrow> sorted_wrt P (map fst (AList.delete k m))"
  by (induction m) (auto simp: AList.delete_eq)

lemma bt_distinct: "bt_ok m \<Longrightarrow> distinct (map fst m)"
  unfolding bt_ok_def using strict_sorted_iff by blast

interpretation hash: std_map map_of hm_put hm_del "map fst" hm_ok
  by unfold_locales
    (auto simp: hm_put_def hm_del_def hm_ok_def update_conv' delete_conv' distinct_update
      distinct_delete dom_map_of_conv_image_fst image_image)

interpretation btree: std_map map_of bt_put hm_del "map fst" bt_ok
proof unfold_locales
  fix m :: "('a \<times> 'b) list" and k :: 'a and v :: 'b
  assume m: "bt_ok m"
  show "map_of (bt_put k v m) = (map_of m)(k \<mapsto> v)" using m by (rule bt_get_put)
  show "map_of (hm_del k m) = (map_of m)(k := None)" by (simp add: hm_del_def map_of_del)
  show "bt_ok (bt_put k v m)" using m by (rule bt_put_sorted)
  show "bt_ok (hm_del k m)" using m by (simp add: bt_ok_def hm_del_def sorted_wrt_del)
  show "set (map fst m) = dom (map_of m)" by (simp add: dom_map_of_conv_image_fst)
  show "distinct (map fst m)" using m by (rule bt_distinct)
qed

lemma hm_get_put [store_simps]: "hm_get (hm_put k v m) = (hm_get m)(k \<mapsto> v)"
  by (simp add: hm_put_def update_conv')

lemma hm_get_del [store_simps]: "hm_get (hm_del k m) = (hm_get m)(k := None)"
  by (simp add: hm_del_def delete_conv')

lemma hm_ok_Nil [simp]: "hm_ok []"
  by (simp add: hm_ok_def)

lemma hm_ok_get: "hm_ok m \<Longrightarrow> (k, v) \<in> set m \<longleftrightarrow> hm_get m k = Some v"
  by (simp add: hm_ok_def)

lemma hm_get_in: "hm_get m k = Some v \<Longrightarrow> (k, v) \<in> set m"
  by (rule map_of_SomeD)

lemma hm_del_subset: "set (hm_del k m) \<subseteq> set m"
  by (auto simp: hm_del_def AList.delete_eq)

lemma hm_keys_get: "k \<in> set (map fst m) \<longleftrightarrow> hm_get m k \<noteq> None"
  by (simp add: map_of_eq_None_iff image_image)

lemma hm_length_put:
  "hm_ok m \<Longrightarrow> length (hm_put k v m) = (if hm_get m k = None then Suc (length m) else length m)"
  using hash.length_put [of m k v] by simp

lemma hm_length_del: "hm_ok m \<Longrightarrow> length (hm_del k m) \<le> length m"
  using hash.length_del_le [of m k] by simp

lemma hm_or_eq [simp]:
  "hm_get m k = None \<Longrightarrow> hm_or d m k = d" "hm_get m k = Some v \<Longrightarrow> hm_or d m k = v"
  by (simp_all add: hm_or_def)


section \<open>Strings\<close>

text \<open>\<open>char::is_whitespace\<close> on ASCII, and \<open>str::trim\<close> with its one-sided forms.\<close>

definition is_whitespace :: "char \<Rightarrow> bool" where
  "is_whitespace c \<longleftrightarrow> c = CHR '' '' \<or> (9 \<le> (of_char c :: nat) \<and> (of_char c :: nat) \<le> 13)"

definition trim_start_matches :: "(char \<Rightarrow> bool) \<Rightarrow> string \<Rightarrow> string" where
  "trim_start_matches p s = dropWhile p s"

definition trim_end_matches :: "(char \<Rightarrow> bool) \<Rightarrow> string \<Rightarrow> string" where
  "trim_end_matches p s = rev (dropWhile p (rev s))"

definition trim :: "string \<Rightarrow> string" where
  "trim s = trim_end_matches is_whitespace (trim_start_matches is_whitespace s)"

definition to_ascii_lowercase :: "char \<Rightarrow> char" where
  "to_ascii_lowercase c =
     (if 65 \<le> (of_char c :: nat) \<and> (of_char c :: nat) \<le> 90 then char_of ((of_char c :: nat) + 32) else c)"

lemma trim_end_matches_idem [simp]:
  "trim_end_matches p (trim_end_matches p s) = trim_end_matches p s"
  by (simp add: trim_end_matches_def)

lemma trim_end_matches_Nil_iff: "trim_end_matches p s = [] \<longleftrightarrow> (\<forall>c \<in> set s. p c)"
  by (auto simp: trim_end_matches_def dropWhile_eq_Nil_conv)

lemma trim_start_end_hd:
  assumes "s = [] \<or> \<not> p (hd s)"
  shows "trim_end_matches q s = [] \<or> \<not> p (hd (trim_end_matches q s))"
proof (cases "trim_end_matches q s")
  case (Cons x xs)
  have "\<exists>ys. s = trim_end_matches q s @ ys"
    by (metis takeWhile_dropWhile_id rev_append rev_rev_ident trim_end_matches_def)
  with Cons have "s \<noteq> [] \<and> hd s = x" by auto
  with assms Cons show ?thesis by simp
qed simp

lemma trim_idem [simp]: "trim (trim s) = trim s"
proof -
  let ?t = "trim_start_matches is_whitespace s"
  have "?t = [] \<or> \<not> is_whitespace (hd ?t)"
    by (metis hd_dropWhile trim_start_matches_def)
  then have "trim s = [] \<or> \<not> is_whitespace (hd (trim s))"
    unfolding trim_def by (rule trim_start_end_hd)
  then have "trim_start_matches is_whitespace (trim s) = trim s"
    by (cases "trim s") (simp_all add: trim_start_matches_def)
  then show ?thesis by (metis trim_def trim_end_matches_idem)
qed

lemma trim_eq_Nil: "trim s = [] \<longleftrightarrow> (\<forall>c \<in> set s. is_whitespace c)"
proof -
  have "(\<forall>c \<in> set (dropWhile is_whitespace s). is_whitespace c) \<longleftrightarrow> (\<forall>c \<in> set s. is_whitespace c)"
    by (induction s) auto
  then show ?thesis by (simp add: trim_def trim_end_matches_Nil_iff trim_start_matches_def)
qed

lemma to_ascii_lowercase_idem [simp]: "to_ascii_lowercase (to_ascii_lowercase c) = to_ascii_lowercase c"
proof (cases "65 \<le> (of_char c :: nat) \<and> (of_char c :: nat) \<le> 90")
  case True
  then have "(of_char (char_of ((of_char c :: nat) + 32)) :: nat) = of_char c + 32"
    by (simp add: of_char_of)
  with True show ?thesis by (simp add: to_ascii_lowercase_def)
qed (auto simp: to_ascii_lowercase_def)

text \<open>Decimal text of a number (\<open>to_string\<close>, \<open>format!\<close>) and its parser.\<close>

definition digit :: "nat \<Rightarrow> char" where
  "digit d = char_of (48 + d)"

fun show_nat :: "nat \<Rightarrow> string" where
  "show_nat n = (if n < 10 then [digit n] else show_nat (n div 10) @ [digit (n mod 10)])"

declare show_nat.simps [simp del]

definition digit_val :: "char \<Rightarrow> nat option" where
  "digit_val c =
     (if 48 \<le> (of_char c :: nat) \<and> (of_char c :: nat) \<le> 57 then Some ((of_char c :: nat) - 48) else None)"

fun parse_digits :: "nat \<Rightarrow> string \<Rightarrow> nat option" where
  "parse_digits acc [] = Some acc"
| "parse_digits acc (c # cs) =
     (case digit_val c of None \<Rightarrow> None | Some d \<Rightarrow> parse_digits (10 * acc + d) cs)"

lemma digit_val_digit [simp]: "d < 10 \<Longrightarrow> digit_val (digit d) = Some d"
  by (simp add: digit_val_def digit_def of_char_of)

lemma parse_digits_append:
  "parse_digits a (xs @ ys) = (case parse_digits a xs of None \<Rightarrow> None | Some b \<Rightarrow> parse_digits b ys)"
  by (induction xs arbitrary: a) (auto split: option.split)

lemma parse_show_nat: "parse_digits 0 (show_nat n) = Some n"
proof (induction n rule: show_nat.induct)
  case (1 n)
  then show ?case
    by (cases "n < 10") (simp_all add: show_nat.simps [of n] parse_digits_append)
qed

lemma show_nat_inj: "show_nat m = show_nat n \<Longrightarrow> m = n"
  by (metis option.inject parse_show_nat)

lemma show_nat_nonempty [simp]: "show_nat n \<noteq> []"
  by (simp add: show_nat.simps [of n])

definition split_once :: "char \<Rightarrow> string \<Rightarrow> (string \<times> string) option" where
  "split_once c s =
     (if c \<in> set s then Some (takeWhile (\<lambda>x. x \<noteq> c) s, tl (dropWhile (\<lambda>x. x \<noteq> c) s)) else None)"


section \<open>Sorted slices\<close>

text \<open>\<open>sort\<close> followed by \<open>dedup\<close>, and the binary search over a sorted slice.\<close>

definition sort_dedup :: "'a::linorder list \<Rightarrow> 'a list" where
  "sort_dedup xs = remdups_adj (sort xs)"

function binary_search_ok :: "'a::linorder list \<Rightarrow> 'a \<Rightarrow> bool" where
  "binary_search_ok xs k =
     (if xs = [] then False
      else let mid = length xs div 2 in
        if xs ! mid = k then True
        else if xs ! mid < k then binary_search_ok (drop (Suc mid) xs) k
        else binary_search_ok (take mid xs) k)"
  by pat_completeness auto
termination
  by (relation "measure (\<lambda>(xs, k). length xs)") auto

declare binary_search_ok.simps [simp del]

lemma sorted_split_mid:
  assumes "sorted xs" and "m < length xs"
  shows "sorted (take m xs)" and "sorted (drop (Suc m) xs)"
    and "xs ! m < k \<Longrightarrow> k \<in> set xs \<longleftrightarrow> k \<in> set (drop (Suc m) xs)"
    and "k < xs ! m \<Longrightarrow> k \<in> set xs \<longleftrightarrow> k \<in> set (take m xs)"
proof -
  define l r where "l = take m xs" and "r = drop (Suc m) xs"
  have xs: "xs = l @ xs ! m # r" using assms(2) id_take_nth_drop l_def r_def by blast
  then have s: "sorted (l @ xs ! m # r)" using assms(1) by simp
  have mem: "k \<in> set xs \<longleftrightarrow> k \<in> set l \<or> k = xs ! m \<or> k \<in> set r"
    using arg_cong [OF xs, of set] by auto
  show "sorted (take m xs)" "sorted (drop (Suc m) xs)"
    using s by (auto simp: sorted_append l_def r_def)
  show "xs ! m < k \<Longrightarrow> k \<in> set xs \<longleftrightarrow> k \<in> set (drop (Suc m) xs)"
    using s by (force simp: mem sorted_append r_def [symmetric])
  show "k < xs ! m \<Longrightarrow> k \<in> set xs \<longleftrightarrow> k \<in> set (take m xs)"
    using s by (force simp: mem sorted_append l_def [symmetric])
qed

lemma binary_search_ok_iff [simp]: "sorted xs \<Longrightarrow> binary_search_ok xs k \<longleftrightarrow> k \<in> set xs"
proof (induction xs k rule: binary_search_ok.induct)
  case (1 xs k)
  show ?case
  proof (cases "xs = []")
    case True
    then show ?thesis by (simp add: binary_search_ok.simps)
  next
    case False
    define m where "m = length xs div 2"
    have m: "m < length xs" using False by (simp add: m_def)
    note mid = sorted_split_mid [OF "1.prems" m]
    consider "xs ! m = k" | "xs ! m < k" | "k < xs ! m" by force
    then show ?thesis
    proof cases
      case 1
      then show ?thesis
        using False m by (auto simp: binary_search_ok.simps [of xs k] Let_def m_def [symmetric])
    next
      case 2
      then have "binary_search_ok xs k = binary_search_ok (drop (Suc m) xs) k"
        using False by (auto simp: binary_search_ok.simps [of xs k] Let_def m_def [symmetric])
      then show ?thesis
        using "1.IH"(1) [OF False m_def] 2 mid(2) mid(3) [OF 2] by auto
    next
      case 3
      then have "binary_search_ok xs k = binary_search_ok (take m xs) k"
        using False by (auto simp: binary_search_ok.simps [of xs k] Let_def m_def [symmetric])
      then show ?thesis
        using "1.IH"(2) [OF False m_def] 3 mid(1) mid(4) [OF 3] by auto
    qed
  qed
qed

lemma set_sort_dedup [simp]: "set (sort_dedup xs) = set xs"
  by (simp add: sort_dedup_def)

lemma sorted_sort_dedup [simp]: "sorted (sort_dedup xs)"
  by (simp add: sort_dedup_def sorted_remdups_adj)

lemma distinct_sort_dedup: "distinct (sort_dedup xs)"
proof -
  have "sorted ys \<Longrightarrow> distinct (remdups_adj ys)" for ys :: "'a list"
    by (induction ys rule: remdups_adj.induct) (auto simp: remdups_adj_set)
  then show ?thesis by (simp add: sort_dedup_def)
qed

lemma sort_dedup_Nil_iff [simp]: "sort_dedup xs = [] \<longleftrightarrow> xs = []"
  by (metis set_empty set_sort_dedup)


section \<open>Transition systems\<close>

inductive reach :: "('s \<Rightarrow> bool) \<Rightarrow> ('s \<Rightarrow> 's \<Rightarrow> bool) \<Rightarrow> 's \<Rightarrow> bool"
  for init :: "'s \<Rightarrow> bool" and step :: "'s \<Rightarrow> 's \<Rightarrow> bool"
where
  reach_init: "init s \<Longrightarrow> reach init step s"
| reach_step: "reach init step s \<Longrightarrow> step s t \<Longrightarrow> reach init step t"

text \<open>An inductive invariant of a system holds in every reachable state.\<close>

locale safe_system =
  fixes init :: "'s \<Rightarrow> bool" and step :: "'s \<Rightarrow> 's \<Rightarrow> bool" and inv :: "'s \<Rightarrow> bool"
  assumes init_inv: "init s \<Longrightarrow> inv s"
    and step_inv: "inv s \<Longrightarrow> step s t \<Longrightarrow> inv t"
begin

lemma reach_inv: "reach init step s \<Longrightarrow> inv s"
  by (induction rule: reach.induct) (auto intro: init_inv step_inv)

lemma run_inv: "step\<^sup>*\<^sup>* s t \<Longrightarrow> inv s \<Longrightarrow> inv t"
  by (induction rule: rtranclp_induct) (auto intro: step_inv)

end

text \<open>A system in which, below the invariant, every step moves along a preorder.\<close>

locale monotone_system = safe_system +
  fixes ord :: "'s \<Rightarrow> 's \<Rightarrow> bool"
  assumes ord_refl: "ord s s"
    and ord_trans: "ord s t \<Longrightarrow> ord t u \<Longrightarrow> ord s u"
    and step_ord: "inv s \<Longrightarrow> step s t \<Longrightarrow> ord s t"
begin

lemma run_ord: "step\<^sup>*\<^sup>* s t \<Longrightarrow> inv s \<Longrightarrow> ord s t"
proof (induction rule: rtranclp_induct)
  case base
  show ?case by (rule ord_refl)
next
  case (step t u)
  then have "inv t" using run_inv by blast
  with step show ?case using ord_trans step_ord by blast
qed

end

text \<open>A forward simulation: every concrete step is a finite run of the abstract system.\<close>

lemma reach_run: "reach init step s \<Longrightarrow> step\<^sup>*\<^sup>* s t \<Longrightarrow> reach init step t"
  by (rotate_tac, induction rule: rtranclp_induct) (auto intro: reach_step)

locale simulated_system =
  fixes cinit :: "'c \<Rightarrow> bool" and cstep :: "'c \<Rightarrow> 'c \<Rightarrow> bool"
    and ainit :: "'a \<Rightarrow> bool" and astep :: "'a \<Rightarrow> 'a \<Rightarrow> bool" and abs_state :: "'c \<Rightarrow> 'a"
  assumes sim_init: "cinit c \<Longrightarrow> ainit (abs_state c)"
    and sim_step: "cstep c c' \<Longrightarrow> astep\<^sup>*\<^sup>* (abs_state c) (abs_state c')"
begin

lemma sim_reach: "reach cinit cstep c \<Longrightarrow> reach ainit astep (abs_state c)"
  by (induction rule: reach.induct) (auto intro: reach_init sim_init reach_run dest: sim_step)

lemma sim_run: "cstep\<^sup>*\<^sup>* c c' \<Longrightarrow> astep\<^sup>*\<^sup>* (abs_state c) (abs_state c')"
  by (induction rule: rtranclp_induct) (auto dest: sim_step)

end

end
