(* ===== verification/Rms_Error.thy ===== *)
theory Rms_Error
  imports Prelude
begin

text \<open>
  The error type of the service, \<open>utilities/error.rs\<close>: a code that the gRPC gateway maps to a
  status, and a message.  \<open>Result<T>\<close> is the sum \<open>'a result\<close> with \<open>Inl\<close> the error.
\<close>

datatype ErrorCode =
    EC_Internal | EC_NotFound | EC_AlreadyExists | EC_InvalidArgument | EC_Timeout
  | EC_FailedPrecondition | EC_Unauthenticated | EC_Unavailable | EC_Cancelled
  | EC_Unimplemented | EC_ConnectionRefused | EC_DnsResolutionFailed | EC_Aborted

record RmsError =
  err_code :: ErrorCode
  err_message :: string

type_synonym 'a result = "RmsError + 'a"

definition rms_error :: "ErrorCode \<Rightarrow> string \<Rightarrow> RmsError" where
  "rms_error code message = \<lparr>err_code = code, err_message = message\<rparr>"

definition rms_internal :: "string \<Rightarrow> RmsError" where
  "rms_internal = rms_error EC_Internal"

definition rms_not_found :: "string \<Rightarrow> RmsError" where
  "rms_not_found = rms_error EC_NotFound"

definition rms_already_exists :: "string \<Rightarrow> RmsError" where
  "rms_already_exists = rms_error EC_AlreadyExists"

definition rms_invalid_argument :: "string \<Rightarrow> RmsError" where
  "rms_invalid_argument = rms_error EC_InvalidArgument"

definition rms_failed_precondition :: "string \<Rightarrow> RmsError" where
  "rms_failed_precondition = rms_error EC_FailedPrecondition"

lemmas rms_error_defs =
  rms_error_def rms_internal_def rms_not_found_def rms_already_exists_def
  rms_invalid_argument_def rms_failed_precondition_def

text \<open>
  \<open>Result\<close> chaining with the \<open>?\<close> operator.  A loop of fallible steps over a list stops at
  the first error, as \<open>for x in xs { f(x)?; }\<close> and \<open>collect::<Result<_>>\<close> do.
\<close>

fun bind_result :: "'e + 'a \<Rightarrow> ('a \<Rightarrow> 'e + 'b) \<Rightarrow> 'e + 'b" where
  "bind_result (Inl e) f = Inl e"
| "bind_result (Inr x) f = f x"

lemma bind_result_cong [fundef_cong]:
  "r = r' \<Longrightarrow> (\<And>x. r' = Inr x \<Longrightarrow> f x = g x) \<Longrightarrow> bind_result r f = bind_result r' g"
  by (cases r') auto

lemma bind_result_Inr_iff: "bind_result r f = Inr y \<longleftrightarrow> (\<exists>x. r = Inr x \<and> f x = Inr y)"
  by (cases r) auto

lemma bind_result_Inl_iff:
  "bind_result r f = Inl e \<longleftrightarrow> r = Inl e \<or> (\<exists>x. r = Inr x \<and> f x = Inl e)"
  by (cases r) auto

fun fold_result :: "('a \<Rightarrow> 's \<Rightarrow> 'e + 's) \<Rightarrow> 'a list \<Rightarrow> 's \<Rightarrow> 'e + 's" where
  "fold_result f [] s = Inr s"
| "fold_result f (x # xs) s = bind_result (f x s) (fold_result f xs)"

lemma fold_result_append:
  "fold_result f (xs @ ys) s = bind_result (fold_result f xs s) (fold_result f ys)"
proof (induction xs arbitrary: s)
  case (Cons x xs)
  then show ?case by (cases "f x s") auto
qed simp

lemma fold_result_inv:
  assumes "fold_result f xs s = Inr t" and "P s"
    and "\<And>x s t. x \<in> set xs \<Longrightarrow> P s \<Longrightarrow> f x s = Inr t \<Longrightarrow> P t"
  shows "P t"
  using assms by (induction xs arbitrary: s) (auto simp: bind_result_Inr_iff)

end
