(* ===== verification/Job_Types.thy ===== *)
theory Job_Types
  imports Rms_Error
begin

text \<open>
  The vocabulary of the job lifecycle, \<open>orchestrator/job_lifecycle\<close>: job identifiers
  (\<open>ids.rs\<close>), workflow types (\<open>job_type.rs\<close>), the flat status (\<open>state.rs\<close>), the failure codes
  (\<open>error.rs\<close>), the failure payload and the domain policy (\<open>domain.rs\<close>), and the lifecycle state,
  specification, snapshot and exclusion scopes that \<open>registry.rs\<close> declares.  Constructors carry a
  prefix where two enums share a name, record fields one per record (\<open>js_\<close> for a snapshot, \<open>spec_\<close>
  for a specification, \<open>jf_\<close> for a failure).  A clock reading is an argument of every operation
  that calls \<open>Utc::now\<close> or \<open>Instant::now\<close>; the readings inside one critical section agree.
  Tracing spans are write-only telemetry and are left out.
\<close>

subsection \<open>Identifiers, workflow types and failure codes\<close>

datatype JobId = JobId (job_id_str: string)

datatype JobType =
    FirmwareUpdate | SwitchCertificate | SwitchMtlsDisable | SwitchSdnFactoryDefaultReset
  | SwitchFactoryDefaultReset | SwitchSystemPasswordUpdate | SwitchSystemImageUpdate
  | ConfigureScaleUpFabricManagerV2 | ColdRebootSequence | SystemValidation

fun span_name :: "JobType \<Rightarrow> string" where
  "span_name FirmwareUpdate = ''firmware_update''"
| "span_name SwitchCertificate = ''switch_certificate''"
| "span_name SwitchMtlsDisable = ''switch_mtls_disable''"
| "span_name SwitchSdnFactoryDefaultReset = ''switch_sdn_factory_default_reset''"
| "span_name SwitchFactoryDefaultReset = ''switch_factory_default_reset''"
| "span_name SwitchSystemPasswordUpdate = ''switch_system_password_update''"
| "span_name SwitchSystemImageUpdate = ''switch_system_image_update''"
| "span_name ConfigureScaleUpFabricManagerV2 = ''configure_scale_up_fabric_manager_v2''"
| "span_name ColdRebootSequence = ''cold_reboot_sequence''"
| "span_name SystemValidation = ''system_validation''"

fun batch_noun :: "JobType \<Rightarrow> string" where
  "batch_noun FirmwareUpdate = ''firmware update''"
| "batch_noun SwitchCertificate = ''switch certificate install''"
| "batch_noun SwitchMtlsDisable = ''switch mTLS disable''"
| "batch_noun SwitchSdnFactoryDefaultReset = ''switch SDN factory-default reset''"
| "batch_noun SwitchFactoryDefaultReset = ''switch factory-default reset''"
| "batch_noun SwitchSystemPasswordUpdate = ''switch system password update''"
| "batch_noun SwitchSystemImageUpdate = ''switch system image update''"
| "batch_noun ConfigureScaleUpFabricManagerV2 = ''scale-up fabric configuration''"
| "batch_noun ColdRebootSequence = ''cold reboot''"
| "batch_noun SystemValidation = ''system validation''"

fun batch_noun_plural :: "JobType \<Rightarrow> string" where
  "batch_noun_plural FirmwareUpdate = ''firmware updates''"
| "batch_noun_plural SwitchCertificate = ''switch certificate installs''"
| "batch_noun_plural SwitchMtlsDisable = ''switch mTLS disables''"
| "batch_noun_plural SwitchSdnFactoryDefaultReset = ''switch SDN factory-default resets''"
| "batch_noun_plural SwitchFactoryDefaultReset = ''switch factory-default resets''"
| "batch_noun_plural SwitchSystemPasswordUpdate = ''switch system password updates''"
| "batch_noun_plural SwitchSystemImageUpdate = ''switch system image updates''"
| "batch_noun_plural ConfigureScaleUpFabricManagerV2 = ''scale-up fabric configurations''"
| "batch_noun_plural ColdRebootSequence = ''cold reboots''"
| "batch_noun_plural SystemValidation = ''system validations''"

datatype JobState = JS_Queued | JS_Running | JS_Completed | JS_Failed

fun job_state_as_str :: "JobState \<Rightarrow> string" where
  "job_state_as_str JS_Queued = ''queued''"
| "job_state_as_str JS_Running = ''running''"
| "job_state_as_str JS_Completed = ''completed''"
| "job_state_as_str JS_Failed = ''failed''"

fun job_state_is_terminal :: "JobState \<Rightarrow> bool" where
  "job_state_is_terminal JS_Completed = True"
| "job_state_is_terminal JS_Failed = True"
| "job_state_is_terminal _ = False"

datatype JobError =
    JE_Unspecified | JE_Internal | JE_Other | JE_InvalidArgument | JE_FailedPrecondition
  | JE_ClientError | JE_ServerError | JE_Timeout | JE_InvalidResponse | JE_Unauthenticated
  | JE_TargetNotFound | JE_FileNotFound | JE_UpdateInProgress

fun metrics_label :: "JobError \<Rightarrow> string" where
  "metrics_label JE_Unspecified = ''unspecified''"
| "metrics_label JE_Internal = ''internal''"
| "metrics_label JE_Other = ''other''"
| "metrics_label JE_InvalidArgument = ''invalid_argument''"
| "metrics_label JE_FailedPrecondition = ''failed_precondition''"
| "metrics_label JE_ClientError = ''client_error''"
| "metrics_label JE_ServerError = ''server_error''"
| "metrics_label JE_Timeout = ''timeout''"
| "metrics_label JE_InvalidResponse = ''invalid_response''"
| "metrics_label JE_Unauthenticated = ''unauthenticated''"
| "metrics_label JE_TargetNotFound = ''target_not_found''"
| "metrics_label JE_FileNotFound = ''file_not_found''"
| "metrics_label JE_UpdateInProgress = ''update_in_progress''"

fun job_error_display :: "JobError \<Rightarrow> string" where
  "job_error_display JE_Unspecified = ''unspecified''"
| "job_error_display JE_Internal = ''internal''"
| "job_error_display JE_Other = ''other''"
| "job_error_display JE_InvalidArgument = ''invalid argument''"
| "job_error_display JE_FailedPrecondition = ''failed precondition''"
| "job_error_display JE_ClientError = ''client error''"
| "job_error_display JE_ServerError = ''server error''"
| "job_error_display JE_Timeout = ''timeout''"
| "job_error_display JE_InvalidResponse = ''invalid response''"
| "job_error_display JE_Unauthenticated = ''unauthenticated''"
| "job_error_display JE_TargetNotFound = ''target not found''"
| "job_error_display JE_FileNotFound = ''file not found''"
| "job_error_display JE_UpdateInProgress = ''update in progress''"

text \<open>\<open>{error_code:?}\<close>: the derived \<open>Debug\<close> text of a code is its constructor.\<close>

fun job_error_debug :: "JobError \<Rightarrow> string" where
  "job_error_debug JE_Unspecified = ''Unspecified''"
| "job_error_debug JE_Internal = ''Internal''"
| "job_error_debug JE_Other = ''Other''"
| "job_error_debug JE_InvalidArgument = ''InvalidArgument''"
| "job_error_debug JE_FailedPrecondition = ''FailedPrecondition''"
| "job_error_debug JE_ClientError = ''ClientError''"
| "job_error_debug JE_ServerError = ''ServerError''"
| "job_error_debug JE_Timeout = ''Timeout''"
| "job_error_debug JE_InvalidResponse = ''InvalidResponse''"
| "job_error_debug JE_Unauthenticated = ''Unauthenticated''"
| "job_error_debug JE_TargetNotFound = ''TargetNotFound''"
| "job_error_debug JE_FileNotFound = ''FileNotFound''"
| "job_error_debug JE_UpdateInProgress = ''UpdateInProgress''"

text \<open>
  An \<open>anyhow::Error\<close> either wraps a \<open>JobError\<close>, which \<open>downcast_ref\<close> recovers, or carries some
  other cause.
\<close>

datatype AnyError = TypedError JobError | UntypedError string

fun job_error_of :: "AnyError \<Rightarrow> JobError" where
  "job_error_of (TypedError c) = c"
| "job_error_of (UntypedError _) = JE_Internal"


subsection \<open>Failure payloads and the lifecycle state\<close>

record JobFailure =
  jf_error :: AnyError
  jf_description :: string
  jf_message :: string
  jf_result_json :: "string option"

definition job_failure_new :: "AnyError \<Rightarrow> string \<Rightarrow> JobFailure" where
  "job_failure_new e message =
     \<lparr>jf_error = e, jf_description = ''Failed'', jf_message = message, jf_result_json = None\<rparr>"

definition with_description :: "string \<Rightarrow> JobFailure \<Rightarrow> JobFailure" where
  "with_description d f = f\<lparr>jf_description := d\<rparr>"

definition with_result_json :: "string \<Rightarrow> JobFailure \<Rightarrow> JobFailure" where
  "with_result_json r f = f\<lparr>jf_result_json := Some r\<rparr>"

datatype JobLifecycleState =
    Queued (description: string)
  | Running (description: string)
  | Completed (description: string) (completed_result_json: string)
  | Failed (description: string) (failed_error: AnyError) (failed_message: string)
      (failed_result_json: string)

fun is_terminal :: "JobLifecycleState \<Rightarrow> bool" where
  "is_terminal (Completed _ _) = True"
| "is_terminal (Failed _ _ _ _) = True"
| "is_terminal (Queued _) = False"
| "is_terminal (Running _) = False"

definition failed_state :: "JobFailure \<Rightarrow> JobLifecycleState" where
  "failed_state f =
     Failed (jf_description f) (jf_error f) (jf_message f)
       (case jf_result_json f of None \<Rightarrow> [] | Some r \<Rightarrow> r)"

lemma is_terminal_failed_state [simp]: "is_terminal (failed_state f)"
  by (simp add: failed_state_def)

lemma is_terminal_iff:
  "is_terminal st \<longleftrightarrow> (\<exists>d r. st = Completed d r) \<or> (\<exists>d e m r. st = Failed d e m r)"
  by (cases st) auto


subsection \<open>Specifications, snapshots and scopes\<close>

record clock =
  utc_now :: int
  instant_now :: nat

record JobSpec =
  spec_rack_id :: string
  spec_node_id :: string
  spec_workflow_type :: "JobType option"
  spec_initial_state :: JobLifecycleState

definition job_spec_new :: "string \<Rightarrow> string \<Rightarrow> string \<Rightarrow> JobSpec" where
  "job_spec_new rack node queued_description =
     \<lparr>spec_rack_id = rack, spec_node_id = node, spec_workflow_type = None,
      spec_initial_state = Queued queued_description\<rparr>"

definition job_spec_new_parent :: "string \<Rightarrow> string \<Rightarrow> JobSpec" where
  "job_spec_new_parent rack running_description =
     \<lparr>spec_rack_id = rack, spec_node_id = [], spec_workflow_type = None,
      spec_initial_state = Running running_description\<rparr>"

definition with_workflow_type :: "JobType \<Rightarrow> JobSpec \<Rightarrow> JobSpec" where
  "with_workflow_type t spec = spec\<lparr>spec_workflow_type := Some t\<rparr>"

text \<open>A \<open>CancellationToken\<close> is a shared cell: a snapshot and its handle hold the same reference.\<close>

type_synonym token = nat

record JobSnapshot =
  js_job_id :: JobId
  js_state :: JobLifecycleState
  js_rack_id :: string
  js_node_id :: string
  js_created_at :: int
  js_updated_at :: int
  js_updated_at_mono :: nat
  js_mono_inversion_warned :: bool
  js_child_job_ids :: "JobId list"
  js_parent_job_id :: "JobId option"
  js_cancellation_token :: token
  js_workflow_type :: "JobType option"

definition is_parent :: "JobSnapshot \<Rightarrow> bool" where
  "is_parent job \<longleftrightarrow> js_child_job_ids job \<noteq> []"

definition job_snapshot_new ::
  "clock \<Rightarrow> JobId \<Rightarrow> token \<Rightarrow> JobSpec \<Rightarrow> JobId option \<Rightarrow> JobSnapshot" where
  "job_snapshot_new clk jid tok spec parent =
     \<lparr>js_job_id = jid, js_state = spec_initial_state spec, js_rack_id = spec_rack_id spec,
      js_node_id = spec_node_id spec, js_created_at = utc_now clk, js_updated_at = utc_now clk,
      js_updated_at_mono = instant_now clk, js_mono_inversion_warned = False,
      js_child_job_ids = [], js_parent_job_id = parent, js_cancellation_token = tok,
      js_workflow_type = spec_workflow_type spec\<rparr>"

definition touch :: "clock \<Rightarrow> JobSnapshot \<Rightarrow> JobSnapshot" where
  "touch clk job = job\<lparr>js_updated_at := utc_now clk, js_updated_at_mono := instant_now clk\<rparr>"

datatype LifecycleTransition =
    Started JobSnapshot | Progress JobSnapshot | Terminal JobSnapshot

datatype JobScope =
    LogicalNode string string
  | PhysicalSwitch string u32
  | Endpoint string u16

lemma touch_sel [simp]:
  "js_job_id (touch clk job) = js_job_id job" "js_state (touch clk job) = js_state job"
  "js_rack_id (touch clk job) = js_rack_id job" "js_node_id (touch clk job) = js_node_id job"
  "js_child_job_ids (touch clk job) = js_child_job_ids job"
  "js_parent_job_id (touch clk job) = js_parent_job_id job"
  "js_cancellation_token (touch clk job) = js_cancellation_token job"
  "js_workflow_type (touch clk job) = js_workflow_type job"
  "js_updated_at_mono (touch clk job) = instant_now clk"
  by (simp_all add: touch_def)

lemma job_snapshot_new_sel [simp]:
  "js_job_id (job_snapshot_new clk jid tok spec p) = jid"
  "js_state (job_snapshot_new clk jid tok spec p) = spec_initial_state spec"
  "js_rack_id (job_snapshot_new clk jid tok spec p) = spec_rack_id spec"
  "js_node_id (job_snapshot_new clk jid tok spec p) = spec_node_id spec"
  "js_child_job_ids (job_snapshot_new clk jid tok spec p) = []"
  "js_parent_job_id (job_snapshot_new clk jid tok spec p) = p"
  "js_cancellation_token (job_snapshot_new clk jid tok spec p) = tok"
  "js_workflow_type (job_snapshot_new clk jid tok spec p) = spec_workflow_type spec"
  by (simp_all add: job_snapshot_new_def)


subsection \<open>The domain policy\<close>

text \<open>
  The trait \<open>JobDomain\<close>: the failures an API records or returns.  The two methods with a default
  body (\<open>inactive_job_failure\<close>, \<open>shutdown_failure\<close>) are fields as well, since a domain may
  override them.
\<close>

record JobDomain =
  dropped_failure :: JobFailure
  at_capacity_failure :: "nat \<Rightarrow> nat \<Rightarrow> JobFailure"
  node_busy_failure :: "string \<Rightarrow> string \<Rightarrow> JobId \<Rightarrow> JobFailure"
  scope_busy_failure :: "JobScope \<Rightarrow> JobId \<Rightarrow> JobFailure"
  inactive_job_failure :: "JobId \<Rightarrow> JobFailure"
  shutting_down_failure :: JobFailure
  shutdown_failure :: JobFailure
  parent_unavailable_failure :: "JobId \<Rightarrow> JobFailure"

end
