(* ===== verification/Job_Store.thy ===== *)
theory Job_Store
  imports Job_Types
begin

text \<open>
  \<open>orchestrator/job_lifecycle/store.rs\<close>: the authoritative job records with the indexes derived
  from them (active jobs per rack and node, exclusion scopes in both directions).  Every operation
  that changes the store is here.  The invariant \<open>store_inv\<close> is the consistency that the
  repository's tests assert; the theory shows that each operation keeps it, what each one returns,
  and that identifier collisions never replace a record.
\<close>

section \<open>State and operations\<close>

type_synonym node_index = "(string, (string, JobId list) hmap) hmap"

record JobStore =
  by_id :: "(JobId, JobSnapshot) hmap"
  active_by_node :: node_index
  active_by_scope :: "(JobScope, JobId) hmap"
  scopes_by_owner :: "(JobId, JobScope list) hmap"

definition job_store_default :: JobStore where
  "job_store_default =
     \<lparr>by_id = [], active_by_node = [], active_by_scope = [], scopes_by_owner = []\<rparr>"

definition should_index :: "JobSnapshot \<Rightarrow> bool" where
  "should_index job \<longleftrightarrow> js_node_id job \<noteq> [] \<and> \<not> is_terminal (js_state job)"

definition tracked_job_count :: "JobStore \<Rightarrow> nat" where
  "tracked_job_count s = length (by_id s)"

definition get :: "JobStore \<Rightarrow> JobId \<Rightarrow> JobSnapshot option" where
  "get s jid = hm_get (by_id s) jid"

definition snapshots :: "JobStore \<Rightarrow> JobSnapshot list" where
  "snapshots s = map snd (by_id s)"

text \<open>The two \<open>entry(..).or_default()\<close> chains that add an identifier to the node index.\<close>

definition index_insert :: "string \<Rightarrow> string \<Rightarrow> JobId \<Rightarrow> node_index \<Rightarrow> node_index" where
  "index_insert rack node jid idx =
     (let nodes = hm_or [] idx rack; jobs = hm_or [] nodes node
      in hm_put rack (hm_put node (List.insert jid jobs) nodes) idx)"

definition remove_active_job :: "string \<Rightarrow> string \<Rightarrow> JobId \<Rightarrow> JobStore \<Rightarrow> JobStore" where
  "remove_active_job rack node jid s =
     (case hm_get (active_by_node s) rack of
        None \<Rightarrow> s
      | Some nodes \<Rightarrow>
          (case hm_get nodes node of
             None \<Rightarrow> s
           | Some jobs \<Rightarrow>
               (let jobs' = removeAll jid jobs in
                if jobs' \<noteq> [] then
                  s\<lparr>active_by_node := hm_put rack (hm_put node jobs' nodes) (active_by_node s)\<rparr>
                else
                  (let nodes' = hm_del node nodes in
                   if nodes' = [] then s\<lparr>active_by_node := hm_del rack (active_by_node s)\<rparr>
                   else s\<lparr>active_by_node := hm_put rack nodes' (active_by_node s)\<rparr>))))"

text \<open>The jobs indexed under a node; an arbitrary one is the first of the set's iteration.\<close>

definition index_jobs :: "JobStore \<Rightarrow> string \<Rightarrow> string \<Rightarrow> JobId list" where
  "index_jobs s rack node = hm_or [] (hm_or [] (active_by_node s) rack) node"

definition active_job_for_node :: "JobStore \<Rightarrow> string \<Rightarrow> string \<Rightarrow> JobId option" where
  "active_job_for_node s rack node =
     (case index_jobs s rack node of [] \<Rightarrow> None | j # _ \<Rightarrow> Some j)"

definition scope_conflict :: "JobStore \<Rightarrow> JobId option \<Rightarrow> JobScope \<Rightarrow> JobId option" where
  "scope_conflict s own sc =
     (case Option.bind (hm_get (active_by_scope s) sc)
             (\<lambda>active. if Some active \<noteq> own then Some active else None) of
        Some active \<Rightarrow> Some active
      | None \<Rightarrow>
          (case sc of
             LogicalNode rack node \<Rightarrow>
               List.find (\<lambda>active. Some active \<noteq> own) (index_jobs s rack node)
           | _ \<Rightarrow> None))"

fun conflicting_scope_except ::
  "JobStore \<Rightarrow> JobScope list \<Rightarrow> JobId option \<Rightarrow> (JobScope \<times> JobId) option" where
  "conflicting_scope_except s [] own = None"
| "conflicting_scope_except s (sc # scs) own =
     (case scope_conflict s own sc of
        Some a \<Rightarrow> Some (sc, a)
      | None \<Rightarrow> conflicting_scope_except s scs own)"

definition conflicting_scope :: "JobStore \<Rightarrow> JobScope list \<Rightarrow> (JobScope \<times> JobId) option" where
  "conflicting_scope s scs = conflicting_scope_except s scs None"

definition has_scope_owner :: "JobStore \<Rightarrow> JobId \<Rightarrow> bool" where
  "has_scope_owner s own \<longleftrightarrow> hm_get (scopes_by_owner s) own \<noteq> None"

definition reserve_scopes :: "JobId \<Rightarrow> JobScope list \<Rightarrow> JobStore \<Rightarrow> JobStore" where
  "reserve_scopes own scs s =
     (let scs = remdups scs in
      if scs = [] then s
      else s\<lparr>active_by_scope := fold (\<lambda>sc m. hm_put sc own m) scs (active_by_scope s),
             scopes_by_owner :=
               hm_put own (fold List.insert scs (hm_or [] (scopes_by_owner s) own))
                 (scopes_by_owner s)\<rparr>)"

definition release_scopes :: "JobId \<Rightarrow> JobStore \<Rightarrow> JobStore" where
  "release_scopes own s =
     (case hm_get (scopes_by_owner s) own of
        None \<Rightarrow> s
      | Some scs \<Rightarrow>
          s\<lparr>scopes_by_owner := hm_del own (scopes_by_owner s),
            active_by_scope := fold hm_del scs (active_by_scope s)\<rparr>)"

definition can_accept_child :: "JobStore \<Rightarrow> JobId \<Rightarrow> bool" where
  "can_accept_child s p =
     (case hm_get (by_id s) p of
        None \<Rightarrow> False
      | Some parent \<Rightarrow> \<not> is_terminal (js_state parent) \<and> js_parent_job_id parent = None)"

definition attach_child :: "clock \<Rightarrow> JobSnapshot \<Rightarrow> JobStore \<Rightarrow> JobStore \<times> bool" where
  "attach_child clk child s =
     (case js_parent_job_id child of
        None \<Rightarrow> (s, False)
      | Some p \<Rightarrow>
          (case hm_get (by_id s) p of
             None \<Rightarrow> (s, False)
           | Some parent \<Rightarrow>
               if is_terminal (js_state parent) \<or> js_parent_job_id parent \<noteq> None then (s, False)
               else
                 (s\<lparr>by_id := hm_put p
                      (touch clk (parent\<lparr>js_child_job_ids := js_child_job_ids parent @ [js_job_id child]\<rparr>))
                      (by_id s)\<rparr>, True)))"

definition remove :: "JobId \<Rightarrow> JobStore \<Rightarrow> JobStore \<times> JobSnapshot option" where
  "remove jid s =
     (case hm_get (by_id s) jid of
        None \<Rightarrow> (s, None)
      | Some rec \<Rightarrow>
          (release_scopes jid
             (remove_active_job (js_rack_id rec) (js_node_id rec) (js_job_id rec)
               (s\<lparr>by_id := hm_del jid (by_id s)\<rparr>)), Some rec))"

definition remove_queued_leaf :: "JobId \<Rightarrow> JobStore \<Rightarrow> JobStore \<times> bool" where
  "remove_queued_leaf jid s =
     (case hm_get (by_id s) jid of
        None \<Rightarrow> (s, False)
      | Some rec \<Rightarrow>
          if is_parent rec \<or> js_parent_job_id rec \<noteq> None
             \<or> (case js_state rec of Queued _ \<Rightarrow> False | _ \<Rightarrow> True)
          then (s, False)
          else (let (s', removed) = remove jid s in (s', removed \<noteq> None)))"

definition transition_event ::
  "JobLifecycleState \<Rightarrow> JobSnapshot \<Rightarrow> LifecycleTransition option" where
  "transition_event old rec =
     (let was_queued = (case old of Queued _ \<Rightarrow> True | _ \<Rightarrow> False);
          was_running = (case old of Running _ \<Rightarrow> True | _ \<Rightarrow> False);
          was_terminal = is_terminal old;
          is_running = (case js_state rec of Running _ \<Rightarrow> True | _ \<Rightarrow> False)
      in if was_queued \<and> is_running then Some (Started rec)
         else if was_running \<and> is_running then Some (Progress rec)
         else if \<not> was_terminal \<and> is_terminal (js_state rec) then Some (Terminal rec)
         else None)"

definition transition_state ::
  "clock \<Rightarrow> JobId \<Rightarrow> (JobLifecycleState \<Rightarrow> JobLifecycleState option) \<Rightarrow> JobStore
     \<Rightarrow> JobStore \<times> bool \<times> LifecycleTransition option" where
  "transition_state clk jid transition s =
     (case hm_get (by_id s) jid of
        None \<Rightarrow> (s, False, None)
      | Some old \<Rightarrow>
          (case transition (js_state old) of
             None \<Rightarrow> (s, False, None)
           | Some next_state \<Rightarrow>
               (let rec = touch clk (old\<lparr>js_state := next_state\<rparr>);
                    s1 = s\<lparr>by_id := hm_put jid rec (by_id s)\<rparr>;
                    event = transition_event (js_state old) rec;
                    s2 = (case event of Some (Terminal _) \<Rightarrow> release_scopes jid s1 | _ \<Rightarrow> s1);
                    s3 = (if should_index old = should_index rec then s2
                          else if should_index rec then
                            s2\<lparr>active_by_node :=
                              index_insert (js_rack_id rec) (js_node_id rec) (js_job_id rec)
                                (active_by_node s2)\<rparr>
                          else
                            remove_active_job (js_rack_id rec) (js_node_id rec)
                              (js_job_id rec) s2)
                in (s3, True, event))))"

definition is_older_than :: "nat \<Rightarrow> nat \<Rightarrow> nat \<Rightarrow> bool" where
  "is_older_than now timestamp ttl \<longleftrightarrow> ttl \<le> now - timestamp"

definition is_expired :: "nat \<Rightarrow> nat \<Rightarrow> JobSnapshot \<Rightarrow> bool" where
  "is_expired now ttl job \<longleftrightarrow>
     is_terminal (js_state job) \<and> is_older_than now (js_updated_at_mono job) ttl"

definition warn_if_monotonic_timestamp_in_future :: "nat \<Rightarrow> JobSnapshot \<Rightarrow> JobSnapshot" where
  "warn_if_monotonic_timestamp_in_future now job =
     (if js_updated_at_mono job \<le> now \<or> js_mono_inversion_warned job then job
      else job\<lparr>js_mono_inversion_warned := True\<rparr>)"

definition protected_children :: "(JobId, JobSnapshot) hmap \<Rightarrow> nat \<Rightarrow> nat \<Rightarrow> JobId list" where
  "protected_children jobs now ttl =
     concat (map js_child_job_ids
       (filter (\<lambda>job. \<not> is_expired now ttl job) (filter is_parent (map snd jobs))))"

definition filter_job_ids ::
  "(JobId, JobSnapshot) hmap \<Rightarrow>
     ((JobId, JobSnapshot) hmap \<Rightarrow> JobId \<Rightarrow> JobSnapshot \<Rightarrow> bool) \<Rightarrow> JobId list" where
  "filter_job_ids jobs predicate = map fst (filter (\<lambda>(jid, job). predicate jobs jid job) jobs)"

definition cleanup_expired :: "nat \<Rightarrow> nat \<Rightarrow> JobStore \<Rightarrow> JobStore" where
  "cleanup_expired now ttl s =
     (let s1 = s\<lparr>by_id := map (\<lambda>(jid, job).
                   (jid, if is_terminal (js_state job)
                         then warn_if_monotonic_timestamp_in_future now job else job)) (by_id s)\<rparr>;
          protected = protected_children (by_id s1) now ttl;
          expired = filter_job_ids (by_id s1) (\<lambda>jobs jid job.
            is_expired now ttl job \<and> jid \<notin> set protected \<and>
            (\<not> is_parent job \<or> (\<forall>c \<in> set (js_child_job_ids job). hm_get jobs c = None)))
      in fold (\<lambda>jid s. fst (remove jid s)) expired s1)"

text \<open>
  \<open>insert_with_id_generator\<close> draws a fresh identifier until one is vacant, then fills the entry
  (\<open>insert_vacant\<close>).  The argument lists the identifiers drawn; \<open>None\<close> says the loop is still
  drawing after all of them.
\<close>

definition insert_vacant :: "JobSnapshot \<Rightarrow> JobStore \<Rightarrow> JobStore" where
  "insert_vacant rec s =
     (let s1 = s\<lparr>by_id := hm_put (js_job_id rec) rec (by_id s)\<rparr>
      in if should_index rec then
           s1\<lparr>active_by_node :=
             index_insert (js_rack_id rec) (js_node_id rec) (js_job_id rec)
               (active_by_node s1)\<rparr>
         else s1)"

fun insert_with_id_generator ::
  "JobStore \<Rightarrow> JobSnapshot \<Rightarrow> JobId list \<Rightarrow> (JobStore \<times> JobSnapshot) option" where
  "insert_with_id_generator s rec draws =
     (if has_scope_owner s (js_job_id rec) \<or> hm_get (by_id s) (js_job_id rec) \<noteq> None then
        (case draws of
           [] \<Rightarrow> None
         | d # ds \<Rightarrow> insert_with_id_generator s (rec\<lparr>js_job_id := d\<rparr>) ds)
      else Some (insert_vacant rec s, rec))"

declare insert_with_id_generator.simps [simp del]


section \<open>The consistency invariant\<close>

definition records_ok :: "JobStore \<Rightarrow> bool" where
  "records_ok s \<longleftrightarrow> hm_ok (by_id s) \<and>
     (\<forall>jid job. hm_get (by_id s) jid = Some job \<longrightarrow> js_job_id job = jid)"

definition buckets_ok :: "node_index \<Rightarrow> bool" where
  "buckets_ok idx \<longleftrightarrow> hm_ok idx \<and>
     (\<forall>rack nodes. hm_get idx rack = Some nodes \<longrightarrow> nodes \<noteq> [] \<and> hm_ok nodes \<and>
       (\<forall>node jobs. hm_get nodes node = Some jobs \<longrightarrow> jobs \<noteq> [] \<and> distinct jobs))"

definition indexed :: "JobStore \<Rightarrow> string \<Rightarrow> string \<Rightarrow> JobId set" where
  "indexed s rack node =
     {jid. \<exists>job. hm_get (by_id s) jid = Some job \<and> should_index job \<and>
        js_rack_id job = rack \<and> js_node_id job = node}"

definition index_ok :: "JobStore \<Rightarrow> bool" where
  "index_ok s \<longleftrightarrow> buckets_ok (active_by_node s) \<and>
     (\<forall>rack node. set (index_jobs s rack node) = indexed s rack node)"

definition owned_scopes :: "JobStore \<Rightarrow> JobId \<Rightarrow> JobScope set" where
  "owned_scopes s own = set (hm_or [] (scopes_by_owner s) own)"

definition scopes_ok :: "JobStore \<Rightarrow> bool" where
  "scopes_ok s \<longleftrightarrow> hm_ok (active_by_scope s) \<and> hm_ok (scopes_by_owner s) \<and>
     (\<forall>own scs. hm_get (scopes_by_owner s) own = Some scs \<longrightarrow> scs \<noteq> []) \<and>
     (\<forall>sc own. hm_get (active_by_scope s) sc = Some own \<longleftrightarrow> sc \<in> owned_scopes s own)"

definition owners_live :: "JobStore \<Rightarrow> bool" where
  "owners_live s \<longleftrightarrow>
     (\<forall>own job. has_scope_owner s own \<and> hm_get (by_id s) own = Some job \<longrightarrow>
        \<not> is_terminal (js_state job))"

definition hierarchy_ok :: "JobStore \<Rightarrow> bool" where
  "hierarchy_ok s \<longleftrightarrow>
     (\<forall>jid job. hm_get (by_id s) jid = Some job \<and> is_parent job \<longrightarrow> js_parent_job_id job = None)"

definition store_inv :: "JobStore \<Rightarrow> bool" where
  "store_inv s \<longleftrightarrow> records_ok s \<and> index_ok s \<and> scopes_ok s \<and> owners_live s \<and> hierarchy_ok s"

lemma store_inv_default: "store_inv job_store_default"
  by (simp add: store_inv_def records_ok_def index_ok_def buckets_ok_def index_jobs_def indexed_def
      scopes_ok_def owned_scopes_def owners_live_def has_scope_owner_def hierarchy_ok_def
      job_store_default_def)

subsection \<open>The node index\<close>

lemma hm_get_Nil_iff: "m = [] \<longleftrightarrow> (\<forall>k. hm_get m k = None)"
  by (cases m) auto

lemma hm_put_not_Nil [simp]: "hm_put k v m \<noteq> []"
  by (auto simp: hm_get_Nil_iff hm_get_put)

lemma insert_not_Nil [simp]: "List.insert x xs \<noteq> []"
  by (cases xs) (auto simp: List.insert_def)

lemma buckets_ok_insert: "buckets_ok idx \<Longrightarrow> buckets_ok (index_insert rack node jid idx)"
  by (auto simp: buckets_ok_def index_insert_def Let_def hm_get_put hash.ok_put hm_or_def
      split: option.splits if_splits)

lemma index_jobs_insert:
  "index_jobs (s\<lparr>active_by_node := index_insert rack node jid (active_by_node s)\<rparr>) r n =
     (if r = rack \<and> n = node then List.insert jid (index_jobs s rack node) else index_jobs s r n)"
  by (auto simp: index_jobs_def index_insert_def Let_def hm_get_put hm_or_def split: option.splits)

lemma remove_active_job_fields [simp]:
  "by_id (remove_active_job rack node jid s) = by_id s"
  "active_by_scope (remove_active_job rack node jid s) = active_by_scope s"
  "scopes_by_owner (remove_active_job rack node jid s) = scopes_by_owner s"
  by (simp_all add: remove_active_job_def Let_def split: option.splits)

lemma buckets_ok_remove_active_job:
  "buckets_ok (active_by_node s) \<Longrightarrow>
     buckets_ok (active_by_node (remove_active_job rack node jid s))"
  by (auto simp: buckets_ok_def remove_active_job_def Let_def hm_get_put hm_get_del hash.ok_put
      hash.ok_del distinct_removeAll split: option.splits if_splits)

lemma index_jobs_remove_active_job:
  "index_jobs (remove_active_job rack node jid s) r n =
    (if r = rack \<and> n = node then removeAll jid (index_jobs s rack node) else index_jobs s r n)"
proof (cases "hm_get (active_by_node s) rack")
  case None
  then show ?thesis by (simp add: index_jobs_def remove_active_job_def hm_or_def)
next
  case rack: (Some nodes)
  show ?thesis
  proof (cases "hm_get nodes node")
    case None
    with rack show ?thesis by (simp add: index_jobs_def remove_active_job_def hm_or_def)
  next
    case node: (Some jobs)
    have nil: "hm_get nodes n = None" if "hm_del node nodes = []" "n \<noteq> node"
    proof -
      have "hm_get (hm_del node nodes) n = hm_get nodes n" using that(2) by (simp add: hm_get_del)
      with that(1) show ?thesis by simp
    qed
    show ?thesis
      using rack node nil
      by (cases "removeAll jid jobs = []"; cases "hm_del node nodes = []")
        (simp_all add: index_jobs_def remove_active_job_def hm_or_def hm_get_put hm_get_del)
  qed
qed

lemma index_jobs_frame:
  "active_by_node s' = active_by_node s \<Longrightarrow> index_jobs s' = index_jobs s"
  by (simp add: index_jobs_def fun_eq_iff)

lemma index_jobs_by_id [simp]: "index_jobs (s\<lparr>by_id := m\<rparr>) = index_jobs s"
  by (simp add: index_jobs_def fun_eq_iff)

lemma active_job_for_node_iff:
  "active_job_for_node s rack node = None \<longleftrightarrow> index_jobs s rack node = []"
  by (simp add: active_job_for_node_def split: list.splits)


subsection \<open>Scope reservations\<close>

lemma release_scopes_fields [simp]:
  "by_id (release_scopes own s) = by_id s"
  "active_by_node (release_scopes own s) = active_by_node s"
  by (simp_all add: release_scopes_def split: option.splits)

lemma reserve_scopes_fields [simp]:
  "by_id (reserve_scopes own scs s) = by_id s"
  "active_by_node (reserve_scopes own scs s) = active_by_node s"
  by (simp_all add: reserve_scopes_def Let_def)

lemma get_scopes_release:
  "hm_get (scopes_by_owner (release_scopes own s)) = (hm_get (scopes_by_owner s))(own := None)"
  by (auto simp: release_scopes_def hm_get_del fun_eq_iff split: option.splits)

lemma owned_scopes_release:
  "owned_scopes (release_scopes own s) o' = (if o' = own then {} else owned_scopes s o')"
  by (simp add: owned_scopes_def hm_or_def get_scopes_release)

lemma hm_get_fold_put:
  "hm_get (fold (\<lambda>k. hm_put k v) ks m) = (\<lambda>k. if k \<in> set ks then Some v else hm_get m k)"
  by (induction ks arbitrary: m) (auto simp: hm_get_put fun_eq_iff)

lemma hm_ok_fold_put: "hm_ok m \<Longrightarrow> hm_ok (fold (\<lambda>k. hm_put k v) ks m)"
  by (induction ks arbitrary: m) (auto simp: hash.ok_put)

lemma set_fold_insert: "set (fold List.insert xs ys) = set xs \<union> set ys"
  by (induction xs arbitrary: ys) auto

lemma owned_scopes_reserve:
  "owned_scopes (reserve_scopes own scs s) o' =
     (if o' = own then set scs \<union> owned_scopes s own else owned_scopes s o')"
  by (auto simp: owned_scopes_def reserve_scopes_def Let_def hm_or_def hm_get_put set_fold_insert)

lemma get_scope_reserve:
  "hm_get (active_by_scope (reserve_scopes own scs s)) sc =
     (if sc \<in> set scs then Some own else hm_get (active_by_scope s) sc)"
  by (auto simp: reserve_scopes_def Let_def hm_get_fold_put)

lemma has_scope_owner_reserve:
  "has_scope_owner (reserve_scopes own scs s) o' \<longleftrightarrow>
     (o' = own \<and> scs \<noteq> []) \<or> has_scope_owner s o'"
  by (auto simp: has_scope_owner_def reserve_scopes_def Let_def hm_get_put)

lemma has_scope_owner_release:
  "has_scope_owner (release_scopes own s) o' \<longleftrightarrow> o' \<noteq> own \<and> has_scope_owner s o'"
  by (auto simp: has_scope_owner_def get_scopes_release)

lemma scopes_ok_D:
  "scopes_ok s \<Longrightarrow> hm_get (active_by_scope s) sc = Some own \<longleftrightarrow> sc \<in> owned_scopes s own"
  by (simp add: scopes_ok_def)

lemma owned_scopes_owner: "scopes_ok s \<Longrightarrow> has_scope_owner s own \<longleftrightarrow> owned_scopes s own \<noteq> {}"
  by (cases "hm_get (scopes_by_owner s) own")
    (simp_all add: scopes_ok_def has_scope_owner_def owned_scopes_def)

lemma get_scope_release:
  assumes "scopes_ok s"
  shows "hm_get (active_by_scope (release_scopes own s)) sc =
    (if sc \<in> owned_scopes s own then None else hm_get (active_by_scope s) sc)"
  using assms
  by (auto simp: release_scopes_def owned_scopes_def hm_or_def scopes_ok_def
      hash.get_fold_del split: option.splits)

lemma scopes_ok_release: "scopes_ok s \<Longrightarrow> scopes_ok (release_scopes own s)"
  unfolding scopes_ok_def [of "release_scopes own s"]
proof (intro conjI allI)
  assume ok: "scopes_ok s"
  show "hm_ok (active_by_scope (release_scopes own s))" "hm_ok (scopes_by_owner (release_scopes own s))"
    using ok by (auto simp: release_scopes_def scopes_ok_def hash.ok_del hash.get_fold_del
        split: option.splits)
  show "hm_get (scopes_by_owner (release_scopes own s)) o' = Some scs \<longrightarrow> scs \<noteq> []" for o' scs
    using ok by (auto simp: get_scopes_release scopes_ok_def)
  show "hm_get (active_by_scope (release_scopes own s)) sc = Some o' \<longleftrightarrow>
      sc \<in> owned_scopes (release_scopes own s) o'" for sc o'
    using scopes_ok_D [OF ok, of sc] ok
    by (simp add: get_scope_release owned_scopes_release) (metis option.inject)
qed

lemma scopes_ok_reserve:
  assumes ok: "scopes_ok s"
    and free: "\<And>sc o'. sc \<in> set scs \<Longrightarrow> hm_get (active_by_scope s) sc = Some o' \<Longrightarrow> o' = own"
  shows "scopes_ok (reserve_scopes own scs s)"
  unfolding scopes_ok_def
proof (intro conjI allI)
  show "hm_ok (active_by_scope (reserve_scopes own scs s))" "hm_ok (scopes_by_owner (reserve_scopes own scs s))"
    using ok by (auto simp: reserve_scopes_def Let_def scopes_ok_def hash.ok_put hm_ok_fold_put)
  show "hm_get (scopes_by_owner (reserve_scopes own scs s)) o' = Some xs \<longrightarrow> xs \<noteq> []" for o' xs
  proof -
    have "fold List.insert (remdups scs) ys = [] \<Longrightarrow> remdups scs = []" for ys
      using set_fold_insert [of "remdups scs" ys] by auto
    then show ?thesis using ok by (auto simp: reserve_scopes_def Let_def scopes_ok_def hm_get_put)
  qed
  show "hm_get (active_by_scope (reserve_scopes own scs s)) sc = Some o' \<longleftrightarrow>
      sc \<in> owned_scopes (reserve_scopes own scs s) o'" for sc o'
    using scopes_ok_D [OF ok, of sc] free [of sc o']
    by (auto simp: get_scope_reserve owned_scopes_reserve)
qed

lemma conflicting_scope_except_None:
  "conflicting_scope_except s scs own = None \<longleftrightarrow> (\<forall>sc \<in> set scs. scope_conflict s own sc = None)"
  by (induction scs) (auto split: option.splits)

lemma conflicting_scope_except_Some:
  "conflicting_scope_except s scs own = Some (sc, a) \<Longrightarrow> sc \<in> set scs \<and> scope_conflict s own sc = Some a"
  by (induction scs) (auto split: option.splits)

lemma scope_conflict_None:
  "scope_conflict s own sc = None \<longleftrightarrow>
     (\<forall>a. hm_get (active_by_scope s) sc = Some a \<longrightarrow> own = Some a) \<and>
     (\<forall>rack node. sc = LogicalNode rack node \<longrightarrow>
        (\<forall>a \<in> set (index_jobs s rack node). own = Some a))"
  by (cases sc; cases "hm_get (active_by_scope s) sc")
    (auto simp: scope_conflict_def find_None_iff)

lemma conflicting_scope_None:
  "conflicting_scope s scs = None \<longleftrightarrow>
     (\<forall>sc \<in> set scs. hm_get (active_by_scope s) sc = None \<and>
        (\<forall>rack node. sc = LogicalNode rack node \<longrightarrow> index_jobs s rack node = []))"
proof -
  have "(\<forall>a. hm_get (active_by_scope s) sc = Some a \<longrightarrow> None = Some a) \<longleftrightarrow>
      hm_get (active_by_scope s) sc = None" for sc
    by (cases "hm_get (active_by_scope s) sc") simp_all
  moreover have "(\<forall>a \<in> set xs. None = Some a) \<longleftrightarrow> xs = []" for xs :: "JobId list"
    by (cases xs) auto
  ultimately show ?thesis
    by (simp add: conflicting_scope_def conflicting_scope_except_None scope_conflict_None)
qed


section \<open>Every operation keeps the invariant\<close>

lemma store_inv_D:
  assumes "store_inv s"
  shows "records_ok s" "index_ok s" "scopes_ok s" "owners_live s" "hierarchy_ok s"
    "hm_ok (by_id s)" "buckets_ok (active_by_node s)"
    "set (index_jobs s rack node) = indexed s rack node"
    "hm_get (by_id s) jid = Some job \<Longrightarrow> js_job_id job = jid"
  using assms by (simp_all add: store_inv_def records_ok_def index_ok_def)

lemma scopes_ok_frame:
  "active_by_scope s' = active_by_scope s \<Longrightarrow> scopes_by_owner s' = scopes_by_owner s \<Longrightarrow>
     scopes_ok s' = scopes_ok s"
  by (simp add: scopes_ok_def owned_scopes_def)

lemma has_scope_owner_frame:
  "scopes_by_owner s' = scopes_by_owner s \<Longrightarrow> has_scope_owner s' = has_scope_owner s"
  by (simp add: has_scope_owner_def fun_eq_iff)

lemma index_ok_frame:
  "by_id s' = by_id s \<Longrightarrow> active_by_node s' = active_by_node s \<Longrightarrow> index_ok s' = index_ok s"
  by (simp add: index_ok_def indexed_def index_jobs_def)

lemma records_ok_frame: "by_id s' = by_id s \<Longrightarrow> records_ok s' = records_ok s"
  by (simp add: records_ok_def)

lemma hierarchy_ok_frame: "by_id s' = by_id s \<Longrightarrow> hierarchy_ok s' = hierarchy_ok s"
  by (simp add: hierarchy_ok_def)

lemmas frames = scopes_ok_frame index_ok_frame records_ok_frame hierarchy_ok_frame

lemma records_ok_put:
  "records_ok s \<Longrightarrow> js_job_id job = jid \<Longrightarrow> records_ok (s\<lparr>by_id := hm_put jid job (by_id s)\<rparr>)"
  by (simp add: records_ok_def hash.ok_put hm_get_put)

text \<open>Replacing a record by one with the same index entry.\<close>

lemma index_ok_put_same:
  assumes "index_ok s" "hm_get (by_id s) jid = Some old" "should_index job = should_index old"
    "js_rack_id job = js_rack_id old" "js_node_id job = js_node_id old"
  shows "index_ok (s\<lparr>by_id := hm_put jid job (by_id s)\<rparr>)"
proof -
  have "indexed (s\<lparr>by_id := hm_put jid job (by_id s)\<rparr>) = indexed s"
    using assms by (auto simp: indexed_def hm_get_put fun_eq_iff)
  then show ?thesis using assms(1) by (simp add: index_ok_def)
qed

text \<open>Adding a record that belongs in the index, together with its index entry.\<close>

lemma index_ok_put_indexed:
  assumes "index_ok s" "should_index job"
    "\<And>old. hm_get (by_id s) jid = Some old \<Longrightarrow> \<not> should_index old"
  shows "index_ok (s\<lparr>by_id := hm_put jid job (by_id s),
    active_by_node := index_insert (js_rack_id job) (js_node_id job) jid (active_by_node s)\<rparr>)"
proof -
  let ?s = "s\<lparr>by_id := hm_put jid job (by_id s)\<rparr>"
  have "index_jobs (?s\<lparr>active_by_node := index_insert (js_rack_id job) (js_node_id job) jid
      (active_by_node s)\<rparr>) r n = (if r = js_rack_id job \<and> n = js_node_id job
      then List.insert jid (index_jobs ?s r n) else index_jobs ?s r n)" for r n
    using index_jobs_insert [where s = ?s] by simp
  then show ?thesis
    using assms by (auto simp: index_ok_def indexed_def hm_get_put buckets_ok_insert)
qed

text \<open>A record that leaves the index, with its index entry removed.\<close>

lemma index_ok_remove_active:
  assumes "index_ok s" "hm_get (by_id s) jid = Some old"
    and "\<And>k. k \<noteq> jid \<Longrightarrow> hm_get (by_id s') k = hm_get (by_id s) k"
    and "\<And>job. hm_get (by_id s') jid = Some job \<Longrightarrow> \<not> should_index job"
    and "active_by_node s' = active_by_node s"
  shows "index_ok (remove_active_job (js_rack_id old) (js_node_id old) jid s')"
proof -
  have b: "buckets_ok (active_by_node s')" using assms by (simp add: index_ok_def)
  have i: "index_jobs s' = index_jobs s" using assms(5) by (rule index_jobs_frame)
  have "set (index_jobs (remove_active_job (js_rack_id old) (js_node_id old) jid s') r n) =
      indexed s' r n" for r n
  proof -
    have l: "set (index_jobs s r n) = indexed s r n" using assms(1) by (simp add: index_ok_def)
    have "set (index_jobs (remove_active_job (js_rack_id old) (js_node_id old) jid s') r n) =
        indexed s r n - {jid}"
    proof (cases "r = js_rack_id old \<and> n = js_node_id old")
      case True
      then show ?thesis using l by (simp add: i index_jobs_remove_active_job)
    next
      case False
      then have "jid \<notin> indexed s r n" using assms(2) by (auto simp: indexed_def)
      then show ?thesis unfolding index_jobs_remove_active_job i if_not_P [OF False] l by simp
    qed
    also have "\<dots> = indexed s' r n"
    proof (intro set_eqI)
      fix k show "k \<in> indexed s r n - {jid} \<longleftrightarrow> k \<in> indexed s' r n"
        using assms(3) [of k] assms(4) by (cases "k = jid") (auto simp: indexed_def)
    qed
    finally show ?thesis .
  qed
  moreover have "indexed (remove_active_job rack node k s') r n = indexed s' r n" for rack node k r n
    by (simp add: indexed_def)
  ultimately show ?thesis
    using buckets_ok_remove_active_job [OF b] by (simp add: index_ok_def)
qed


subsection \<open>Insertion\<close>

definition vacant :: "JobStore \<Rightarrow> JobId \<Rightarrow> bool" where
  "vacant s jid \<longleftrightarrow> \<not> has_scope_owner s jid \<and> hm_get (by_id s) jid = None"

lemma insert_steps [simp]:
  "insert_with_id_generator s rec [] =
     (if vacant s (js_job_id rec) then Some (insert_vacant rec s, rec) else None)"
  "insert_with_id_generator s rec (d # ds) =
     (if vacant s (js_job_id rec) then Some (insert_vacant rec s, rec)
      else insert_with_id_generator s (rec\<lparr>js_job_id := d\<rparr>) ds)"
  by (subst insert_with_id_generator.simps; simp add: vacant_def)+

lemma insert_result:
  assumes "insert_with_id_generator s rec draws = Some (s', r')"
  obtains jid where "jid \<in> set (js_job_id rec # draws)" "r' = rec\<lparr>js_job_id := jid\<rparr>"
    "vacant s jid" "s' = insert_vacant r' s"
proof -
  have "\<exists>jid \<in> set (js_job_id rec # draws). r' = rec\<lparr>js_job_id := jid\<rparr> \<and> vacant s jid \<and>
      s' = insert_vacant r' s"
    using assms
  proof (induction draws arbitrary: rec)
    case (Cons d ds)
    show ?case
    proof (cases "vacant s (js_job_id rec)")
      case False
      with Cons.prems have "insert_with_id_generator s (rec\<lparr>js_job_id := d\<rparr>) ds = Some (s', r')" by simp
      from Cons.IH [OF this] show ?thesis by simp
    qed (use Cons.prems in auto)
  qed (simp split: if_splits)
  with that show ?thesis by blast
qed

lemma insert_returns:
  "\<exists>jid \<in> set (js_job_id rec # draws). vacant s jid \<Longrightarrow>
     insert_with_id_generator s rec draws \<noteq> None"
  by (induction draws arbitrary: rec) auto

lemma insert_returns_if_enough:
  assumes "distinct (js_job_id rec # draws)"
    and "tracked_job_count s + length (scopes_by_owner s) \<le> length draws"
  shows "insert_with_id_generator s rec draws \<noteq> None"
proof (rule insert_returns, rule ccontr)
  let ?D = "set (js_job_id rec # draws)"
  let ?U = "set (map fst (by_id s)) \<union> set (map fst (scopes_by_owner s))"
  assume "\<not> (\<exists>jid \<in> ?D. vacant s jid)"
  then have "?D \<subseteq> ?U" by (auto simp: vacant_def has_scope_owner_def hm_keys_get simp del: set_map)
  then have "card ?D \<le> card ?U" by (intro card_mono) auto
  also have "\<dots> \<le> tracked_job_count s + length (scopes_by_owner s)"
    by (intro order.trans [OF card_Un_le] add_mono order.trans [OF card_length])
      (auto simp: tracked_job_count_def)
  finally show False using assms distinct_card [OF assms(1)] by simp
qed

lemma insert_vacant_fields [simp]:
  "by_id (insert_vacant rec s) = hm_put (js_job_id rec) rec (by_id s)"
  "active_by_scope (insert_vacant rec s) = active_by_scope s"
  "scopes_by_owner (insert_vacant rec s) = scopes_by_owner s"
  by (simp_all add: insert_vacant_def Let_def)

lemma store_inv_insert_vacant:
  assumes s: "store_inv s" and v: "vacant s (js_job_id rec)" and c: "\<not> is_parent rec"
  shows "store_inv (insert_vacant rec s)"
proof -
  have "index_ok (insert_vacant rec s)"
  proof (cases "should_index rec")
    case True
    then show ?thesis
      using index_ok_put_indexed [of s rec "js_job_id rec"] s v
      by (simp add: insert_vacant_def vacant_def store_inv_def)
  next
    case False
    then have "indexed (insert_vacant rec s) = indexed s"
      using v by (auto simp: indexed_def hm_get_put vacant_def fun_eq_iff)
    then show ?thesis
      using False s by (simp add: insert_vacant_def index_ok_def store_inv_def)
  qed
  moreover have "records_ok (insert_vacant rec s)"
    using records_ok_put [of s rec "js_job_id rec"] s
      records_ok_frame [of "insert_vacant rec s" "s\<lparr>by_id := hm_put (js_job_id rec) rec (by_id s)\<rparr>"]
    by (simp add: store_inv_def)
  moreover have "owners_live (insert_vacant rec s)"
    using s v has_scope_owner_frame [of "insert_vacant rec s" s]
    by (auto simp: store_inv_def owners_live_def hm_get_put vacant_def)
  moreover have "hierarchy_ok (insert_vacant rec s)"
    using s c by (auto simp: store_inv_def hierarchy_ok_def hm_get_put)
  ultimately show ?thesis
    using s scopes_ok_frame [of "insert_vacant rec s" s] by (simp add: store_inv_def)
qed

lemma store_inv_insert:
  assumes "insert_with_id_generator s rec draws = Some (s', r')" "store_inv s" "\<not> is_parent rec"
  shows "store_inv s'"
  using assms(1)
proof (rule insert_result)
  fix jid assume "r' = rec\<lparr>js_job_id := jid\<rparr>" "vacant s jid" "s' = insert_vacant r' s"
  with assms(2,3) show "store_inv s'" by (simp add: store_inv_insert_vacant is_parent_def)
qed


subsection \<open>Scopes, children, removal and transitions\<close>

lemma store_inv_release: "store_inv s \<Longrightarrow> store_inv (release_scopes own s)"
  using frames [of "release_scopes own s" s]
  by (auto simp: store_inv_def scopes_ok_release owners_live_def has_scope_owner_release)

lemma store_inv_reserve:
  assumes "store_inv s" "conflicting_scope_except s scs (Some own) = None"
    and "\<And>job. hm_get (by_id s) own = Some job \<Longrightarrow> \<not> is_terminal (js_state job)"
  shows "store_inv (reserve_scopes own scs s)"
proof -
  have "scopes_ok (reserve_scopes own scs s)"
    using assms by (intro scopes_ok_reserve) 
      (auto simp: store_inv_def conflicting_scope_except_None scope_conflict_None)
  then show ?thesis
    using assms frames [of "reserve_scopes own scs s" s]
    by (auto simp: store_inv_def owners_live_def has_scope_owner_reserve)
qed

lemma store_inv_put:
  assumes s: "store_inv s" and old: "hm_get (by_id s) jid = Some old"
    and "js_job_id job = jid" "should_index job = should_index old"
    "js_rack_id job = js_rack_id old" "js_node_id job = js_node_id old"
    "is_terminal (js_state job) \<longrightarrow> is_terminal (js_state old)"
    "is_parent job \<longrightarrow> js_parent_job_id job = None"
  shows "store_inv (s\<lparr>by_id := hm_put jid job (by_id s)\<rparr>)"
proof -
  let ?s = "s\<lparr>by_id := hm_put jid job (by_id s)\<rparr>"
  have "index_ok ?s" using assms by (intro index_ok_put_same [where old = old]) (auto simp: store_inv_def)
  moreover have "records_ok ?s" using assms by (intro records_ok_put) (auto simp: store_inv_def)
  moreover have "scopes_ok ?s" using s scopes_ok_frame [of ?s s] by (simp add: store_inv_def)
  moreover have "owners_live ?s" "hierarchy_ok ?s"
    using assms by (auto simp: store_inv_def owners_live_def hierarchy_ok_def has_scope_owner_def hm_get_put)
  ultimately show ?thesis by (simp add: store_inv_def)
qed

lemma store_inv_attach_child: "store_inv s \<Longrightarrow> store_inv (fst (attach_child clk child s))"
proof -
  assume s: "store_inv s"
  have "store_inv (s\<lparr>by_id := hm_put p (touch clk (parent\<lparr>js_child_job_ids := cs\<rparr>)) (by_id s)\<rparr>)"
    if "hm_get (by_id s) p = Some parent" "js_parent_job_id parent = None" for p parent cs
    using s that store_inv_D(9) [OF s that(1)]
    by (intro store_inv_put [where old = parent]) (auto simp: should_index_def)
  with s show ?thesis by (simp add: attach_child_def split: option.splits)
qed

lemma owners_live_release:
  assumes "owners_live s" "scopes_by_owner s' = scopes_by_owner s"
    and "\<And>own. own \<noteq> jid \<Longrightarrow> hm_get (by_id s') own = hm_get (by_id s) own"
  shows "owners_live (release_scopes jid s')"
  using assms(1,3) has_scope_owner_frame [OF assms(2)]
  unfolding owners_live_def has_scope_owner_release by auto

lemma store_inv_remove:
  assumes s: "store_inv s"
  shows "store_inv (fst (remove jid s))"
proof (cases "hm_get (by_id s) jid")
  case (Some old)
  let ?s1 = "s\<lparr>by_id := hm_del jid (by_id s)\<rparr>"
  let ?s2 = "remove_active_job (js_rack_id old) (js_node_id old) jid ?s1"
  have eq: "fst (remove jid s) = release_scopes jid ?s2"
    using Some store_inv_D(9) [OF s Some] by (simp add: remove_def)
  have "index_ok ?s2" using Some s
    by (intro index_ok_remove_active [where s = s]) (auto simp: store_inv_def hm_get_del)
  moreover have "scopes_ok ?s2" using s scopes_ok_frame [of ?s2 s] by (simp add: store_inv_def)
  moreover have "owners_live (release_scopes jid ?s2)"
    using s by (intro owners_live_release [where s = s]) (auto simp: store_inv_def hm_get_del)
  moreover have "records_ok ?s2" "hierarchy_ok ?s2"
    using s by (auto simp: store_inv_def records_ok_def hierarchy_ok_def hash.ok_del hm_get_del
        split: if_splits)
  ultimately show ?thesis
    unfolding eq using frames [of "release_scopes jid ?s2" ?s2]
    by (simp add: store_inv_def scopes_ok_release)
qed (use s in \<open>simp add: remove_def\<close>)

lemma store_inv_remove_queued_leaf: "store_inv s \<Longrightarrow> store_inv (fst (remove_queued_leaf jid s))"
  using store_inv_remove [of s jid]
  by (auto simp: remove_queued_leaf_def split: option.splits prod.splits)

lemma transition_event_Terminal:
  "(\<exists>r. transition_event old rec = Some (Terminal r)) \<longleftrightarrow>
     \<not> is_terminal old \<and> is_terminal (js_state rec)"
  by (cases old; cases "js_state rec") (auto simp: transition_event_def)

lemma transition_event_Terminal_arg:
  "transition_event old rec = Some (Terminal r) \<Longrightarrow> r = rec"
  by (auto simp: transition_event_def Let_def split: if_splits)

lemma transition_state_cases:
  obtains (unknown) "hm_get (by_id s) jid = None" "transition_state clk jid f s = (s, False, None)"
  | (refused) old where "hm_get (by_id s) jid = Some old" "f (js_state old) = None"
      "transition_state clk jid f s = (s, False, None)"
  | (applied) old st s' where "hm_get (by_id s) jid = Some old" "f (js_state old) = Some st"
      "transition_state clk jid f s =
         (s', True, transition_event (js_state old) (touch clk (old\<lparr>js_state := st\<rparr>)))"
      "by_id s' = hm_put jid (touch clk (old\<lparr>js_state := st\<rparr>)) (by_id s)"
proof (cases "hm_get (by_id s) jid")
  case None
  then show ?thesis using unknown by (simp add: transition_state_def)
next
  case (Some old)
  show ?thesis
  proof (cases "f (js_state old)")
    case None
    then show ?thesis using Some refused by (simp add: transition_state_def)
  next
    case f: (Some st)
    let ?s' = "fst (transition_state clk jid f s)"
    have "transition_state clk jid f s =
        (?s', True, transition_event (js_state old) (touch clk (old\<lparr>js_state := st\<rparr>)))"
      using Some f by (simp add: transition_state_def Let_def)
    moreover have "by_id ?s' = hm_put jid (touch clk (old\<lparr>js_state := st\<rparr>)) (by_id s)"
      using Some f by (simp add: transition_state_def Let_def split: option.splits LifecycleTransition.splits)
    ultimately show ?thesis using applied Some f by blast
  qed
qed

text \<open>The three shapes of an applied transition, by what happens to the index.\<close>

lemma transition_state_live:
  assumes "hm_get (by_id s) jid = Some old" "f (js_state old) = Some st"
    and "is_terminal st = is_terminal (js_state old)"
  shows "fst (transition_state clk jid f s) =
    s\<lparr>by_id := hm_put jid (touch clk (old\<lparr>js_state := st\<rparr>)) (by_id s)\<rparr>"
proof -
  have "\<not> (\<exists>r. transition_event (js_state old) (touch clk (old\<lparr>js_state := st\<rparr>)) = Some (Terminal r))"
    using assms(3) by (simp add: transition_event_Terminal)
  then show ?thesis
    using assms by (auto simp: transition_state_def Let_def should_index_def
        split: option.splits LifecycleTransition.splits)
qed

lemma transition_state_terminal:
  assumes "hm_get (by_id s) jid = Some old" "f (js_state old) = Some st"
    and "is_terminal st" "\<not> is_terminal (js_state old)"
  shows "fst (transition_state clk jid f s) =
    (let s2 = release_scopes jid (s\<lparr>by_id := hm_put jid (touch clk (old\<lparr>js_state := st\<rparr>)) (by_id s)\<rparr>)
     in if js_node_id old = [] then s2
        else remove_active_job (js_rack_id old) (js_node_id old) (js_job_id old) s2)"
proof -
  obtain r where r: "transition_event (js_state old) (touch clk (old\<lparr>js_state := st\<rparr>)) = Some (Terminal r)"
    using assms(3,4) transition_event_Terminal [of "js_state old" "touch clk (old\<lparr>js_state := st\<rparr>)"]
    by auto
  then show ?thesis
    using assms by (simp add: transition_state_def Let_def should_index_def)
qed

lemma transition_state_revived:
  assumes "hm_get (by_id s) jid = Some old" "f (js_state old) = Some st"
    and "\<not> is_terminal st" "is_terminal (js_state old)"
  shows "fst (transition_state clk jid f s) =
    (let s1 = s\<lparr>by_id := hm_put jid (touch clk (old\<lparr>js_state := st\<rparr>)) (by_id s)\<rparr>
     in if js_node_id old = [] then s1
        else s1\<lparr>active_by_node := index_insert (js_rack_id old) (js_node_id old) (js_job_id old)
               (active_by_node s)\<rparr>)"
proof -
  have "\<not> (\<exists>r. transition_event (js_state old) (touch clk (old\<lparr>js_state := st\<rparr>)) = Some (Terminal r))"
    using assms(4) by (simp add: transition_event_Terminal)
  then show ?thesis
    using assms by (auto simp: transition_state_def Let_def should_index_def
        split: option.splits LifecycleTransition.splits)
qed

lemma remove_active_release:
  "remove_active_job rack node jid (release_scopes own s) =
     release_scopes own (remove_active_job rack node jid s)"
  by (simp add: remove_active_job_def release_scopes_def Let_def split: option.splits)

lemma store_inv_transition_state:
  assumes s: "store_inv s"
  shows "store_inv (fst (transition_state clk jid f s))"
proof (cases rule: transition_state_cases [of s jid clk f])
  case (applied old st s')
  let ?new = "touch clk (old\<lparr>js_state := st\<rparr>)"
  let ?s1 = "s\<lparr>by_id := hm_put jid ?new (by_id s)\<rparr>"
  have jid: "js_job_id old = jid" using store_inv_D(9) [OF s applied(1)] .
  have h: "is_parent ?new \<longrightarrow> js_parent_job_id ?new = None"
    using s applied(1) by (auto simp: store_inv_def hierarchy_ok_def is_parent_def)
  have r: "records_ok ?s1" using s jid by (intro records_ok_put) (auto simp: store_inv_def)
  have h1: "hierarchy_ok ?s1" using s h by (auto simp: store_inv_def hierarchy_ok_def hm_get_put)
  have sc: "scopes_ok ?s1" using s scopes_ok_frame [of ?s1 s] by (simp add: store_inv_def)
  consider (same) "is_terminal st = is_terminal (js_state old)"
    | (ended) "is_terminal st" "\<not> is_terminal (js_state old)"
    | (revived) "\<not> is_terminal st" "is_terminal (js_state old)" by auto
  then show ?thesis
  proof cases
    case same
    then have "store_inv ?s1"
      using s applied(1) jid h by (intro store_inv_put [where old = old]) (auto simp: should_index_def)
    then show ?thesis
      using transition_state_live [where f = f and clk = clk, OF applied(1,2) same] by simp
  next
    case ended
    let ?s2 = "if js_node_id old = [] then ?s1 else remove_active_job (js_rack_id old) (js_node_id old) jid ?s1"
    have eq: "fst (transition_state clk jid f s) = release_scopes jid ?s2"
      using transition_state_terminal [where f = f and clk = clk, OF applied(1,2) ended] jid
      by (auto simp: Let_def remove_active_release)
    have "index_ok ?s2"
      using s applied(1) ended index_ok_put_same [of s jid old ?new]
        index_ok_remove_active [of s jid old ?s1]
      by (auto simp: store_inv_def should_index_def hm_get_put)
    moreover have "owners_live (release_scopes jid ?s2)"
      using s by (intro owners_live_release [where s = s]) (auto simp: store_inv_def hm_get_put)
    ultimately show ?thesis
      unfolding eq using frames [of "release_scopes jid ?s2" ?s2] r h1 sc frames [of ?s2 ?s1]
      by (auto simp: store_inv_def scopes_ok_release)
  next
    case revived
    let ?s2 = "fst (transition_state clk jid f s)"
    have s2: "?s2 = (if js_node_id old = [] then ?s1
        else ?s1\<lparr>active_by_node := index_insert (js_rack_id old) (js_node_id old) jid (active_by_node s)\<rparr>)"
      using transition_state_revived [where f = f and clk = clk, OF applied(1,2) revived] jid by (auto simp: Let_def)
    have "index_ok ?s2"
      using s applied(1) revived index_ok_put_same [of s jid old ?new] index_ok_put_indexed [of s ?new jid]
      by (auto simp: s2 store_inv_def should_index_def)
    moreover have "owners_live ?s2"
      using s revived has_scope_owner_frame [of ?s2 s]
      by (auto simp: s2 store_inv_def owners_live_def hm_get_put)
    ultimately show ?thesis
      using r h1 sc frames [of ?s2 ?s1] by (auto simp: s2 store_inv_def)
  qed
qed (use s in simp_all)


subsection \<open>Eviction\<close>

lemma hm_get_map: "hm_get (map (\<lambda>(k, v). (k, f v)) m) k = map_option f (hm_get m k)"
  by (simp add: map_of_map)

lemma hm_ok_map: "hm_ok (map (\<lambda>(k, v). (k, f v)) m) = hm_ok m"
  by (simp add: hm_ok_def comp_def case_prod_beta)

lemma warn_fields [simp]:
  "js_job_id (warn_if_monotonic_timestamp_in_future now job) = js_job_id job"
  "js_state (warn_if_monotonic_timestamp_in_future now job) = js_state job"
  "js_rack_id (warn_if_monotonic_timestamp_in_future now job) = js_rack_id job"
  "js_node_id (warn_if_monotonic_timestamp_in_future now job) = js_node_id job"
  "js_child_job_ids (warn_if_monotonic_timestamp_in_future now job) = js_child_job_ids job"
  "js_parent_job_id (warn_if_monotonic_timestamp_in_future now job) = js_parent_job_id job"
  "js_updated_at_mono (warn_if_monotonic_timestamp_in_future now job) = js_updated_at_mono job"
  "js_cancellation_token (warn_if_monotonic_timestamp_in_future now job) = js_cancellation_token job"
  "js_workflow_type (warn_if_monotonic_timestamp_in_future now job) = js_workflow_type job"
  by (simp_all add: warn_if_monotonic_timestamp_in_future_def)

definition swept :: "nat \<Rightarrow> JobSnapshot \<Rightarrow> JobSnapshot" where
  "swept now job =
     (if is_terminal (js_state job) then warn_if_monotonic_timestamp_in_future now job else job)"

lemma swept_fields [simp]:
  "js_job_id (swept now job) = js_job_id job" "js_state (swept now job) = js_state job"
  "js_rack_id (swept now job) = js_rack_id job" "js_node_id (swept now job) = js_node_id job"
  "js_child_job_ids (swept now job) = js_child_job_ids job"
  "js_parent_job_id (swept now job) = js_parent_job_id job"
  "js_updated_at_mono (swept now job) = js_updated_at_mono job"
  "js_cancellation_token (swept now job) = js_cancellation_token job"
  "js_workflow_type (swept now job) = js_workflow_type job"
  by (simp_all add: swept_def)

lemma swept_parent [simp]: "is_parent (swept now job) = is_parent job"
  by (simp add: is_parent_def)

lemma swept_index [simp]: "should_index (swept now job) = should_index job"
  by (simp add: should_index_def)

lemma swept_expired [simp]: "is_expired now' ttl (swept now job) = is_expired now' ttl job"
  by (simp add: is_expired_def)

definition sweep :: "nat \<Rightarrow> JobStore \<Rightarrow> JobStore" where
  "sweep now s = s\<lparr>by_id := map (\<lambda>(jid, job). (jid, swept now job)) (by_id s)\<rparr>"

lemma get_sweep: "hm_get (by_id (sweep now s)) jid = map_option (swept now) (hm_get (by_id s) jid)"
  by (simp add: sweep_def hm_get_map)

lemma store_inv_sweep:
  assumes s: "store_inv s"
  shows "store_inv (sweep now s)"
proof -
  have "records_ok (sweep now s)"
    using s by (auto simp: store_inv_def records_ok_def get_sweep) (simp add: sweep_def hm_ok_map)
  moreover have "indexed (sweep now s) r n = indexed s r n" for r n
    by (auto simp: indexed_def get_sweep)
  then have "index_ok (sweep now s)"
    using s by (simp add: store_inv_def index_ok_def) (simp add: sweep_def)
  moreover have "owners_live (sweep now s)" "hierarchy_ok (sweep now s)"
    using s has_scope_owner_frame [of "sweep now s" s]
    by (auto simp: store_inv_def owners_live_def hierarchy_ok_def get_sweep) (auto simp: sweep_def)
  moreover have "scopes_ok (sweep now s)"
    using s scopes_ok_frame [of "sweep now s" s] by (simp add: store_inv_def sweep_def)
  ultimately show ?thesis by (simp add: store_inv_def)
qed

text \<open>
  The evicted jobs: terminal ones whose age reached the limit, that no unexpired parent still
  lists, and that have no retained child of their own.
\<close>

definition evictable :: "nat \<Rightarrow> nat \<Rightarrow> JobStore \<Rightarrow> JobId \<Rightarrow> JobSnapshot \<Rightarrow> bool" where
  "evictable now ttl s jid job \<longleftrightarrow>
     is_terminal (js_state job) \<and> ttl \<le> now - js_updated_at_mono job \<and>
     (\<forall>p parent. hm_get (by_id s) p = Some parent \<and> jid \<in> set (js_child_job_ids parent) \<longrightarrow>
        is_terminal (js_state parent) \<and> ttl \<le> now - js_updated_at_mono parent) \<and>
     (\<forall>c \<in> set (js_child_job_ids job). hm_get (by_id s) c = None)"

lemma by_id_remove: "by_id (fst (remove jid s)) =
    (if hm_get (by_id s) jid = None then by_id s else hm_del jid (by_id s))"
  by (auto simp: remove_def split: option.splits)

lemma get_remove: "hm_get (by_id (fst (remove jid s))) = (hm_get (by_id s))(jid := None)"
  by (auto simp: by_id_remove hm_get_del fun_eq_iff)

lemma get_fold_remove:
  "hm_get (by_id (fold (\<lambda>jid s. fst (remove jid s)) jids s)) k =
     (if k \<in> set jids then None else hm_get (by_id s) k)"
  by (induction jids arbitrary: s) (auto simp: get_remove)

lemma store_inv_fold_remove:
  "store_inv s \<Longrightarrow> store_inv (fold (\<lambda>jid s. fst (remove jid s)) jids s)"
  by (induction jids arbitrary: s) (auto intro: store_inv_remove)

lemma protected_children_iff:
  assumes "hm_ok m"
  shows "c \<in> set (protected_children m now ttl) \<longleftrightarrow>
    (\<exists>p parent. hm_get m p = Some parent \<and> c \<in> set (js_child_job_ids parent) \<and>
       \<not> is_expired now ttl parent)"
  using assms by (force simp: protected_children_def is_parent_def hm_ok_get [symmetric])

lemma cleanup_expired_fold:
  assumes s: "store_inv s"
  obtains expired where
    "cleanup_expired now ttl s = fold (\<lambda>jid s. fst (remove jid s)) expired (sweep now s)"
    "\<And>jid. jid \<in> set expired \<longleftrightarrow> (\<exists>job. hm_get (by_id s) jid = Some job \<and> evictable now ttl s jid job)"
proof -
  let ?m = "by_id (sweep now s)"
  let ?expired = "filter_job_ids ?m (\<lambda>jobs jid job. is_expired now ttl job \<and>
      jid \<notin> set (protected_children ?m now ttl) \<and>
      (\<not> is_parent job \<or> (\<forall>c \<in> set (js_child_job_ids job). hm_get jobs c = None)))"
  have ok: "hm_ok ?m" using store_inv_D(6) [OF store_inv_sweep [OF s]] .
  have prot: "jid \<in> set (protected_children ?m now ttl) \<longleftrightarrow> (\<exists>p parent. hm_get (by_id s) p = Some parent \<and>
      jid \<in> set (js_child_job_ids parent) \<and> \<not> is_expired now ttl parent)" for jid
    unfolding protected_children_iff [OF ok] get_sweep by fastforce
  have "jid \<in> set ?expired \<longleftrightarrow> (\<exists>job. hm_get ?m jid = Some job \<and> evictable now ttl s jid job)" for jid
    unfolding filter_job_ids_def evictable_def
    by (auto simp: hm_ok_get [OF ok] prot get_sweep is_expired_def is_older_than_def is_parent_def image_iff)
  moreover have "evictable now ttl s jid (swept now job) = evictable now ttl s jid job" for jid job
    by (simp add: evictable_def)
  ultimately have "jid \<in> set ?expired \<longleftrightarrow> (\<exists>job. hm_get (by_id s) jid = Some job \<and> evictable now ttl s jid job)" for jid
    by (auto simp: get_sweep)
  moreover have "cleanup_expired now ttl s = fold (\<lambda>jid s. fst (remove jid s)) ?expired (sweep now s)"
    by (simp add: cleanup_expired_def sweep_def swept_def Let_def)
  ultimately show ?thesis using that by blast
qed

lemma store_inv_cleanup: "store_inv s \<Longrightarrow> store_inv (cleanup_expired now ttl s)"
  using cleanup_expired_fold [of s now ttl] store_inv_fold_remove [OF store_inv_sweep] by metis

lemma get_cleanup:
  assumes "store_inv s"
  shows "hm_get (by_id (cleanup_expired now ttl s)) jid =
    (case hm_get (by_id s) jid of
       None \<Rightarrow> None
     | Some job \<Rightarrow> if evictable now ttl s jid job then None else Some (swept now job))"
  using assms by (rule cleanup_expired_fold [of s now ttl])
    (auto simp: get_fold_remove get_sweep split: option.splits)

end
