(* ===== verification/Ip_Addr.thy ===== *)
theory Ip_Addr
  imports Prelude
begin

text \<open>
  The part of \<open>std::net\<close> the service relies on: IPv4 and IPv6 addresses as machine words, the
  text parser (\<open>FromStr\<close>), the canonical text form (\<open>Display\<close>) and \<open>to_canonical\<close>.  The parser
  accepts what the standard library accepts: decimal octets without leading zeros, groups of up
  to four hexadecimal digits, one \<open>::\<close>, and a trailing embedded IPv4 address.
\<close>

section \<open>Addresses and their fields\<close>

type_synonym Ipv4Addr = "32 word"
type_synonym Ipv6Addr = "128 word"

datatype IpAddr = V4 Ipv4Addr | V6 Ipv6Addr

fun be_digits :: "nat \<Rightarrow> nat \<Rightarrow> nat \<Rightarrow> nat list" where
  "be_digits b 0 n = []"
| "be_digits b (Suc k) n = be_digits b k (n div b) @ [n mod b]"

definition of_be_digits :: "nat \<Rightarrow> nat list \<Rightarrow> nat" where
  "of_be_digits b ds = foldl (\<lambda>acc d. acc * b + d) 0 ds"

definition octets :: "Ipv4Addr \<Rightarrow> nat list" where
  "octets ip = be_digits 256 4 (unat ip)"

definition segments :: "Ipv6Addr \<Rightarrow> nat list" where
  "segments ip = be_digits 65536 8 (unat ip)"

definition ipv4_of :: "nat list \<Rightarrow> Ipv4Addr" where
  "ipv4_of os = of_nat (of_be_digits 256 os)"

definition ipv6_of :: "nat list \<Rightarrow> Ipv6Addr" where
  "ipv6_of segs = of_nat (of_be_digits 65536 segs)"

definition to_ipv4_mapped :: "Ipv6Addr \<Rightarrow> Ipv4Addr option" where
  "to_ipv4_mapped ip = (if drop_bit 32 ip = 0xffff then Some (ucast ip) else None)"

definition to_canonical :: "IpAddr \<Rightarrow> IpAddr" where
  "to_canonical a =
     (case a of
        V4 ip \<Rightarrow> V4 ip
      | V6 ip \<Rightarrow> (case to_ipv4_mapped ip of Some ip4 \<Rightarrow> V4 ip4 | None \<Rightarrow> V6 ip))"

lemma length_be_digits [simp]: "length (be_digits b k n) = k"
  by (induction k arbitrary: n) auto

lemma be_digits_less: "0 < b \<Longrightarrow> d \<in> set (be_digits b k n) \<Longrightarrow> d < b"
  by (induction k arbitrary: n) auto

lemma of_be_digits_snoc [simp]: "of_be_digits b (ds @ [d]) = of_be_digits b ds * b + d"
  by (simp add: of_be_digits_def)

lemma of_be_digits_be_digits: "0 < b \<Longrightarrow> of_be_digits b (be_digits b k n) = n mod b ^ k"
proof (induction k arbitrary: n)
  case (Suc k)
  then show ?case by (simp add: mod_mult2_eq [symmetric] mult.commute)
qed (simp add: of_be_digits_def)

lemma of_be_digits_less: "(\<forall>d \<in> set ds. d < b) \<Longrightarrow> of_be_digits b ds < b ^ length ds"
proof (induction ds rule: rev_induct)
  case (snoc d ds)
  then have "of_be_digits b ds * b + d < (of_be_digits b ds + 1) * b" by simp
  also have "\<dots> \<le> b ^ length ds * b" using snoc by (intro mult_le_mono1) (simp add: Suc_le_eq)
  finally show ?case by (simp add: mult.commute)
qed (simp add: of_be_digits_def)

lemma be_digits_of_be_digits:
  "(\<forall>d \<in> set ds. d < b) \<Longrightarrow> be_digits b (length ds) (of_be_digits b ds) = ds"
proof (induction ds rule: rev_induct)
  case (snoc d ds)
  then have "0 < b" by auto
  with snoc show ?case by simp
qed simp

lemma unat_less_32: "unat (ip :: Ipv4Addr) < 2 ^ 32"
  using unsigned_less [of ip] by simp

lemma unat_less_128: "unat (ip :: Ipv6Addr) < 2 ^ 128"
  using unsigned_less [of ip] by simp

lemma ipv4_of_octets [simp]: "ipv4_of (octets ip) = ip"
  using unat_less_32 [of ip] by (simp add: ipv4_of_def octets_def of_be_digits_be_digits)

lemma ipv6_of_segments [simp]: "ipv6_of (segments ip) = ip"
  using unat_less_128 [of ip] by (simp add: ipv6_of_def segments_def of_be_digits_be_digits)


section \<open>Text\<close>

definition to_digit :: "nat \<Rightarrow> char \<Rightarrow> nat option" where
  "to_digit radix c =
     (let n = (of_char c :: nat);
          v = (if 48 \<le> n \<and> n \<le> 57 then Some (n - 48)
               else if 97 \<le> n \<and> n \<le> 122 then Some (n - 97 + 10)
               else if 65 \<le> n \<and> n \<le> 90 then Some (n - 65 + 10)
               else None)
      in (case v of Some d \<Rightarrow> if d < radix then Some d else None | None \<Rightarrow> None))"

definition hex_digit :: "nat \<Rightarrow> char" where
  "hex_digit d = (if d < 10 then char_of (48 + d) else char_of (87 + d))"

fun show_hex :: "nat \<Rightarrow> string" where
  "show_hex n = (if n < 16 then [hex_digit n] else show_hex (n div 16) @ [hex_digit (n mod 16)])"

declare show_hex.simps [simp del]

definition read_number ::
  "nat \<Rightarrow> nat \<Rightarrow> bool \<Rightarrow> nat \<Rightarrow> string \<Rightarrow> (nat \<times> string) option" where
  "read_number radix max_digits allow_zero_prefix bound s =
     (let ds = takeWhile (\<lambda>c. to_digit radix c \<noteq> None) s;
          v = of_be_digits radix (List.map_filter (to_digit radix) ds)
      in if ds = [] \<or> max_digits < length ds
            \<or> (\<not> allow_zero_prefix \<and> hd ds = CHR ''0'' \<and> 1 < length ds) \<or> bound \<le> v
         then None else Some (v, drop (length ds) s))"

definition read_separator :: "char \<Rightarrow> nat \<Rightarrow> (string \<Rightarrow> 'a option) \<Rightarrow> string \<Rightarrow> 'a option" where
  "read_separator sep i p s =
     (if i = 0 then p s
      else (case s of [] \<Rightarrow> None | c # s' \<Rightarrow> if c = sep then p s' else None))"

fun read_octets :: "nat \<Rightarrow> nat \<Rightarrow> string \<Rightarrow> (nat list \<times> string) option" where
  "read_octets 0 i s = Some ([], s)"
| "read_octets (Suc k) i s =
     (case read_separator CHR ''.'' i (read_number 10 3 False 256) s of
        None \<Rightarrow> None
      | Some (d, s') \<Rightarrow>
          (case read_octets k (Suc i) s' of
             None \<Rightarrow> None
           | Some (ds, s'') \<Rightarrow> Some (d # ds, s'')))"

definition read_ipv4_addr :: "string \<Rightarrow> (nat list \<times> string) option" where
  "read_ipv4_addr s = read_octets 4 0 s"

text \<open>\<open>read_groups k i s\<close>: at most \<open>k\<close> more groups, \<open>i\<close> already read; the flag says an IPv4 tail ended it.\<close>

fun read_groups :: "nat \<Rightarrow> nat \<Rightarrow> string \<Rightarrow> nat list \<times> bool \<times> string" where
  "read_groups 0 i s = ([], False, s)"
| "read_groups (Suc k) i s =
     (case (if 0 < k then read_separator CHR '':'' i read_ipv4_addr s else None) of
        Some (os, s') \<Rightarrow> ([os ! 0 * 256 + os ! 1, os ! 2 * 256 + os ! 3], True, s')
      | None \<Rightarrow>
          (case read_separator CHR '':'' i (read_number 16 4 True 65536) s of
             None \<Rightarrow> ([], False, s)
           | Some (g, s') \<Rightarrow>
               (let (gs, v4, r) = read_groups k (Suc i) s' in (g # gs, v4, r))))"

definition read_ipv6_addr :: "string \<Rightarrow> (nat list \<times> string) option" where
  "read_ipv6_addr s =
     (let (head, v4, r) = read_groups 8 0 s in
      if length head = 8 then Some (head, r)
      else if v4 then None
      else (case r of
              c1 # c2 # r' \<Rightarrow>
                if c1 = CHR '':'' \<and> c2 = CHR '':'' then
                  (let (tail, _, r'') = read_groups (7 - length head) 0 r'
                   in Some (head @ replicate (8 - length head - length tail) 0 @ tail, r''))
                else None
            | _ \<Rightarrow> None))"

definition parse_ipv4 :: "string \<Rightarrow> Ipv4Addr option" where
  "parse_ipv4 s = (case read_ipv4_addr s of Some (os, []) \<Rightarrow> Some (ipv4_of os) | _ \<Rightarrow> None)"

definition parse_ipv6 :: "string \<Rightarrow> Ipv6Addr option" where
  "parse_ipv6 s = (case read_ipv6_addr s of Some (gs, []) \<Rightarrow> Some (ipv6_of gs) | _ \<Rightarrow> None)"

definition parse_ip :: "string \<Rightarrow> IpAddr option" where
  "parse_ip s =
     (case read_ipv4_addr s of
        Some (os, r) \<Rightarrow> if r = [] then Some (V4 (ipv4_of os)) else None
      | None \<Rightarrow> map_option V6 (parse_ipv6 s))"

fun join :: "string \<Rightarrow> string list \<Rightarrow> string" where
  "join sep [] = []"
| "join sep [x] = x"
| "join sep (x # y # xs) = x @ sep @ join sep (y # xs)"

definition show_ipv4 :: "Ipv4Addr \<Rightarrow> string" where
  "show_ipv4 ip = join ''.'' (map show_nat (octets ip))"

text \<open>The longest run of zero segments, the first one when several are longest: start and length.\<close>

fun longest_zeroes :: "nat \<Rightarrow> nat \<times> nat \<Rightarrow> nat \<times> nat \<Rightarrow> nat list \<Rightarrow> nat \<times> nat" where
  "longest_zeroes i cur best [] = best"
| "longest_zeroes i cur best (x # xs) =
     (if x = 0 then
        (let cur' = (if snd cur = 0 then i else fst cur, Suc (snd cur))
         in longest_zeroes (Suc i) cur' (if snd best < snd cur' then cur' else best) xs)
      else longest_zeroes (Suc i) (0, 0) best xs)"

definition show_ipv6 :: "Ipv6Addr \<Rightarrow> string" where
  "show_ipv6 ip =
     (case to_ipv4_mapped ip of
        Some ip4 \<Rightarrow> ''::ffff:'' @ show_ipv4 ip4
      | None \<Rightarrow>
          (let segs = segments ip; (start, len) = longest_zeroes 0 (0, 0) (0, 0) segs
           in if 1 < len then
                join '':'' (map show_hex (take start segs)) @ ''::''
                  @ join '':'' (map show_hex (drop (start + len) segs))
              else join '':'' (map show_hex segs)))"

definition show_ip :: "IpAddr \<Rightarrow> string" where
  "show_ip a = (case a of V4 ip \<Rightarrow> show_ipv4 ip | V6 ip \<Rightarrow> show_ipv6 ip)"

end
