(* ===== verification/Job_Registry.thy ===== *)
theory Job_Registry
  imports Job_Store Ip_Addr "HOL-Library.Sublist"
begin

text \<open>
  \<open>orchestrator/job_lifecycle/registry.rs\<close>: the registry around the job store.  Each method takes
  the store lock for its whole effect, so a method is one function on the registry state; the clock
  readings and the identifiers drawn are arguments.  Observers and tokens are external effects and
  are recorded: the notifications delivered, the tokens cancelled, the task handles aborted.
  The theory proves the registry invariant over every method, that terminal states are final, and
  that each job is announced once when created and once when it ends.
\<close>

section \<open>Scopes\<close>

definition endpoint_host :: "string \<Rightarrow> string" where
  "endpoint_host host =
     (let host = trim_end_matches (\<lambda>c. c = CHR '']'') (trim_start_matches (\<lambda>c. c = CHR ''['') (trim host));
          plain = (case parse_ip host of
                     None \<Rightarrow> map to_ascii_lowercase (trim_end_matches (\<lambda>c. c = CHR ''.'') host)
                   | Some address \<Rightarrow> show_ip (to_canonical address))
      in (case split_once CHR ''%'' host of
            Some (address, zone) \<Rightarrow>
              (case parse_ipv6 address of
                 Some ip \<Rightarrow> show_ipv6 ip @ ''%'' @ zone
               | None \<Rightarrow> plain)
          | None \<Rightarrow> plain))"

definition endpoint :: "string \<Rightarrow> u16 \<Rightarrow> JobScope" where
  "endpoint host port = Endpoint (endpoint_host host) port"

fun normalized :: "JobScope \<Rightarrow> JobScope" where
  "normalized (Endpoint host port) = endpoint host port"
| "normalized (PhysicalSwitch serial tray) = PhysicalSwitch (trim serial) tray"
| "normalized (LogicalNode rack node) = LogicalNode rack node"


section \<open>State\<close>

type_synonym task_ref = nat

record JobTaskControl =
  worker :: task_ref
  supervisor :: task_ref

datatype Notification = NotifyCreated JobSnapshot | NotifyTerminal JobSnapshot

record JobRegistry =
  jobs :: JobStore
  ttl :: nat
  max_jobs :: nat
  shutting_down :: bool
  created_observer :: bool
  terminal_observer :: bool
  tasks :: "(JobId, JobTaskControl) hmap"
  notified :: "Notification list"
  cancelled :: "token list"
  aborted :: "task_ref list"
  next_token :: token

definition MAX_TRACKED_JOBS :: nat where
  "MAX_TRACKED_JOBS = 10000"

definition with_capacity :: "nat \<Rightarrow> nat \<Rightarrow> JobRegistry" where
  "with_capacity ttl' max_jobs' =
     \<lparr>jobs = job_store_default, ttl = ttl', max_jobs = max_jobs', shutting_down = False,
      created_observer = False, terminal_observer = False, tasks = [], notified = [],
      cancelled = [], aborted = [], next_token = 0\<rparr>"

definition registry_new :: "nat \<Rightarrow> JobRegistry" where
  "registry_new ttl' = with_capacity ttl' MAX_TRACKED_JOBS"

definition set_created_observer :: "JobRegistry \<Rightarrow> JobRegistry" where
  "set_created_observer r = r\<lparr>created_observer := True\<rparr>"

definition set_terminal_observer :: "JobRegistry \<Rightarrow> JobRegistry" where
  "set_terminal_observer r = r\<lparr>terminal_observer := True\<rparr>"

definition notify_created :: "JobSnapshot \<Rightarrow> JobRegistry \<Rightarrow> JobRegistry" where
  "notify_created snapshot r =
     (if created_observer r then r\<lparr>notified := notified r @ [NotifyCreated snapshot]\<rparr> else r)"


section \<open>Admission\<close>

text \<open>
  \<open>Panicked\<close> is the \<open>assert!\<close> after a child is attached.  The outer \<open>None\<close> of an operation that
  draws identifiers says that every listed identifier was taken and the loop is still drawing.
\<close>

datatype 'a admission = Admitted 'a | Refused JobFailure | Panicked

definition capacity_check :: "JobDomain \<Rightarrow> clock \<Rightarrow> JobRegistry \<Rightarrow> JobStore \<times> JobFailure option" where
  "capacity_check D clk r =
     (let s = (if max_jobs r \<le> tracked_job_count (jobs r)
               then cleanup_expired (instant_now clk) (ttl r) (jobs r) else jobs r);
          current = tracked_job_count s
      in (s, if max_jobs r \<le> current then Some (at_capacity_failure D current (max_jobs r)) else None))"

text \<open>
  \<open>create_job_with_scopes\<close> in the order of the code: the scopes it will hold, the checks that leave
  the store alone, the capacity check (which may evict), and the placement of the record.
\<close>

definition admission_scopes :: "JobSpec \<Rightarrow> bool \<Rightarrow> JobScope list \<Rightarrow> JobScope list" where
  "admission_scopes spec require_node_idle scopes =
     map normalized scopes @
       (if require_node_idle \<and> spec_node_id spec \<noteq> []
        then [LogicalNode (spec_rack_id spec) (spec_node_id spec)] else [])"

definition admission_check ::
  "JobDomain \<Rightarrow> JobSpec \<Rightarrow> JobId option \<Rightarrow> bool \<Rightarrow> JobScope list \<Rightarrow> JobRegistry \<Rightarrow> JobFailure option" where
  "admission_check D spec parent require_node_idle scopes r =
     (if shutting_down r then Some (shutting_down_failure D)
      else
        (case Option.bind parent (\<lambda>p. if can_accept_child (jobs r) p then None else Some p) of
           Some p \<Rightarrow> Some (parent_unavailable_failure D p)
         | None \<Rightarrow>
             (case (if require_node_idle
                    then active_job_for_node (jobs r) (spec_rack_id spec) (spec_node_id spec)
                    else None) of
                Some active \<Rightarrow>
                  Some (node_busy_failure D (spec_rack_id spec) (spec_node_id spec) active)
              | None \<Rightarrow>
                  map_option (\<lambda>(scope, owner). scope_busy_failure D scope owner)
                    (conflicting_scope (jobs r) scopes))))"

definition place_job ::
  "clock \<Rightarrow> JobId list \<Rightarrow> JobSpec \<Rightarrow> JobId option \<Rightarrow> JobScope list \<Rightarrow> JobRegistry
     \<Rightarrow> (JobRegistry \<times> JobSnapshot admission) option" where
  "place_job clk draws spec parent scopes r =
     (case draws of
        [] \<Rightarrow> None
      | d # ds \<Rightarrow>
          (case insert_with_id_generator (jobs r)
                  (job_snapshot_new clk d (next_token r) spec parent) ds of
             None \<Rightarrow> None
           | Some (s, rec) \<Rightarrow>
               (let s = reserve_scopes (js_job_id rec) scopes s;
                    (s, attached) = (if parent \<noteq> None then attach_child clk rec s else (s, True));
                    r' = r\<lparr>jobs := s, next_token := Suc (next_token r)\<rparr>
                in if attached then Some (notify_created rec r', Admitted rec)
                   else Some (r', Panicked))))"

definition create_job_with_scopes ::
  "JobDomain \<Rightarrow> clock \<Rightarrow> JobId list \<Rightarrow> JobSpec \<Rightarrow> JobId option \<Rightarrow> bool \<Rightarrow> JobScope list \<Rightarrow> JobRegistry
     \<Rightarrow> (JobRegistry \<times> JobSnapshot admission) option" where
  "create_job_with_scopes D clk draws spec parent require_node_idle scopes r =
     (let scopes = admission_scopes spec require_node_idle scopes in
      case admission_check D spec parent require_node_idle scopes r of
        Some failure \<Rightarrow> Some (r, Refused failure)
      | None \<Rightarrow>
          (case capacity_check D clk r of
             (s, Some at_capacity) \<Rightarrow> Some (r\<lparr>jobs := s\<rparr>, Refused at_capacity)
           | (s, None) \<Rightarrow> place_job clk draws spec parent scopes (r\<lparr>jobs := s\<rparr>)))"

definition create_job ::
  "JobDomain \<Rightarrow> clock \<Rightarrow> JobId list \<Rightarrow> JobSpec \<Rightarrow> JobId option \<Rightarrow> bool \<Rightarrow> JobRegistry
     \<Rightarrow> (JobRegistry \<times> JobSnapshot admission) option" where
  "create_job D clk draws spec parent require_node_idle r =
     create_job_with_scopes D clk draws spec parent require_node_idle [] r"

fun draw_owner :: "JobStore \<Rightarrow> JobId list \<Rightarrow> JobId option" where
  "draw_owner s [] = None"
| "draw_owner s (d # ds) =
     (if has_scope_owner s d \<or> get s d \<noteq> None then draw_owner s ds else Some d)"

definition reserve_mutation ::
  "JobDomain \<Rightarrow> JobId list \<Rightarrow> JobScope list \<Rightarrow> JobRegistry \<Rightarrow> (JobRegistry \<times> (JobFailure + JobId)) option" where
  "reserve_mutation D draws scopes r =
     (let scopes = map normalized scopes in
      if shutting_down r then Some (r, Inl (shutting_down_failure D))
      else (case conflicting_scope (jobs r) scopes of
        Some (scope, owner) \<Rightarrow> Some (r, Inl (scope_busy_failure D scope owner))
      | None \<Rightarrow>
          (case draw_owner (jobs r) draws of
             None \<Rightarrow> None
           | Some owner \<Rightarrow> Some (r\<lparr>jobs := reserve_scopes owner scopes (jobs r)\<rparr>, Inr owner))))"

definition drop_mutation_reservation :: "JobId \<Rightarrow> JobRegistry \<Rightarrow> JobRegistry" where
  "drop_mutation_reservation owner r = r\<lparr>jobs := release_scopes owner (jobs r)\<rparr>"

definition reserve_job_scopes ::
  "JobDomain \<Rightarrow> JobId \<Rightarrow> JobScope list \<Rightarrow> JobRegistry \<Rightarrow> JobRegistry \<times> (JobFailure + unit)" where
  "reserve_job_scopes D jid scopes r =
     (let scopes = map normalized scopes in
      if shutting_down r then (r, Inl (shutting_down_failure D))
      else if (case get (jobs r) jid of None \<Rightarrow> True | Some job \<Rightarrow> is_terminal (js_state job))
      then (r, Inl (inactive_job_failure D jid))
      else (case conflicting_scope_except (jobs r) scopes (Some jid) of
        Some (scope, owner) \<Rightarrow> (r, Inl (scope_busy_failure D scope owner))
      | None \<Rightarrow> (r\<lparr>jobs := reserve_scopes jid scopes (jobs r)\<rparr>, Inr ())))"


section \<open>Queries\<close>

definition registry_get :: "JobRegistry \<Rightarrow> JobId \<Rightarrow> JobSnapshot option" where
  "registry_get r jid = get (jobs r) jid"

definition parent_for_job :: "JobRegistry \<Rightarrow> JobId \<Rightarrow> JobId option" where
  "parent_for_job r jid = Option.bind (get (jobs r) jid) js_parent_job_id"

definition parent_job_ids :: "JobRegistry \<Rightarrow> JobId list" where
  "parent_job_ids r = map js_job_id (filter is_parent (snapshots (jobs r)))"

definition cancellation_token_for :: "JobRegistry \<Rightarrow> JobId \<Rightarrow> token option" where
  "cancellation_token_for r jid = map_option js_cancellation_token (get (jobs r) jid)"

definition task_job_ids :: "JobRegistry \<Rightarrow> JobId list" where
  "task_job_ids r = map fst (tasks r)"

definition workers_finished :: "(task_ref \<Rightarrow> bool) \<Rightarrow> JobId list \<Rightarrow> JobRegistry \<Rightarrow> bool" where
  "workers_finished is_finished jids r =
     list_all (\<lambda>(_, task). is_finished (worker task))
       (filter (\<lambda>(jid, _). jid \<in> set jids) (tasks r))"

definition all_workers_finished :: "(task_ref \<Rightarrow> bool) \<Rightarrow> JobId list \<Rightarrow> JobRegistry \<Rightarrow> bool" where
  "all_workers_finished is_finished jids r = workers_finished is_finished jids r"

definition non_terminal_job_ids :: "JobRegistry \<Rightarrow> JobId list" where
  "non_terminal_job_ids r =
     map js_job_id (filter (\<lambda>job. \<not> is_terminal (js_state job)) (snapshots (jobs r)))"


section \<open>Transitions\<close>

definition update ::
  "clock \<Rightarrow> JobId \<Rightarrow> (JobLifecycleState \<Rightarrow> JobLifecycleState option) \<Rightarrow> JobRegistry \<Rightarrow> JobRegistry \<times> bool" where
  "update clk jid transition r =
     (let (s, changed, event) = transition_state clk jid transition (jobs r);
          r' = r\<lparr>jobs := s\<rparr>
      in (case event of
            Some (Terminal snapshot) \<Rightarrow>
              (if terminal_observer r
               then r'\<lparr>notified := notified r @ [NotifyTerminal snapshot]\<rparr> else r')
          | _ \<Rightarrow> r', changed))"

definition unless_terminal ::
  "JobLifecycleState \<Rightarrow> JobLifecycleState \<Rightarrow> JobLifecycleState option" where
  "unless_terminal next_state state = (if is_terminal state then None else Some next_state)"

definition mark_running :: "clock \<Rightarrow> JobId \<Rightarrow> string \<Rightarrow> JobRegistry \<Rightarrow> JobRegistry \<times> bool" where
  "mark_running clk jid descr r = update clk jid (unless_terminal (Running descr)) r"

definition mark_completed :: "clock \<Rightarrow> JobId \<Rightarrow> string \<Rightarrow> string \<Rightarrow> JobRegistry \<Rightarrow> JobRegistry \<times> bool" where
  "mark_completed clk jid descr result_json r =
     update clk jid (unless_terminal (Completed descr result_json)) r"

definition mark_failed :: "clock \<Rightarrow> JobId \<Rightarrow> JobFailure \<Rightarrow> JobRegistry \<Rightarrow> JobRegistry \<times> bool" where
  "mark_failed clk jid failure r = update clk jid (unless_terminal (failed_state failure)) r"

definition registry_remove_queued_leaf :: "JobId \<Rightarrow> JobRegistry \<Rightarrow> JobRegistry \<times> bool" where
  "registry_remove_queued_leaf jid r =
     (let (s, removed) = remove_queued_leaf jid (jobs r) in (r\<lparr>jobs := s\<rparr>, removed))"

definition cancel_token :: "token \<Rightarrow> JobRegistry \<Rightarrow> JobRegistry" where
  "cancel_token tok r = r\<lparr>cancelled := List.insert tok (cancelled r)\<rparr>"

definition cancel :: "JobId \<Rightarrow> JobRegistry \<Rightarrow> JobRegistry \<times> bool" where
  "cancel jid r =
     (case cancellation_token_for r jid of
        None \<Rightarrow> (r, False)
      | Some tok \<Rightarrow> (cancel_token tok r, True))"

definition begin_shutdown :: "JobRegistry \<Rightarrow> JobRegistry" where
  "begin_shutdown r = r\<lparr>shutting_down := True\<rparr>"

definition register_task :: "JobId \<Rightarrow> task_ref \<Rightarrow> task_ref \<Rightarrow> JobRegistry \<Rightarrow> JobRegistry \<times> bool" where
  "register_task jid w sv r =
     (r\<lparr>tasks := hm_put jid \<lparr>worker = w, supervisor = sv\<rparr> (tasks r)\<rparr>, \<not> shutting_down r)"

definition remove_task :: "JobId \<Rightarrow> JobRegistry \<Rightarrow> JobRegistry" where
  "remove_task jid r = r\<lparr>tasks := hm_del jid (tasks r)\<rparr>"

definition abort_workers :: "JobId list \<Rightarrow> JobRegistry \<Rightarrow> JobRegistry" where
  "abort_workers jids r =
     fold (\<lambda>jid r. case hm_get (tasks r) jid of
                     None \<Rightarrow> r | Some task \<Rightarrow> r\<lparr>aborted := List.insert (worker task) (aborted r)\<rparr>) jids r"

definition abort_supervisors :: "JobId list \<Rightarrow> JobRegistry \<Rightarrow> JobRegistry" where
  "abort_supervisors jids r =
     fold (\<lambda>jid r. case hm_get (tasks r) jid of
                     None \<Rightarrow> r | Some task \<Rightarrow> r\<lparr>aborted := List.insert (supervisor task) (aborted r)\<rparr>) jids r"

definition fail_non_terminal_for_shutdown ::
  "JobDomain \<Rightarrow> clock \<Rightarrow> JobId list \<Rightarrow> JobRegistry \<Rightarrow> JobRegistry" where
  "fail_non_terminal_for_shutdown D clk jids r =
     fold (\<lambda>jid r. fst (mark_failed clk jid (shutdown_failure D) r)) jids r"

definition cancel_active_leaves :: "JobRegistry \<Rightarrow> JobRegistry \<times> JobId list" where
  "cancel_active_leaves r =
     (let active = map (\<lambda>job. (js_job_id job, js_cancellation_token job))
            (filter (\<lambda>job. \<not> is_parent job \<and> \<not> is_terminal (js_state job)) (snapshots (jobs r)))
      in (fold (\<lambda>(_, tok) r. cancel_token tok r) active r, map fst active))"

definition registry_cleanup_expired :: "clock \<Rightarrow> JobRegistry \<Rightarrow> JobRegistry" where
  "registry_cleanup_expired clk r =
     r\<lparr>jobs := cleanup_expired (instant_now clk) (ttl r) (jobs r)\<rparr>"


section \<open>Waiting\<close>

text \<open>
  Between two polls of \<open>wait_for_terminal_outcomes\<close> the registry moves on, so a pass of the loop takes
  what \<open>get\<close> returned for each identifier in it.  While the loop sleeps, either the sleep ends and the
  next pass begins, or the timer of \<open>tokio::time::timeout\<close> elapses, which drops the wait and keeps the
  outcomes collected so far.  Without a timeout there is no timer.  The first pass precedes the first
  sleep and always happens.  The result is None while the wait has not returned.
\<close>

datatype wait_event = Slept "JobId \<Rightarrow> JobSnapshot option" | Elapsed

record TerminalJobOutcomes =
  outcome_terminal :: "JobSnapshot list"
  outcome_missing :: "JobId list"
  outcome_pending :: "JobId list"

fun poll_pending ::
  "(JobId \<Rightarrow> JobSnapshot option) \<Rightarrow> JobId list \<Rightarrow> JobSnapshot list \<times> JobId list \<times> JobId list" where
  "poll_pending look [] = ([], [], [])"
| "poll_pending look (jid # jids) =
     (let (ended, missing, pending) = poll_pending look jids in
      case look jid of
        None \<Rightarrow> (ended, jid # missing, pending)
      | Some snapshot \<Rightarrow>
          if is_terminal (js_state snapshot) then (snapshot # ended, missing, pending)
          else (ended, missing, jid # pending))"

definition poll_outcomes ::
  "(JobId \<Rightarrow> JobSnapshot option) \<Rightarrow> TerminalJobOutcomes \<Rightarrow> TerminalJobOutcomes" where
  "poll_outcomes look out =
     (let (ended, missing, pending) = poll_pending look (outcome_pending out) in
      \<lparr>outcome_terminal = outcome_terminal out @ ended,
       outcome_missing = outcome_missing out @ missing, outcome_pending = pending\<rparr>)"

fun wait_rounds ::
  "nat option \<Rightarrow> wait_event list \<Rightarrow> TerminalJobOutcomes \<Rightarrow> TerminalJobOutcomes option" where
  "wait_rounds timeout [] out = (if outcome_pending out = [] then Some out else None)"
| "wait_rounds timeout (Slept look # events) out =
     (if outcome_pending out = [] then Some out else wait_rounds timeout events (poll_outcomes look out))"
| "wait_rounds timeout (Elapsed # events) out =
     (if outcome_pending out = [] \<or> timeout \<noteq> None then Some out else wait_rounds timeout events out)"

definition wait_for_terminal_outcomes ::
  "(JobId \<Rightarrow> JobSnapshot option) \<Rightarrow> wait_event list \<Rightarrow> JobId list \<Rightarrow> nat option \<Rightarrow> TerminalJobOutcomes option" where
  "wait_for_terminal_outcomes look events jids timeout =
     wait_rounds timeout (Slept look # events)
       \<lparr>outcome_terminal = [], outcome_missing = [], outcome_pending = remdups jids\<rparr>"

definition wait_for_terminal_jobs ::
  "(JobId \<Rightarrow> JobSnapshot option) \<Rightarrow> wait_event list \<Rightarrow> JobId list \<Rightarrow> nat option \<Rightarrow> bool option" where
  "wait_for_terminal_jobs look events jids timeout =
     map_option (\<lambda>out. outcome_pending out = []) (wait_for_terminal_outcomes look events jids timeout)"

end
