(* ===== verification/Job_Invariants.thy ===== *)
theory Job_Invariants
  imports Job_Registry "HOL-Library.Multiset"
begin

text \<open>
  What holds of the job registry over every interleaving of its methods: the step relation that has
  one rule per method, the invariant (store consistency, capacity, cancellation tokens), the order
  along which registries move (terminal states are final, nothing returns to the queue, shutdown is
  irreversible) and the notification counts.
\<close>

section \<open>How a record may change\<close>

fun state_le :: "JobLifecycleState \<Rightarrow> JobLifecycleState \<Rightarrow> bool" where
  "state_le (Queued _) st = True"
| "state_le (Running _) st = (case st of Queued _ \<Rightarrow> False | _ \<Rightarrow> True)"
| "state_le old st = (st = old)"

definition job_evolves :: "JobSnapshot \<Rightarrow> JobSnapshot \<Rightarrow> bool" where
  "job_evolves old new \<longleftrightarrow>
     js_job_id new = js_job_id old \<and> js_rack_id new = js_rack_id old \<and>
     js_node_id new = js_node_id old \<and> js_created_at new = js_created_at old \<and>
     js_parent_job_id new = js_parent_job_id old \<and>
     js_cancellation_token new = js_cancellation_token old \<and>
     js_workflow_type new = js_workflow_type old \<and>
     prefix (js_child_job_ids old) (js_child_job_ids new) \<and> state_le (js_state old) (js_state new)"

definition job_keeps :: "JobSnapshot \<Rightarrow> JobSnapshot \<Rightarrow> bool" where
  "job_keeps old new \<longleftrightarrow> job_evolves old new \<and> js_state new = js_state old"

definition store_rel :: "(JobSnapshot \<Rightarrow> JobSnapshot \<Rightarrow> bool) \<Rightarrow> JobStore \<Rightarrow> JobStore \<Rightarrow> bool" where
  "store_rel R s s' \<longleftrightarrow>
     (\<forall>jid new. hm_get (by_id s') jid = Some new \<longrightarrow>
        (\<exists>old. hm_get (by_id s) jid = Some old \<and> R old new))"

lemma state_le_refl [simp]: "state_le st st"
  by (cases st) auto

lemma state_le_trans: "state_le a b \<Longrightarrow> state_le b c \<Longrightarrow> state_le a c"
  by (cases a; cases b; cases c) auto

lemma state_le_terminal: "state_le a b \<Longrightarrow> is_terminal a \<Longrightarrow> b = a"
  by (cases a) auto

lemma state_le_unless_terminal:
  "unless_terminal st old = Some st' \<Longrightarrow> (\<And>d. st \<noteq> Queued d) \<Longrightarrow> state_le old st'"
  by (cases old; cases st) (auto simp: unless_terminal_def split: if_splits)

lemma job_evolves_refl [simp]: "job_evolves job job"
  by (simp add: job_evolves_def)

lemma job_evolves_trans: "job_evolves a b \<Longrightarrow> job_evolves b c \<Longrightarrow> job_evolves a c"
  by (auto simp: job_evolves_def intro: prefix_order.trans state_le_trans)

lemma job_keeps_refl [simp]: "job_keeps job job"
  by (simp add: job_keeps_def)

lemma job_keeps_trans: "job_keeps a b \<Longrightarrow> job_keeps b c \<Longrightarrow> job_keeps a c"
  by (auto simp: job_keeps_def intro: job_evolves_trans)

lemma job_keeps_swept [simp]: "job_keeps job (swept now job)"
  by (simp add: job_keeps_def job_evolves_def)
    (simp add: swept_def warn_if_monotonic_timestamp_in_future_def)

lemma job_keeps_child [simp]:
  "job_keeps p (touch clk (p\<lparr>js_child_job_ids := js_child_job_ids p @ [c]\<rparr>))"
  by (simp add: job_keeps_def job_evolves_def touch_def)

lemma store_rel_mono: "store_rel R s s' \<Longrightarrow> (\<And>a b. R a b \<Longrightarrow> Q a b) \<Longrightarrow> store_rel Q s s'"
  by (fastforce simp: store_rel_def)

lemma store_keeps_evolves: "store_rel job_keeps s s' \<Longrightarrow> store_rel job_evolves s s'"
  by (erule store_rel_mono) (simp add: job_keeps_def)

lemma store_evolves_trans:
  "store_rel job_evolves a b \<Longrightarrow> store_rel job_evolves b c \<Longrightarrow> store_rel job_evolves a c"
  unfolding store_rel_def by (meson job_evolves_trans)

lemma store_keeps_trans:
  "store_rel job_keeps a b \<Longrightarrow> store_rel job_keeps b c \<Longrightarrow> store_rel job_keeps a c"
  unfolding store_rel_def by (meson job_keeps_trans)

lemma store_keeps_frame: "by_id s' = by_id s \<Longrightarrow> store_rel job_keeps s s'"
  by (auto simp: store_rel_def)

lemma store_rel_put:
  "hm_get (by_id s) jid = Some old \<Longrightarrow> R old new \<Longrightarrow> by_id s' = hm_put jid new (by_id s) \<Longrightarrow>
     (\<And>job. R job job) \<Longrightarrow> store_rel R s s'"
  by (auto simp: store_rel_def hm_get_put)

lemma store_keeps_remove: "store_rel job_keeps s (fst (remove jid s))"
  by (auto simp: store_rel_def get_remove split: if_splits)

lemma store_keeps_remove_queued_leaf: "store_rel job_keeps s (fst (remove_queued_leaf jid s))"
  using store_keeps_remove [of s jid] store_keeps_frame [of s s]
  by (auto simp: remove_queued_leaf_def split: option.splits prod.splits)

lemma store_keeps_cleanup: "store_inv s \<Longrightarrow> store_rel job_keeps s (cleanup_expired now ttl' s)"
  by (auto simp: store_rel_def get_cleanup split: option.splits if_splits)

lemma store_keeps_attach_child: "store_rel job_keeps s (fst (attach_child clk child s))"
  using store_keeps_frame [of s s]
  by (auto simp: attach_child_def split: option.splits intro!: store_rel_put)

lemma store_evolves_transition:
  assumes "\<And>st st'. f st = Some st' \<Longrightarrow> state_le st st'"
  shows "store_rel job_evolves s (fst (transition_state clk jid f s))"
proof (cases rule: transition_state_cases [of s jid clk f])
  case (applied old st s')
  have "job_evolves old (touch clk (old\<lparr>js_state := st\<rparr>))"
    using assms [OF applied(2)] by (simp add: job_evolves_def touch_def)
  from store_rel_put [where R = job_evolves, OF applied(1) this applied(4)] show ?thesis by (simp add: applied(3))
qed (simp_all add: store_keeps_evolves store_keeps_frame)

lemma store_evolves_count:
  assumes "store_inv s" "store_inv s'" "store_rel job_evolves s s'"
  shows "tracked_job_count s' \<le> tracked_job_count s"
proof -
  have "set (map fst (by_id s')) \<subseteq> set (map fst (by_id s))"
    using assms(3) by (auto simp: store_rel_def hm_keys_get simp del: set_map) fastforce
  then have "card (set (map fst (by_id s'))) \<le> card (set (map fst (by_id s)))"
    by (intro card_mono) auto
  then show ?thesis
    using store_inv_D(6) [OF assms(1)] store_inv_D(6) [OF assms(2)]
    by (simp add: hm_ok_def tracked_job_count_def distinct_card del: set_map)
qed


section \<open>Admission\<close>

lemma capacity_check_store:
  "fst (capacity_check D clk r) = jobs r \<or>
   fst (capacity_check D clk r) = cleanup_expired (instant_now clk) (ttl r) (jobs r)"
  by (simp add: capacity_check_def Let_def)

lemma store_inv_capacity_check:
  "store_inv (jobs r) \<Longrightarrow> store_inv (fst (capacity_check D clk r))"
  using capacity_check_store [of D clk r] store_inv_cleanup by metis

lemma store_keeps_capacity_check:
  "store_inv (jobs r) \<Longrightarrow> store_rel job_keeps (jobs r) (fst (capacity_check D clk r))"
  using capacity_check_store [of D clk r] store_keeps_cleanup store_keeps_frame by metis

lemma capacity_check_room:
  "capacity_check D clk r = (s, None) \<Longrightarrow> tracked_job_count s < max_jobs r"
  by (auto simp: capacity_check_def Let_def split: if_splits)

lemma admission_check_None:
  "admission_check D spec parent idle scopes r = None \<longleftrightarrow>
     \<not> shutting_down r \<and> (\<forall>p. parent = Some p \<longrightarrow> can_accept_child (jobs r) p) \<and>
     (idle \<longrightarrow> active_job_for_node (jobs r) (spec_rack_id spec) (spec_node_id spec) = None) \<and>
     conflicting_scope (jobs r) scopes = None"
  by (cases parent) (auto simp: admission_check_def split: option.splits)

text \<open>Every way a creation request can end.\<close>

lemma create_job_cases:
  assumes "create_job_with_scopes D clk draws spec parent idle scopes r = Some (r', out)"
  obtains (refused) f where
      "admission_check D spec parent idle (admission_scopes spec idle scopes) r = Some f"
      "out = Refused f" "r' = r"
  | (full) f s where "capacity_check D clk r = (s, Some f)" "out = Refused f" "r' = r\<lparr>jobs := s\<rparr>"
      "admission_check D spec parent idle (admission_scopes spec idle scopes) r = None"
  | (placed) s where
      "admission_check D spec parent idle (admission_scopes spec idle scopes) r = None"
      "capacity_check D clk r = (s, None)"
      "place_job clk draws spec parent (admission_scopes spec idle scopes) (r\<lparr>jobs := s\<rparr>) = Some (r', out)"
proof (cases "admission_check D spec parent idle (admission_scopes spec idle scopes) r")
  case None
  obtain s f where cap: "capacity_check D clk r = (s, f)" by (cases "capacity_check D clk r")
  show ?thesis
  proof (cases f)
    case f: None
    show ?thesis by (rule placed [of s]) (use assms None cap f in \<open>simp_all add: create_job_with_scopes_def\<close>)
  next
    case (Some x)
    show ?thesis by (rule full [of s x]) (use assms None cap Some in \<open>simp_all add: create_job_with_scopes_def\<close>)
  qed
next
  case (Some f)
  show ?thesis by (rule refused [of f]) (use assms Some in \<open>simp_all add: create_job_with_scopes_def\<close>)
qed

text \<open>A placement that returns, in terms of the record it placed.\<close>

lemma place_job_result:
  assumes "place_job clk draws spec parent scopes r = Some (r', out)"
  obtains rec jid s attached where
    "jid \<in> set draws" "rec = job_snapshot_new clk jid (next_token r) spec parent" "vacant (jobs r) jid"
    "(s, attached) = (if parent \<noteq> None
        then attach_child clk rec (reserve_scopes jid scopes (insert_vacant rec (jobs r)))
        else (reserve_scopes jid scopes (insert_vacant rec (jobs r)), True))"
    "out = (if attached then Admitted rec else Panicked)"
    "r' = (if attached then notify_created rec (r\<lparr>jobs := s, next_token := Suc (next_token r)\<rparr>)
           else r\<lparr>jobs := s, next_token := Suc (next_token r)\<rparr>)"
proof -
  obtain d ds where draws: "draws = d # ds"
    using assms by (cases draws) (auto simp: place_job_def)
  let ?new = "job_snapshot_new clk d (next_token r) spec parent"
  obtain s2 rec where ins: "insert_with_id_generator (jobs r) ?new ds = Some (s2, rec)"
    using assms draws by (auto simp: place_job_def split: option.splits)
  from insert_result [OF ins] obtain jid where jid: "jid \<in> set draws" "rec = ?new\<lparr>js_job_id := jid\<rparr>"
      "vacant (jobs r) jid" "s2 = insert_vacant rec (jobs r)"
    using draws by auto
  have rec: "rec = job_snapshot_new clk jid (next_token r) spec parent"
    using jid(2) by (simp add: job_snapshot_new_def)
  obtain s attached where s: "(s, attached) = (if parent \<noteq> None
        then attach_child clk rec (reserve_scopes jid scopes (insert_vacant rec (jobs r)))
        else (reserve_scopes jid scopes (insert_vacant rec (jobs r)), True))"
    by (metis surj_pair)
  have "js_job_id rec = jid" using rec by simp
  with s have eq: "place_job clk draws spec parent scopes r =
      Some (if attached then notify_created rec (r\<lparr>jobs := s, next_token := Suc (next_token r)\<rparr>)
           else r\<lparr>jobs := s, next_token := Suc (next_token r)\<rparr>, if attached then Admitted rec else Panicked)"
    unfolding place_job_def draws list.case ins option.case prod.case jid(4) Let_def
    by (cases parent) (auto split: prod.splits)
  show ?thesis by (rule that [OF jid(1) rec jid(3) s]) (use assms eq in auto)
qed

text \<open>The parent checked under the lock still accepts the child when it is attached.\<close>

lemma can_accept_child_iff:
  "can_accept_child s p \<longleftrightarrow> (\<exists>parent. hm_get (by_id s) p = Some parent \<and>
     \<not> is_terminal (js_state parent) \<and> js_parent_job_id parent = None)"
  by (auto simp: can_accept_child_def split: option.splits)

lemma can_accept_child_cleanup:
  "store_inv s \<Longrightarrow> can_accept_child s p \<Longrightarrow> can_accept_child (cleanup_expired now ttl' s) p"
  by (auto simp: can_accept_child_iff get_cleanup evictable_def)

lemma can_accept_child_capacity_check:
  "store_inv (jobs r) \<Longrightarrow> can_accept_child (jobs r) p \<Longrightarrow>
     can_accept_child (fst (capacity_check D clk r)) p"
  using capacity_check_store [of D clk r] can_accept_child_cleanup by metis

lemma attach_child_accepts:
  "js_parent_job_id child = Some p \<Longrightarrow> can_accept_child s p \<Longrightarrow> snd (attach_child clk child s)"
  by (auto simp: can_accept_child_iff attach_child_def)

lemma attach_child_fields:
  "active_by_node (fst (attach_child clk child s)) = active_by_node s"
  "active_by_scope (fst (attach_child clk child s)) = active_by_scope s"
  "scopes_by_owner (fst (attach_child clk child s)) = scopes_by_owner s"
  by (simp_all add: attach_child_def split: option.splits)

lemma get_attach_child:
  "js_parent_job_id child = Some p \<Longrightarrow> can_accept_child s p \<Longrightarrow>
     hm_get (by_id (fst (attach_child clk child s))) =
       (hm_get (by_id s))(p \<mapsto> touch clk ((the (hm_get (by_id s) p))\<lparr>js_child_job_ids :=
          js_child_job_ids (the (hm_get (by_id s) p)) @ [js_job_id child]\<rparr>))"
  by (auto simp: can_accept_child_iff attach_child_def hm_get_put)

lemma can_accept_child_placed:
  "can_accept_child s p \<Longrightarrow> vacant s (js_job_id rec) \<Longrightarrow>
     can_accept_child (reserve_scopes own scopes (insert_vacant rec s)) p"
  by (auto simp: can_accept_child_iff hm_get_put vacant_def)

lemma place_job_attaches:
  assumes "place_job clk draws spec parent scopes r = Some (r', out)"
    and par: "\<And>p. parent = Some p \<Longrightarrow> can_accept_child (jobs r) p"
  obtains rec jid s3 s where
    "jid \<in> set draws" "rec = job_snapshot_new clk jid (next_token r) spec parent" "vacant (jobs r) jid"
    "s3 = reserve_scopes jid scopes (insert_vacant rec (jobs r))"
    "s = (if parent = None then s3 else fst (attach_child clk rec s3))"
    "\<And>p. parent = Some p \<Longrightarrow> can_accept_child s3 p" "out = Admitted rec"
    "r' = notify_created rec (r\<lparr>jobs := s, next_token := Suc (next_token r)\<rparr>)"
proof (rule place_job_result [OF assms(1)])
  fix rec jid s attached
  let ?s3 = "reserve_scopes jid scopes (insert_vacant rec (jobs r))"
  assume jid: "jid \<in> set draws" and rec: "rec = job_snapshot_new clk jid (next_token r) spec parent"
    and v: "vacant (jobs r) jid"
    and s: "(s, attached) = (if parent \<noteq> None then attach_child clk rec ?s3 else (?s3, True))"
    and out: "out = (if attached then Admitted rec else Panicked)"
    and r': "r' = (if attached then notify_created rec (r\<lparr>jobs := s, next_token := Suc (next_token r)\<rparr>)
           else r\<lparr>jobs := s, next_token := Suc (next_token r)\<rparr>)"
  have acc: "can_accept_child ?s3 p" if "parent = Some p" for p
    using par [OF that] v rec by (intro can_accept_child_placed) auto
  have att: attached
  proof (cases parent)
    case (Some p)
    then have "snd (attach_child clk rec ?s3)" using acc rec by (intro attach_child_accepts [of _ p]) auto
    with s Some show ?thesis by (metis option.distinct(1) snd_conv)
  qed (use s in auto)
  have "s = (if parent = None then ?s3 else fst (attach_child clk rec ?s3))"
    using s by (metis fst_conv)
  then show thesis using that [of jid rec ?s3 s] jid rec v acc att out r' by simp
qed

lemma attached_store:
  assumes "s = (if parent = None then s3 else fst (attach_child clk rec s3))"
  shows "store_rel job_keeps s3 s" "store_inv s3 \<Longrightarrow> store_inv s"
    "active_by_node s = active_by_node s3" "active_by_scope s = active_by_scope s3"
    "scopes_by_owner s = scopes_by_owner s3"
  using assms store_keeps_attach_child store_keeps_frame [of s3 s3] store_inv_attach_child
  by (auto simp: attach_child_fields)


section \<open>The step relation and the invariant\<close>

definition spec_ok :: "JobSpec \<Rightarrow> bool" where
  "spec_ok spec \<longleftrightarrow> \<not> is_terminal (spec_initial_state spec)"

lemma spec_ok_constructors [simp]:
  "spec_ok (job_spec_new rack node d)" "spec_ok (job_spec_new_parent rack d)"
  "spec_ok (with_workflow_type t spec) = spec_ok spec"
  by (simp_all add: spec_ok_def job_spec_new_def job_spec_new_parent_def with_workflow_type_def)

inductive reg_step :: "JobDomain \<Rightarrow> JobRegistry \<Rightarrow> JobRegistry \<Rightarrow> bool" for D where
  create: "spec_ok spec \<Longrightarrow>
    create_job_with_scopes D clk draws spec parent idle scopes r = Some (r', out) \<Longrightarrow> reg_step D r r'"
| reserve: "reserve_mutation D draws scopes r = Some (r', res) \<Longrightarrow> reg_step D r r'"
| release: "reg_step D r (drop_mutation_reservation own r)"
| extend: "reg_step D r (fst (reserve_job_scopes D jid scopes r))"
| running: "reg_step D r (fst (mark_running clk jid d r))"
| completed: "reg_step D r (fst (mark_completed clk jid d json r))"
| failed: "reg_step D r (fst (mark_failed clk jid failure r))"
| remove_queued: "reg_step D r (fst (registry_remove_queued_leaf jid r))"
| cancel_job: "reg_step D r (fst (cancel jid r))"
| shutdown: "reg_step D r (begin_shutdown r)"
| register: "reg_step D r (fst (register_task jid w sv r))"
| unregister: "reg_step D r (remove_task jid r)"
| abort_w: "reg_step D r (abort_workers jids r)"
| abort_s: "reg_step D r (abort_supervisors jids r)"
| cancel_leaves: "reg_step D r (fst (cancel_active_leaves r))"
| cleanup: "reg_step D r (registry_cleanup_expired clk r)"

text \<open>Tokens name incarnations: a record keeps its token and no two records share one.\<close>

definition tokens_ok :: "JobStore \<Rightarrow> token \<Rightarrow> bool" where
  "tokens_ok s n \<longleftrightarrow>
     (\<forall>jid job. hm_get (by_id s) jid = Some job \<longrightarrow> js_cancellation_token job < n) \<and>
     (\<forall>j1 j2 job1 job2. hm_get (by_id s) j1 = Some job1 \<and> hm_get (by_id s) j2 = Some job2 \<and>
        js_cancellation_token job1 = js_cancellation_token job2 \<longrightarrow> j1 = j2)"

definition n_created :: "token \<Rightarrow> Notification list \<Rightarrow> nat" where
  "n_created tok ns =
     length (filter (\<lambda>n. case n of NotifyCreated job \<Rightarrow> js_cancellation_token job = tok | _ \<Rightarrow> False) ns)"

definition n_terminal :: "token \<Rightarrow> Notification list \<Rightarrow> nat" where
  "n_terminal tok ns =
     length (filter (\<lambda>n. case n of NotifyTerminal job \<Rightarrow> js_cancellation_token job = tok | _ \<Rightarrow> False) ns)"

definition notifications_ok :: "JobRegistry \<Rightarrow> bool" where
  "notifications_ok r \<longleftrightarrow>
     (created_observer r \<longrightarrow> (\<forall>tok. n_created tok (notified r) = (if tok < next_token r then 1 else 0))) \<and>
     (terminal_observer r \<longrightarrow>
        (\<forall>tok. n_terminal tok (notified r) \<le> 1) \<and>
        (\<forall>tok. next_token r \<le> tok \<longrightarrow> n_terminal tok (notified r) = 0) \<and>
        (\<forall>jid job. hm_get (by_id (jobs r)) jid = Some job \<longrightarrow>
           n_terminal (js_cancellation_token job) (notified r) =
             (if is_terminal (js_state job) then 1 else 0)))"

definition registry_inv :: "JobRegistry \<Rightarrow> bool" where
  "registry_inv r \<longleftrightarrow>
     store_inv (jobs r) \<and> tracked_job_count (jobs r) \<le> max_jobs r \<and>
     tokens_ok (jobs r) (next_token r) \<and> notifications_ok r \<and> hm_ok (tasks r)"

definition registry_le :: "JobRegistry \<Rightarrow> JobRegistry \<Rightarrow> bool" where
  "registry_le r r' \<longleftrightarrow>
     next_token r \<le> next_token r' \<and> (shutting_down r \<longrightarrow> shutting_down r') \<and>
     prefix (notified r) (notified r') \<and> max_jobs r' = max_jobs r \<and> ttl r' = ttl r \<and>
     (\<forall>jid new. hm_get (by_id (jobs r')) jid = Some new \<and> js_cancellation_token new < next_token r \<longrightarrow>
        (\<exists>old. hm_get (by_id (jobs r)) jid = Some old \<and> job_evolves old new))"

text \<open>The steps that leave every retained state alone.\<close>

definition registry_keeps :: "JobRegistry \<Rightarrow> JobRegistry \<Rightarrow> bool" where
  "registry_keeps r r' \<longleftrightarrow>
     store_inv (jobs r') \<and> store_rel job_keeps (jobs r) (jobs r') \<and> hm_ok (tasks r') \<and>
     notified r' = notified r \<and> next_token r' = next_token r \<and> max_jobs r' = max_jobs r \<and>
     ttl r' = ttl r \<and> created_observer r' = created_observer r \<and>
     terminal_observer r' = terminal_observer r \<and> (shutting_down r \<longrightarrow> shutting_down r')"

lemma tokens_ok_less:
  "tokens_ok s n \<Longrightarrow> hm_get (by_id s) jid = Some job \<Longrightarrow> js_cancellation_token job < n"
  by (auto simp: tokens_ok_def)

lemma tokens_ok_inj:
  "tokens_ok s n \<Longrightarrow> hm_get (by_id s) j1 = Some a \<Longrightarrow> hm_get (by_id s) j2 = Some b \<Longrightarrow>
     js_cancellation_token a = js_cancellation_token b \<Longrightarrow> j1 = j2"
  by (auto simp: tokens_ok_def)

lemma tokens_ok_evolves: "tokens_ok s n \<Longrightarrow> store_rel job_evolves s s' \<Longrightarrow> tokens_ok s' n"
proof -
  assume t: "tokens_ok s n" and e: "store_rel job_evolves s s'"
  have L: "\<exists>old. hm_get (by_id s) jid = Some old \<and> js_cancellation_token old = js_cancellation_token new"
    if "hm_get (by_id s') jid = Some new" for jid new
    using e that unfolding store_rel_def job_evolves_def by fastforce
  show ?thesis
    unfolding tokens_ok_def
  proof (intro conjI allI impI; (elim conjE)?)
    show "js_cancellation_token new < n" if "hm_get (by_id s') jid = Some new" for jid new
      using L [OF that] tokens_ok_less [OF t] by metis
    show "j1 = j2" if "hm_get (by_id s') j1 = Some a" "hm_get (by_id s') j2 = Some b"
      "js_cancellation_token a = js_cancellation_token b" for j1 j2 a b
      using L [OF that(1)] L [OF that(2)] that(3) tokens_ok_inj [OF t] by metis
  qed
qed

lemma registry_inv_keeps:
  assumes r: "registry_inv r" and k: "registry_keeps r r'"
  shows "registry_inv r'"
proof -
  have e: "store_rel job_evolves (jobs r) (jobs r')"
    using k by (simp add: registry_keeps_def store_keeps_evolves)
  have "tracked_job_count (jobs r') \<le> max_jobs r'"
    using r k store_evolves_count [OF _ _ e] by (force simp: registry_inv_def registry_keeps_def)
  moreover have "tokens_ok (jobs r') (next_token r')"
    using r k tokens_ok_evolves [OF _ e] by (simp add: registry_inv_def registry_keeps_def)
  moreover have "\<exists>old. hm_get (by_id (jobs r)) jid = Some old \<and>
      js_cancellation_token new = js_cancellation_token old \<and> js_state new = js_state old"
    if "hm_get (by_id (jobs r')) jid = Some new" for jid new
    using that k by (auto simp: registry_keeps_def store_rel_def job_keeps_def job_evolves_def)
  then have "notifications_ok r'"
    using r k by (fastforce simp: registry_inv_def registry_keeps_def notifications_ok_def)
  ultimately show ?thesis using k by (simp add: registry_inv_def registry_keeps_def)
qed

lemma registry_le_keeps: "registry_keeps r r' \<Longrightarrow> registry_le r r'"
  using store_keeps_evolves [of "jobs r" "jobs r'"]
  by (simp add: registry_keeps_def registry_le_def store_rel_def)


subsection \<open>Steps that keep every state\<close>

lemma registry_keeps_jobs:
  "registry_inv r \<Longrightarrow> store_inv s \<Longrightarrow> store_rel job_keeps (jobs r) s \<Longrightarrow> registry_keeps r (r\<lparr>jobs := s\<rparr>)"
  by (simp add: registry_keeps_def registry_inv_def)

lemma registry_keeps_other:
  "registry_inv r \<Longrightarrow> jobs r' = jobs r \<Longrightarrow> hm_ok (tasks r') \<Longrightarrow> notified r' = notified r \<Longrightarrow>
     next_token r' = next_token r \<Longrightarrow> max_jobs r' = max_jobs r \<Longrightarrow> ttl r' = ttl r \<Longrightarrow>
     created_observer r' = created_observer r \<Longrightarrow> terminal_observer r' = terminal_observer r \<Longrightarrow>
     (shutting_down r \<longrightarrow> shutting_down r') \<Longrightarrow> registry_keeps r r'"
  by (simp add: registry_keeps_def registry_inv_def store_keeps_frame)

lemma registry_keeps_refl: "registry_inv r \<Longrightarrow> registry_keeps r r"
  by (simp add: registry_keeps_other registry_inv_def)

lemma conflict_free_except:
  "conflicting_scope_except s scopes None = None \<Longrightarrow> conflicting_scope_except s scopes own = None"
  by (auto simp: conflicting_scope_except_None scope_conflict_None)

lemma draw_owner_vacant: "draw_owner s draws = Some own \<Longrightarrow> own \<in> set draws \<and> vacant s own"
  by (induction draws) (auto simp: vacant_def get_def split: if_splits)

lemma reserve_mutation_keeps:
  assumes r: "registry_inv r" and e: "reserve_mutation D draws scopes r = Some (r', res)"
  shows "registry_keeps r r'"
proof -
  have "registry_keeps r (r\<lparr>jobs := reserve_scopes own (map normalized scopes) (jobs r)\<rparr>)"
    if "draw_owner (jobs r) draws = Some own" "conflicting_scope (jobs r) (map normalized scopes) = None" for own
    using r that draw_owner_vacant [OF that(1)]
    by (intro registry_keeps_jobs store_inv_reserve store_keeps_frame)
      (auto simp: registry_inv_def conflicting_scope_def conflict_free_except vacant_def)
  then show ?thesis
    using e registry_keeps_refl [OF r]
    by (auto simp: reserve_mutation_def Let_def split: if_splits option.splits)
qed

lemma reserve_job_scopes_keeps:
  assumes r: "registry_inv r"
  shows "registry_keeps r (fst (reserve_job_scopes D jid scopes r))"
proof -
  have "registry_keeps r (r\<lparr>jobs := reserve_scopes jid (map normalized scopes) (jobs r)\<rparr>)"
    if "hm_get (by_id (jobs r)) jid = Some job" "\<not> is_terminal (js_state job)"
      "conflicting_scope_except (jobs r) (map normalized scopes) (Some jid) = None" for job
    using r that by (intro registry_keeps_jobs store_inv_reserve store_keeps_frame) (auto simp: registry_inv_def)
  then show ?thesis
    using registry_keeps_refl [OF r]
    by (auto simp: reserve_job_scopes_def Let_def get_def split: if_splits option.splits)
qed

lemma drop_reservation_keeps: "registry_inv r \<Longrightarrow> registry_keeps r (drop_mutation_reservation own r)"
  unfolding drop_mutation_reservation_def
  by (intro registry_keeps_jobs store_inv_release store_keeps_frame) (auto simp: registry_inv_def)

lemma remove_queued_keeps: "registry_inv r \<Longrightarrow> registry_keeps r (fst (registry_remove_queued_leaf jid r))"
  using registry_keeps_jobs [of r "fst (remove_queued_leaf jid (jobs r))"]
  by (simp add: registry_remove_queued_leaf_def case_prod_beta registry_inv_def
      store_inv_remove_queued_leaf store_keeps_remove_queued_leaf)

lemma cleanup_keeps: "registry_inv r \<Longrightarrow> registry_keeps r (registry_cleanup_expired clk r)"
  unfolding registry_cleanup_expired_def
  by (intro registry_keeps_jobs store_inv_cleanup store_keeps_cleanup) (auto simp: registry_inv_def)

lemma capacity_check_keeps:
  "registry_inv r \<Longrightarrow> registry_keeps r (r\<lparr>jobs := fst (capacity_check D clk r)\<rparr>)"
  by (intro registry_keeps_jobs store_inv_capacity_check store_keeps_capacity_check)
    (auto simp: registry_inv_def)

lemma cancel_token_fields [simp]:
  "jobs (cancel_token tok r) = jobs r" "tasks (cancel_token tok r) = tasks r"
  "notified (cancel_token tok r) = notified r" "next_token (cancel_token tok r) = next_token r"
  "max_jobs (cancel_token tok r) = max_jobs r" "ttl (cancel_token tok r) = ttl r"
  "created_observer (cancel_token tok r) = created_observer r"
  "terminal_observer (cancel_token tok r) = terminal_observer r"
  "shutting_down (cancel_token tok r) = shutting_down r"
  "cancelled (cancel_token tok r) = List.insert tok (cancelled r)"
  by (simp_all add: cancel_token_def)

lemma registry_keeps_trans: "registry_keeps a b \<Longrightarrow> registry_keeps b c \<Longrightarrow> registry_keeps a c"
  unfolding registry_keeps_def using store_keeps_trans by auto

lemma registry_keeps_fold:
  assumes "\<And>x r. registry_inv r \<Longrightarrow> registry_keeps r (f x r)"
  shows "registry_inv r \<Longrightarrow> registry_keeps r (fold f xs r)"
proof (induction xs arbitrary: r)
  case (Cons x xs)
  then have k: "registry_keeps r (f x r)" using assms by simp
  with Cons have "registry_keeps (f x r) (fold f xs (f x r))" by (simp add: registry_inv_keeps)
  with k show ?case using registry_keeps_trans by simp
qed (simp add: registry_keeps_refl)

lemma cancel_token_keeps: "registry_inv r \<Longrightarrow> registry_keeps r (cancel_token tok r)"
  by (intro registry_keeps_other) (auto simp: registry_inv_def)

lemma cancel_keeps: "registry_inv r \<Longrightarrow> registry_keeps r (fst (cancel jid r))"
  by (simp add: cancel_def registry_keeps_refl cancel_token_keeps split: option.splits)

lemma shutdown_keeps: "registry_inv r \<Longrightarrow> registry_keeps r (begin_shutdown r)"
  by (intro registry_keeps_other) (auto simp: registry_inv_def begin_shutdown_def)

lemma tasks_keeps:
  "registry_inv r \<Longrightarrow> registry_keeps r (fst (register_task jid w sv r))"
  "registry_inv r \<Longrightarrow> registry_keeps r (remove_task jid r)"
  by (auto simp: registry_inv_def register_task_def remove_task_def hash.ok_put hash.ok_del
      intro!: registry_keeps_other)

lemma abort_keeps:
  "registry_inv r \<Longrightarrow> registry_keeps r (abort_workers jids r)"
  "registry_inv r \<Longrightarrow> registry_keeps r (abort_supervisors jids r)"
  unfolding abort_workers_def abort_supervisors_def
  by (rule registry_keeps_fold; auto simp: registry_inv_def registry_keeps_refl split: option.splits
      intro!: registry_keeps_other)+

lemma cancel_active_leaves_keeps: "registry_inv r \<Longrightarrow> registry_keeps r (fst (cancel_active_leaves r))"
  unfolding cancel_active_leaves_def Let_def fst_conv
  by (rule registry_keeps_fold) (auto intro: cancel_token_keeps)

lemmas step_keeps = reserve_mutation_keeps reserve_job_scopes_keeps drop_reservation_keeps
  remove_queued_keeps cleanup_keeps cancel_keeps shutdown_keeps tasks_keeps abort_keeps
  cancel_active_leaves_keeps


subsection \<open>Transitions and creation\<close>

lemma n_append [simp]:
  "n_created tok (ns @ [NotifyCreated job]) =
     n_created tok ns + (if js_cancellation_token job = tok then 1 else 0)"
  "n_created tok (ns @ [NotifyTerminal job]) = n_created tok ns"
  "n_terminal tok (ns @ [NotifyTerminal job]) =
     n_terminal tok ns + (if js_cancellation_token job = tok then 1 else 0)"
  "n_terminal tok (ns @ [NotifyCreated job]) = n_terminal tok ns"
  by (simp_all add: n_created_def n_terminal_def)

lemma update_cases:
  obtains (same) "fst (update clk jid (unless_terminal st) r) = r"
      "\<not> snd (update clk jid (unless_terminal st) r)"
  | (changed) old new s where "hm_get (by_id (jobs r)) jid = Some old" "\<not> is_terminal (js_state old)"
      "new = touch clk (old\<lparr>js_state := st\<rparr>)"
      "s = fst (transition_state clk jid (unless_terminal st) (jobs r))"
      "by_id s = hm_put jid new (by_id (jobs r))" "snd (update clk jid (unless_terminal st) r)"
      "fst (update clk jid (unless_terminal st) r) =
         r\<lparr>jobs := s, notified := notified r @
             (if is_terminal st \<and> terminal_observer r then [NotifyTerminal new] else [])\<rparr>"
proof (cases rule: transition_state_cases [of "jobs r" jid clk "unless_terminal st"])
  case (applied old st' s')
  have st: "st' = st" "\<not> is_terminal (js_state old)"
    using applied(2) by (auto simp: unless_terminal_def split: if_splits)
  let ?new = "touch clk (old\<lparr>js_state := st\<rparr>)"
  have ev: "transition_event (js_state old) ?new = Some (Terminal ?new)" if "is_terminal st"
    using that st(2) transition_event_Terminal [of "js_state old" ?new]
      transition_event_Terminal_arg [of "js_state old" ?new] by auto
  have nev: "transition_event (js_state old) ?new \<noteq> Some (Terminal x)" if "\<not> is_terminal st" for x
    using that transition_event_Terminal [of "js_state old" ?new] by auto
  have "fst (update clk jid (unless_terminal st) r) =
      r\<lparr>jobs := s', notified := notified r @
             (if is_terminal st \<and> terminal_observer r then [NotifyTerminal ?new] else [])\<rparr>"
    using ev nev by (cases "is_terminal st")
      (auto simp: update_def Let_def applied(3) st(1) split: option.splits LifecycleTransition.splits)
  moreover have "snd (update clk jid (unless_terminal st) r)"
    by (simp add: update_def Let_def applied(3))
  ultimately show ?thesis
    using changed [of old ?new s'] applied(1,3,4) st by simp
qed (use same in \<open>simp_all add: update_def\<close>)

lemma notifications_ok_update:
  assumes r: "registry_inv r" and old: "hm_get (by_id (jobs r)) jid = Some old"
      "\<not> is_terminal (js_state old)"
    and new: "js_cancellation_token new = js_cancellation_token old" "js_state new = st"
    and s: "by_id s = hm_put jid new (by_id (jobs r))"
    and r': "r' = r\<lparr>jobs := s, notified := notified r @
             (if is_terminal st \<and> terminal_observer r then [NotifyTerminal new] else [])\<rparr>"
  shows "notifications_ok r'"
proof -
  let ?tok = "js_cancellation_token old"
  have t: "tokens_ok (jobs r) (next_token r)" and n: "notifications_ok r"
    using r by (auto simp: registry_inv_def)
  have lt: "?tok < next_token r" using tokens_ok_less [OF t old(1)] .
  have other: "js_cancellation_token job \<noteq> ?tok" if "hm_get (by_id (jobs r)) k = Some job" "k \<noteq> jid" for k job
    using tokens_ok_inj [OF t that(1) old(1)] that(2) by blast
  have zero: "terminal_observer r \<Longrightarrow> n_terminal ?tok (notified r) = 0"
    using n old by (simp add: notifications_ok_def)
  show ?thesis
  proof (cases "is_terminal st \<and> terminal_observer r")
    case True
    then show ?thesis
      using n new zero lt by (auto simp: notifications_ok_def r' s hm_get_put dest: other)
  next
    case False
    then show ?thesis
      using n new zero old by (auto simp: notifications_ok_def r' s hm_get_put)
  qed
qed

lemma update_step:
  assumes r: "registry_inv r" and st: "\<And>d. st \<noteq> Queued d"
  shows "registry_inv (fst (update clk jid (unless_terminal st) r)) \<and>
    registry_le r (fst (update clk jid (unless_terminal st) r))"
proof (cases rule: update_cases [of clk jid st r])
  case same
  then show ?thesis using r registry_le_keeps [OF registry_keeps_refl [OF r]] by simp
next
  case (changed old new s)
  let ?r' = "fst (update clk jid (unless_terminal st) r)"
  have inv: "store_inv s" using r changed(4) by (simp add: registry_inv_def store_inv_transition_state)
  have e: "store_rel job_evolves (jobs r) s"
    unfolding changed(4) by (rule store_evolves_transition) (rule state_le_unless_terminal [OF _ st])
  have "notifications_ok ?r'"
    using changed by (intro notifications_ok_update [OF r changed(1,2) _ _ changed(5)]) auto
  then have "registry_inv ?r'"
    using r inv e store_evolves_count [of "jobs r" s] tokens_ok_evolves [of "jobs r" "next_token r" s]
    by (simp add: registry_inv_def changed(7))
  moreover have "registry_le r ?r'"
    using e by (auto simp: registry_le_def changed(7) store_rel_def)
  ultimately show ?thesis by simp
qed

lemma tokens_ok_place:
  assumes t: "tokens_ok s n" and "js_cancellation_token rec = n"
  shows "tokens_ok (insert_vacant rec s) (Suc n)"
proof -
  have neq: "js_cancellation_token job \<noteq> n" if "hm_get (by_id s) jid = Some job" for jid job
    using tokens_ok_less [OF t that] by simp
  have lt: "js_cancellation_token job < Suc n" if "hm_get (by_id s) jid = Some job" for jid job
    using tokens_ok_less [OF t that] by simp
  show ?thesis
    unfolding tokens_ok_def insert_vacant_fields hm_get_put
    using assms(2) by (auto split: if_splits dest: neq lt tokens_ok_inj [OF t])
qed

lemma count_insert_vacant:
  "store_inv s \<Longrightarrow> vacant s (js_job_id rec) \<Longrightarrow>
     tracked_job_count (insert_vacant rec s) = Suc (tracked_job_count s)"
  using store_inv_D(6) [of s] by (simp add: tracked_job_count_def hm_length_put vacant_def)

lemma notify_created_fields [simp]:
  "jobs (notify_created rec r) = jobs r" "tasks (notify_created rec r) = tasks r"
  "next_token (notify_created rec r) = next_token r" "max_jobs (notify_created rec r) = max_jobs r"
  "ttl (notify_created rec r) = ttl r" "shutting_down (notify_created rec r) = shutting_down r"
  "created_observer (notify_created rec r) = created_observer r"
  "terminal_observer (notify_created rec r) = terminal_observer r"
  "notified (notify_created rec r) =
     notified r @ (if created_observer r then [NotifyCreated rec] else [])"
  by (simp_all add: notify_created_def)

lemma conflict_free_insert:
  assumes "conflicting_scope s scopes = None"
  shows "conflicting_scope_except (insert_vacant rec s) scopes (Some (js_job_id rec)) = None"
proof -
  have "index_jobs (insert_vacant rec s) rack node = index_jobs s rack node \<or>
      index_jobs (insert_vacant rec s) rack node = List.insert (js_job_id rec) (index_jobs s rack node)" for rack node
    using index_jobs_insert [of _ _ _ "s\<lparr>by_id := hm_put (js_job_id rec) rec (by_id s)\<rparr>"]
    by (auto simp: insert_vacant_def Let_def)
  then have "set (index_jobs (insert_vacant rec s) rack node) \<subseteq>
      insert (js_job_id rec) (set (index_jobs s rack node))" for rack node
    by (metis set_insert subset_insertI order_refl)
  then show ?thesis
    using assms by (fastforce simp: conflicting_scope_def conflicting_scope_except_None scope_conflict_None)
qed

lemma scope_after_remove:
  assumes "store_inv s" "hm_get (active_by_scope (fst (remove jid s))) sc = Some own"
  shows "hm_get (active_by_scope s) sc = Some own"
proof (cases "hm_get (by_id s) jid")
  case (Some rec)
  let ?s2 = "remove_active_job (js_rack_id rec) (js_node_id rec) (js_job_id rec) (s\<lparr>by_id := hm_del jid (by_id s)\<rparr>)"
  have "scopes_ok ?s2" using store_inv_D(3) [OF assms(1)] scopes_ok_frame [of ?s2 s] by simp
  with assms(2) Some show ?thesis by (auto simp: remove_def get_scope_release split: if_splits)
qed (use assms in \<open>simp add: remove_def\<close>)

lemma scope_after_cleanup:
  assumes s: "store_inv s" and sc: "hm_get (active_by_scope (cleanup_expired now ttl' s)) sc = Some own"
  shows "hm_get (active_by_scope s) sc = Some own"
proof -
  obtain jids where jids: "cleanup_expired now ttl' s =
      fold (\<lambda>jid s. fst (remove jid s)) jids (sweep now s)"
    using cleanup_expired_fold [OF s] by metis
  have "store_inv t \<Longrightarrow> hm_get (active_by_scope (fold (\<lambda>jid s. fst (remove jid s)) jids t)) sc = Some own \<Longrightarrow>
      hm_get (active_by_scope t) sc = Some own" for t
  proof (induction jids arbitrary: t)
    case (Cons a jids)
    then show ?case using scope_after_remove [of t a sc own] store_inv_remove [of t a] by simp
  qed simp
  from this [OF store_inv_sweep [OF s]] sc show ?thesis by (simp add: jids) (simp add: sweep_def)
qed

lemma conflict_free_cleanup:
  assumes s: "store_inv s" and free: "conflicting_scope s scopes = None"
  shows "conflicting_scope (cleanup_expired now ttl' s) scopes = None"
proof -
  have "indexed (cleanup_expired now ttl' s) rack node \<subseteq> indexed s rack node" for rack node
    using store_keeps_cleanup [OF s, of now ttl']
    by (fastforce simp: indexed_def store_rel_def job_keeps_def job_evolves_def should_index_def)
  then have "set (index_jobs (cleanup_expired now ttl' s) rack node) \<subseteq> set (index_jobs s rack node)" for rack node
    using store_inv_D(8) [OF s] store_inv_D(8) [OF store_inv_cleanup [OF s]] by simp
  then have i: "index_jobs s rack node = [] \<Longrightarrow> index_jobs (cleanup_expired now ttl' s) rack node = []" for rack node
    by (metis set_empty subset_empty)
  have "hm_get (active_by_scope s) sc = None \<Longrightarrow>
      hm_get (active_by_scope (cleanup_expired now ttl' s)) sc = None" for sc
    using scope_after_cleanup [OF s, of now ttl' sc]
    by (cases "hm_get (active_by_scope (cleanup_expired now ttl' s)) sc") auto
  with free i show ?thesis by (simp add: conflicting_scope_None)
qed

lemma conflict_free_capacity_check:
  "store_inv (jobs r) \<Longrightarrow> conflicting_scope (jobs r) scopes = None \<Longrightarrow>
     conflicting_scope (fst (capacity_check D clk r)) scopes = None"
  using capacity_check_store [of D clk r] conflict_free_cleanup by metis

text \<open>The registry invariant and order over a successful placement.\<close>

lemma notifications_ok_place:
  assumes n: "notifications_ok r" and t: "js_cancellation_token rec = next_token r"
    and st: "\<not> is_terminal (js_state rec)"
    and s: "\<And>k new. hm_get (by_id s) k = Some new \<Longrightarrow>
      job_keeps rec new \<or> (\<exists>old. hm_get (by_id (jobs r)) k = Some old \<and> job_keeps old new)"
  shows "notifications_ok (notify_created rec (r\<lparr>jobs := s, next_token := Suc (next_token r)\<rparr>))"
proof -
  have "terminal_observer r \<Longrightarrow> n_terminal (js_cancellation_token new) (notified r) =
      (if is_terminal (js_state new) then 1 else 0)" if "hm_get (by_id s) k = Some new" for k new
    using s [OF that] n t st by (auto simp: notifications_ok_def job_keeps_def job_evolves_def)
  then show ?thesis using n t by (auto simp: notifications_ok_def)
qed

lemma place_job_step:
  assumes r: "registry_inv r" and sp: "spec_ok spec"
    and room: "tracked_job_count (jobs r) < max_jobs r"
    and par: "\<And>p. parent = Some p \<Longrightarrow> can_accept_child (jobs r) p"
    and free: "conflicting_scope (jobs r) scopes = None"
    and e: "place_job clk draws spec parent scopes r = Some (r', out)"
  shows "registry_inv r' \<and> registry_le r r'"
proof (rule place_job_attaches [OF e par])
  fix rec jid s3 s
  let ?s2 = "insert_vacant rec (jobs r)"
  let ?s3 = "reserve_scopes jid scopes ?s2"
  assume rec: "rec = job_snapshot_new clk jid (next_token r) spec parent" and v: "vacant (jobs r) jid"
    and s3_eq: "s3 = ?s3" and s: "s = (if parent = None then s3 else fst (attach_child clk rec s3))"
    and r': "r' = notify_created rec (r\<lparr>jobs := s, next_token := Suc (next_token r)\<rparr>)"
  note k = attached_store(1) [OF s, unfolded s3_eq] and i = attached_store(2) [OF s, unfolded s3_eq]
  have jr: "js_job_id rec = jid" "js_cancellation_token rec = next_token r" using rec by simp_all
  have s2: "store_inv ?s2"
    using r v rec by (intro store_inv_insert_vacant) (auto simp: registry_inv_def is_parent_def)
  have s3: "store_inv ?s3"
    using s2 conflict_free_insert [OF free, of rec] sp jr rec
    by (intro store_inv_reserve) (auto simp: hm_get_put spec_ok_def)
  have e: "store_rel job_evolves ?s2 s"
    using store_keeps_evolves [OF k] by (simp add: store_rel_def)
  have L: "(k = jid \<and> job_keeps rec new) \<or> (k \<noteq> jid \<and> (\<exists>old. hm_get (by_id (jobs r)) k = Some old \<and> job_keeps old new))"
    if "hm_get (by_id s) k = Some new" for k new
    using that assms(1) k by (auto simp: store_rel_def hm_get_put jr split: if_splits)
  have "tracked_job_count s \<le> max_jobs r"
    using store_evolves_count [OF s2 i [OF s3] e] count_insert_vacant [of "jobs r" rec] room v r jr
    by (simp add: registry_inv_def)
  moreover have "tokens_ok s (Suc (next_token r))"
    using tokens_ok_evolves [OF tokens_ok_place e] r jr by (simp add: registry_inv_def)
  moreover have "notifications_ok r'"
    unfolding r' using r sp rec L by (intro notifications_ok_place) (auto simp: registry_inv_def spec_ok_def)
  moreover have "\<exists>old. hm_get (by_id (jobs r)) k = Some old \<and> job_evolves old new"
    if "hm_get (by_id s) k = Some new" "js_cancellation_token new < next_token r" for k new
    using L [OF that(1)] that(2) jr by (auto simp: job_keeps_def job_evolves_def)
  then have "registry_le r r'" by (auto simp: registry_le_def r')
  ultimately show ?thesis using r i [OF s3] by (simp add: registry_inv_def r')
qed


lemma registry_le_trans: "registry_le a b \<Longrightarrow> registry_le b c \<Longrightarrow> registry_le a c"
proof -
  assume ab: "registry_le a b" and bc: "registry_le b c"
  have "\<exists>old. hm_get (by_id (jobs a)) jid = Some old \<and> job_evolves old new"
    if new: "hm_get (by_id (jobs c)) jid = Some new" "js_cancellation_token new < next_token a" for jid new
  proof -
    have "js_cancellation_token new < next_token b"
      using new(2) ab by (auto simp: registry_le_def)
    then obtain mid where mid: "hm_get (by_id (jobs b)) jid = Some mid" "job_evolves mid new"
      using new(1) bc by (auto simp: registry_le_def)
    then have "js_cancellation_token mid < next_token a" using new(2) by (simp add: job_evolves_def)
    then obtain old where "hm_get (by_id (jobs a)) jid = Some old" "job_evolves old mid"
      using mid(1) ab by (auto simp: registry_le_def)
    with mid(2) show ?thesis using job_evolves_trans by blast
  qed
  then show ?thesis using ab bc by (auto simp: registry_le_def intro: prefix_order.trans)
qed

lemma create_job_step:
  assumes r: "registry_inv r" and sp: "spec_ok spec"
    and e: "create_job_with_scopes D clk draws spec parent idle scopes r = Some (r', out)"
  shows "registry_inv r' \<and> registry_le r r'"
  using e
proof (cases rule: create_job_cases)
  case (full f s)
  then have "registry_keeps r r'" using capacity_check_keeps [OF r, of D clk] by simp
  then show ?thesis using registry_inv_keeps [OF r] registry_le_keeps by blast
next
  case (placed s)
  let ?r1 = "r\<lparr>jobs := s\<rparr>"
  have s: "s = fst (capacity_check D clk r)" using placed(2) by simp
  have inv: "store_inv (jobs r)" using r by (simp add: registry_inv_def)
  have k: "registry_keeps r ?r1" using capacity_check_keeps [OF r, of D clk] s by simp
  have "registry_inv r' \<and> registry_le ?r1 r'"
  proof (rule place_job_step [OF registry_inv_keeps [OF r k] sp _ _ _ placed(3)])
    show "tracked_job_count (jobs ?r1) < max_jobs ?r1" using capacity_check_room [OF placed(2)] by simp
    show "can_accept_child (jobs ?r1) p" if "parent = Some p" for p
      using placed(1) that can_accept_child_capacity_check [OF inv] s by (simp add: admission_check_None)
    show "conflicting_scope (jobs ?r1) (admission_scopes spec idle scopes) = None"
      using placed(1) conflict_free_capacity_check [OF inv] s by (simp add: admission_check_None)
  qed
  then show ?thesis using registry_le_keeps [OF k] registry_le_trans by blast
qed (use r registry_le_keeps [OF registry_keeps_refl [OF r]] in simp)

lemma marks_update:
  "\<exists>st. (\<forall>d. st \<noteq> Queued d) \<and> mark_running clk jid d' r = update clk jid (unless_terminal st) r"
  "\<exists>st. (\<forall>d. st \<noteq> Queued d) \<and> mark_completed clk jid d' json r = update clk jid (unless_terminal st) r"
  "\<exists>st. (\<forall>d. st \<noteq> Queued d) \<and> mark_failed clk jid failure r = update clk jid (unless_terminal st) r"
proof -
  show "\<exists>st. (\<forall>d. st \<noteq> Queued d) \<and> mark_running clk jid d' r = update clk jid (unless_terminal st) r"
    by (rule exI [of _ "Running d'"]) (simp add: mark_running_def)
  show "\<exists>st. (\<forall>d. st \<noteq> Queued d) \<and> mark_completed clk jid d' json r = update clk jid (unless_terminal st) r"
    by (rule exI [of _ "Completed d' json"]) (simp add: mark_completed_def)
  show "\<exists>st. (\<forall>d. st \<noteq> Queued d) \<and> mark_failed clk jid failure r = update clk jid (unless_terminal st) r"
    by (rule exI [of _ "failed_state failure"]) (simp add: mark_failed_def failed_state_def)
qed

lemma mark_step:
  assumes "registry_inv r"
  shows "registry_inv (fst (mark_running clk jid d r)) \<and> registry_le r (fst (mark_running clk jid d r))"
    "registry_inv (fst (mark_completed clk jid d json r)) \<and> registry_le r (fst (mark_completed clk jid d json r))"
    "registry_inv (fst (mark_failed clk jid failure r)) \<and> registry_le r (fst (mark_failed clk jid failure r))"
  using marks_update [where r = r] update_step [OF assms] by metis+

lemma reg_step_inv_le:
  assumes r: "registry_inv r" and step: "reg_step D r r'"
  shows "registry_inv r' \<and> registry_le r r'"
  using step
proof cases
  case create
  then show ?thesis using create_job_step [OF r] by blast
next
  case reserve
  then have "registry_keeps r r'" by (rule reserve_mutation_keeps [OF r])
  then show ?thesis using registry_inv_keeps [OF r] registry_le_keeps by blast
qed (use mark_step [OF r] step_keeps(2-) [OF r, THEN registry_inv_keeps [OF r]]
      step_keeps(2-) [OF r, THEN registry_le_keeps] in simp_all)

definition registry_init :: "JobRegistry \<Rightarrow> bool" where
  "registry_init r \<longleftrightarrow> (\<exists>t m a b. r = (with_capacity t m)\<lparr>created_observer := a, terminal_observer := b\<rparr>)"

lemma registry_inv_init: "registry_init r \<Longrightarrow> registry_inv r"
  using store_inv_default
  by (auto simp: registry_init_def registry_inv_def with_capacity_def tokens_ok_def
      tracked_job_count_def job_store_default_def notifications_ok_def n_created_def n_terminal_def)

interpretation reg: monotone_system registry_init "reg_step D" registry_inv registry_le for D
proof unfold_locales
  fix r r' r'' :: JobRegistry
  show "registry_init r \<Longrightarrow> registry_inv r" by (rule registry_inv_init)
  show "registry_inv r \<Longrightarrow> reg_step D r r' \<Longrightarrow> registry_inv r'" using reg_step_inv_le by blast
  show "registry_le r r" by (auto simp: registry_le_def)
  show "registry_le r r' \<Longrightarrow> registry_le r' r'' \<Longrightarrow> registry_le r r''" by (rule registry_le_trans)
  show "registry_inv r \<Longrightarrow> reg_step D r r' \<Longrightarrow> registry_le r r'" using reg_step_inv_le by blast
qed



section \<open>Waiting\<close>

definition outcome_ids :: "TerminalJobOutcomes \<Rightarrow> JobId list" where
  "outcome_ids out =
     map js_job_id (outcome_terminal out) @ outcome_missing out @ outcome_pending out"

definition look_ok :: "(JobId \<Rightarrow> JobSnapshot option) \<Rightarrow> bool" where
  "look_ok look \<longleftrightarrow> (\<forall>jid job. look jid = Some job \<longrightarrow> js_job_id job = jid)"

lemma poll_pending_mset:
  "look_ok look \<Longrightarrow> poll_pending look jids = (ended, missing, pending) \<Longrightarrow>
     mset (map js_job_id ended @ missing @ pending) = mset jids \<and>
     (\<forall>job \<in> set ended. is_terminal (js_state job)) \<and>
     set pending = {jid \<in> set jids. \<exists>job. look jid = Some job \<and> \<not> is_terminal (js_state job)}"
proof (induction jids arbitrary: ended missing pending)
  case (Cons jid jids)
  obtain e m p where emp: "poll_pending look jids = (e, m, p)" by (cases "poll_pending look jids")
  show ?case
    using Cons.IH [OF Cons.prems(1) emp] Cons.prems emp
    by (cases "look jid") (auto simp: look_ok_def split: if_splits)
qed simp

lemma poll_outcomes_ok:
  assumes "look_ok look"
  shows "mset (outcome_ids (poll_outcomes look out)) = mset (outcome_ids out)"
    "(\<forall>job \<in> set (outcome_terminal out). is_terminal (js_state job)) \<Longrightarrow>
     \<forall>job \<in> set (outcome_terminal (poll_outcomes look out)). is_terminal (js_state job)"
    "set (outcome_pending (poll_outcomes look out)) =
       {jid \<in> set (outcome_pending out). \<exists>job. look jid = Some job \<and> \<not> is_terminal (js_state job)}"
proof -
  obtain e m p where emp: "poll_pending look (outcome_pending out) = (e, m, p)"
    by (cases "poll_pending look (outcome_pending out)")
  note * = poll_pending_mset [OF assms emp]
  show "mset (outcome_ids (poll_outcomes look out)) = mset (outcome_ids out)"
    using * by (simp add: outcome_ids_def poll_outcomes_def emp)
  show "(\<forall>job \<in> set (outcome_terminal out). is_terminal (js_state job)) \<Longrightarrow>
     \<forall>job \<in> set (outcome_terminal (poll_outcomes look out)). is_terminal (js_state job)"
    using * by (auto simp: poll_outcomes_def emp)
  show "set (outcome_pending (poll_outcomes look out)) =
       {jid \<in> set (outcome_pending out). \<exists>job. look jid = Some job \<and> \<not> is_terminal (js_state job)}"
    using * by (simp add: poll_outcomes_def emp)
qed

text \<open>The passes that a wait makes after the first, and the wait as the fold of its passes.\<close>

fun looks_made :: "nat option \<Rightarrow> wait_event list \<Rightarrow> (JobId \<Rightarrow> JobSnapshot option) list" where
  "looks_made timeout [] = []"
| "looks_made timeout (Slept look # events) = look # looks_made timeout events"
| "looks_made timeout (Elapsed # events) = (if timeout = None then looks_made timeout events else [])"

definition timed_out :: "nat option \<Rightarrow> wait_event list \<Rightarrow> bool" where
  "timed_out timeout events \<longleftrightarrow> timeout \<noteq> None \<and> Elapsed \<in> set events"

fun wait_polls ::
  "(JobId \<Rightarrow> JobSnapshot option) list \<Rightarrow> TerminalJobOutcomes \<Rightarrow> TerminalJobOutcomes" where
  "wait_polls [] out = out"
| "wait_polls (look # looks) out =
     (if outcome_pending out = [] then out else wait_polls looks (poll_outcomes look out))"

lemma wait_polls_ok:
  assumes "\<forall>look \<in> set looks. look_ok look"
  shows "mset (outcome_ids (wait_polls looks out)) = mset (outcome_ids out)"
    "(\<forall>job \<in> set (outcome_terminal out). is_terminal (js_state job)) \<Longrightarrow>
       \<forall>job \<in> set (outcome_terminal (wait_polls looks out)). is_terminal (js_state job)"
    "set (outcome_pending (wait_polls looks out)) =
      {jid \<in> set (outcome_pending out). \<forall>look \<in> set looks. \<exists>job. look jid = Some job \<and> \<not> is_terminal (js_state job)}"
  using assms
proof (induction looks arbitrary: out)
  case (Cons look looks)
  { case 1 then show ?case using Cons.IH(1) poll_outcomes_ok(1) [of look out] by simp }
  { case 2 then show ?case using Cons.IH(2) poll_outcomes_ok(2) [of look out] by simp }
  { case 3
    show ?case
    proof (cases "outcome_pending out = []")
      case False
      then have "set (outcome_pending (wait_polls (look # looks) out)) =
          {jid \<in> set (outcome_pending (poll_outcomes look out)).
             \<forall>look \<in> set looks. \<exists>job. look jid = Some job \<and> \<not> is_terminal (js_state job)}"
        using Cons.IH(3) 3 by simp
      also have "\<dots> = {jid \<in> set (outcome_pending out).
             \<forall>look \<in> set (look # looks). \<exists>job. look jid = Some job \<and> \<not> is_terminal (js_state job)}"
        using 3 by (subst poll_outcomes_ok(3)) auto
      finally show ?thesis .
    qed simp }
qed simp_all

lemma wait_polls_ended [simp]: "outcome_pending out = [] \<Longrightarrow> wait_polls looks out = out"
  by (cases looks) auto

lemma wait_rounds_polls:
  "wait_rounds timeout events out =
     (if outcome_pending (wait_polls (looks_made timeout events) out) = [] \<or> timed_out timeout events
      then Some (wait_polls (looks_made timeout events) out) else None)"
  by (induction timeout events out rule: wait_rounds.induct) (auto simp: timed_out_def)

definition seen_ended :: "(JobId \<Rightarrow> JobSnapshot option) list \<Rightarrow> JobId \<Rightarrow> bool" where
  "seen_ended looks jid \<longleftrightarrow> (\<exists>look \<in> set looks. \<forall>job. look jid = Some job \<longrightarrow> is_terminal (js_state job))"

lemma wait_polls_pending:
  "set (outcome_pending (wait_polls looks out)) = {jid \<in> set (outcome_pending out). \<not> seen_ended looks jid}"
proof (induction looks arbitrary: out)
  case (Cons look looks)
  have "set (snd (snd (poll_pending look jids))) =
      {jid \<in> set jids. \<exists>job. look jid = Some job \<and> \<not> is_terminal (js_state job)}" for jids
    by (induction jids) (auto simp: case_prod_beta Let_def split: option.splits)
  then have "set (outcome_pending (poll_outcomes look out)) =
      {jid \<in> set (outcome_pending out). \<exists>job. look jid = Some job \<and> \<not> is_terminal (js_state job)}"
    by (simp add: poll_outcomes_def case_prod_beta Let_def)
  with Cons show ?case by (auto simp: seen_ended_def)
qed (simp add: seen_ended_def)

lemma wait_for_terminal_jobs_eq:
  "wait_for_terminal_jobs look events jids timeout =
    (if \<forall>jid \<in> set jids. seen_ended (look # looks_made timeout events) jid then Some True
     else if timed_out timeout events then Some False else None)"
proof -
  let ?o = "wait_polls (look # looks_made timeout events)
      \<lparr>outcome_terminal = [], outcome_missing = [], outcome_pending = remdups jids\<rparr>"
  have "outcome_pending ?o = [] \<longleftrightarrow> (\<forall>jid \<in> set jids. seen_ended (look # looks_made timeout events) jid)"
    unfolding set_empty [symmetric] wait_polls_pending by auto
  then show ?thesis
    unfolding wait_for_terminal_jobs_def wait_for_terminal_outcomes_def wait_rounds_polls
    by (simp add: timed_out_def del: wait_polls.simps)
qed

end
