(* ===== verification/Job_Properties.thy ===== *)
theory Job_Properties
  imports Job_Invariants
begin

text \<open>
  The properties of the job store and registry over every reachable state and every sequence of
  registry methods, each with a concrete run that meets its hypotheses.
\<close>

section \<open>A concrete registry\<close>

definition sample_failure :: "string \<Rightarrow> JobFailure" where
  "sample_failure m = job_failure_new (UntypedError m) m"

definition sample_domain :: JobDomain where
  "sample_domain =
     \<lparr>dropped_failure = sample_failure ''dropped'',
      at_capacity_failure = (\<lambda>_ _. sample_failure ''full''),
      node_busy_failure = (\<lambda>_ _ _. sample_failure ''node busy''),
      scope_busy_failure = (\<lambda>_ _. sample_failure ''scope busy''),
      inactive_job_failure = (\<lambda>_. sample_failure ''inactive''),
      shutting_down_failure = sample_failure ''shutting down'',
      shutdown_failure = sample_failure ''shutdown'',
      parent_unavailable_failure = (\<lambda>_. sample_failure ''parent'')\<rparr>"

definition sample_clock :: "nat \<Rightarrow> clock" where
  "sample_clock t = \<lparr>utc_now = int t, instant_now = t\<rparr>"

definition registry_empty :: JobRegistry where
  "registry_empty = (with_capacity 60 2)\<lparr>created_observer := True, terminal_observer := True\<rparr>"

definition sample_scope :: JobScope where
  "sample_scope = PhysicalSwitch ''S1'' 3"

definition create_sample ::
  "nat \<Rightarrow> string \<Rightarrow> JobScope list \<Rightarrow> JobRegistry \<Rightarrow> (JobRegistry \<times> JobSnapshot admission) option" where
  "create_sample t jid scopes r =
     create_job_with_scopes sample_domain (sample_clock t) [JobId jid]
       (job_spec_new ''R1'' ''N1'' ''waiting'') None True scopes r"

definition registry_one :: JobRegistry where
  "registry_one = (case create_sample 1 ''a'' [sample_scope] registry_empty of
     Some (r, _) \<Rightarrow> r | None \<Rightarrow> registry_empty)"

definition registry_done :: JobRegistry where
  "registry_done = fst (mark_completed (sample_clock 2) (JobId ''a'') ''ok'' ''{}'' registry_one)"

lemmas sample_defs = registry_done_def registry_one_def registry_empty_def create_sample_def
  sample_domain_def sample_clock_def sample_scope_def sample_failure_def

lemma create_one: "create_sample 1 ''a'' [sample_scope] registry_empty \<noteq> None"
  by code_simp

lemma reach_empty: "reach registry_init (reg_step D) registry_empty"
  by (rule reach.reach_init) (auto simp: registry_init_def registry_empty_def)

lemma step_one: "reg_step sample_domain registry_empty registry_one"
proof -
  obtain out where "create_sample 1 ''a'' [sample_scope] registry_empty = Some (registry_one, out)"
    using create_one by (auto simp: registry_one_def)
  then show ?thesis unfolding create_sample_def by (intro reg_step.create) simp_all
qed

lemma reach_one: "reach registry_init (reg_step sample_domain) registry_one"
  by (rule reach.reach_step [OF reach_empty step_one])

lemma step_done: "reg_step sample_domain registry_one registry_done"
  unfolding registry_done_def by (rule reg_step.completed)

lemma reach_done: "reach registry_init (reg_step sample_domain) registry_done"
  by (rule reach.reach_step [OF reach_one step_done])


section \<open>Consistency of the indexes\<close>

text \<open>C3. In every reachable registry the node index lists, for a rack and a node, exactly the
  tracked jobs of that node that are not terminal.\<close>

theorem node_index_exact:
  assumes "reach registry_init (reg_step D) r"
  shows "jid \<in> set (index_jobs (jobs r) rack node) \<longleftrightarrow>
    (\<exists>job. registry_get r jid = Some job \<and> js_rack_id job = rack \<and> js_node_id job = node \<and>
       node \<noteq> [] \<and> \<not> is_terminal (js_state job))"
proof -
  have "store_inv (jobs r)" using reg.reach_inv [OF assms] by (simp add: registry_inv_def)
  from store_inv_D(8) [OF this] show ?thesis
    by (auto simp: indexed_def registry_get_def get_def should_index_def)
qed

theorem node_index_exact_witness:
  "JobId ''a'' \<in> set (index_jobs (jobs registry_one) ''R1'' ''N1'') \<and>
   JobId ''a'' \<notin> set (index_jobs (jobs registry_done) ''R1'' ''N1'')"
proof -
  have "\<exists>job. registry_get registry_one (JobId ''a'') = Some job \<and> js_rack_id job = ''R1'' \<and>
      js_node_id job = ''N1'' \<and> ''N1'' \<noteq> [] \<and> \<not> is_terminal (js_state job)"
    by (rule exI [of _ "the (registry_get registry_one (JobId ''a''))"]) code_simp
  moreover have "\<not> (\<exists>job. registry_get registry_done (JobId ''a'') = Some job \<and> js_rack_id job = ''R1'' \<and>
      js_node_id job = ''N1'' \<and> ''N1'' \<noteq> [] \<and> \<not> is_terminal (js_state job))"
  proof -
    have "case registry_get registry_done (JobId ''a'') of None \<Rightarrow> False | Some job \<Rightarrow> is_terminal (js_state job)"
      by code_simp
    then show ?thesis by (auto split: option.splits)
  qed
  ultimately show ?thesis
    using node_index_exact [OF reach_one] node_index_exact [OF reach_done] by blast
qed

text \<open>C2. Exclusion scopes: in every reachable registry a scope has the owner that the reverse index
  says, two owners never share a scope, and an owner that is a job is not terminal.\<close>

theorem scope_exclusion:
  assumes "reach registry_init (reg_step D) r"
  shows "(hm_get (active_by_scope (jobs r)) sc = Some own \<longleftrightarrow> sc \<in> owned_scopes (jobs r) own) \<and>
    (own \<noteq> own' \<longrightarrow> owned_scopes (jobs r) own \<inter> owned_scopes (jobs r) own' = {}) \<and>
    (owned_scopes (jobs r) own \<noteq> {} \<and> registry_get r own = Some job \<longrightarrow> \<not> is_terminal (js_state job))"
proof -
  have inv: "store_inv (jobs r)" using reg.reach_inv [OF assms] by (simp add: registry_inv_def)
  have own: "hm_get (active_by_scope (jobs r)) x = Some o' \<longleftrightarrow> x \<in> owned_scopes (jobs r) o'" for x o'
    by (rule scopes_ok_D [OF store_inv_D(3) [OF inv]])
  have "owned_scopes (jobs r) own \<inter> owned_scopes (jobs r) own' = {}" if "own \<noteq> own'"
    using that by (auto simp: own [symmetric])
  moreover have "owned_scopes (jobs r) own \<noteq> {} \<and> registry_get r own = Some job \<longrightarrow> \<not> is_terminal (js_state job)"
    using store_inv_D(4) [OF inv] owned_scopes_owner [OF store_inv_D(3) [OF inv]]
    by (auto simp: owners_live_def registry_get_def get_def)
  ultimately show ?thesis using own by blast
qed

theorem scope_exclusion_witness:
  "sample_scope \<in> owned_scopes (jobs registry_one) (JobId ''a'') \<and>
   owned_scopes (jobs registry_one) (JobId ''a'') \<inter> owned_scopes (jobs registry_one) (JobId ''b'') = {} \<and>
   owned_scopes (jobs registry_done) (JobId ''a'') = {}"
proof -
  have "hm_get (active_by_scope (jobs registry_one)) sample_scope = Some (JobId ''a'')" by code_simp
  moreover have "is_terminal (js_state (the (registry_get registry_done (JobId ''a''))))"
    "registry_get registry_done (JobId ''a'') \<noteq> None" by code_simp+
  ultimately show ?thesis
    using scope_exclusion [OF reach_one, of sample_scope "JobId ''a''" "JobId ''b''"]
      scope_exclusion [OF reach_done, of sample_scope "JobId ''a''" "JobId ''b''"
        "the (registry_get registry_done (JobId ''a''))"]
    by auto
qed

text \<open>C4. The registry never tracks more jobs than its configured capacity.\<close>

theorem capacity_bound:
  assumes "reach registry_init (reg_step D) r"
  shows "tracked_job_count (jobs r) \<le> max_jobs r"
  using reg.reach_inv [OF assms] by (simp add: registry_inv_def)

theorem capacity_bound_witness:
  "tracked_job_count (jobs registry_one) = 1 \<and> tracked_job_count (jobs registry_one) \<le> max_jobs registry_one"
proof -
  have "tracked_job_count (jobs registry_one) = 1" by code_simp
  then show ?thesis using capacity_bound [OF reach_one] by simp
qed


section \<open>The life of a job\<close>

text \<open>C1. Along every run, a record that is still the same incarnation (same cancellation token) keeps
  its identity, rack, node, parent and workflow type, only gains children, never returns to the queue
  once it runs, and never changes its state again once that state is terminal.\<close>

theorem lifecycle_forward:
  assumes "reach registry_init (reg_step D) r" and "(reg_step D)\<^sup>*\<^sup>* r r'"
    and "registry_get r jid = Some old" and "registry_get r' jid = Some new"
    and "js_cancellation_token new = js_cancellation_token old"
  shows "js_rack_id new = js_rack_id old \<and> js_node_id new = js_node_id old \<and>
    js_parent_job_id new = js_parent_job_id old \<and> js_workflow_type new = js_workflow_type old \<and>
    prefix (js_child_job_ids old) (js_child_job_ids new) \<and>
    (is_terminal (js_state old) \<longrightarrow> js_state new = js_state old) \<and>
    (\<forall>d d'. js_state old = Running d \<longrightarrow> js_state new \<noteq> Queued d')"
proof -
  have inv: "registry_inv r" using reg.reach_inv [OF assms(1)] .
  have "js_cancellation_token new < next_token r"
    using inv assms(3,5) by (auto simp: registry_inv_def registry_get_def get_def dest: tokens_ok_less)
  then have e: "job_evolves old new"
    using reg.run_ord [OF assms(2) inv] assms(3,4) by (fastforce simp: registry_le_def registry_get_def get_def)
  then have "is_terminal (js_state old) \<longrightarrow> js_state new = js_state old"
    using state_le_terminal by (auto simp: job_evolves_def)
  with e show ?thesis by (auto simp: job_evolves_def)
qed

definition registry_retry :: JobRegistry where
  "registry_retry = fst (mark_failed (sample_clock 3) (JobId ''a'') (sample_failure ''late'') registry_done)"

theorem lifecycle_forward_witness:
  "js_state (the (registry_get registry_retry (JobId ''a''))) = Completed ''ok'' ''{}''"
proof -
  have run: "(reg_step sample_domain)\<^sup>*\<^sup>* registry_done registry_retry"
    unfolding registry_retry_def by (rule r_into_rtranclp) (rule reg_step.failed)
  have some: "registry_get registry_done (JobId ''a'') \<noteq> None" "registry_get registry_retry (JobId ''a'') \<noteq> None"
    and tok: "js_cancellation_token (the (registry_get registry_retry (JobId ''a''))) =
      js_cancellation_token (the (registry_get registry_done (JobId ''a'')))"
    and st: "js_state (the (registry_get registry_done (JobId ''a''))) = Completed ''ok'' ''{}''"
    by code_simp+
  show ?thesis
    using lifecycle_forward [OF reach_done run _ _ tok] some st by auto
qed

text \<open>C5. When observers are installed, every job is announced exactly once when it is created and a
  retained job has been announced as terminal exactly once if it is terminal and never otherwise; no
  job is ever announced as terminal twice.\<close>

theorem observers_exactly_once:
  assumes "reach registry_init (reg_step D) r"
  shows "(created_observer r \<longrightarrow>
      (\<forall>tok. n_created tok (notified r) = (if tok < next_token r then 1 else 0))) \<and>
    (terminal_observer r \<longrightarrow> (\<forall>tok. n_terminal tok (notified r) \<le> 1) \<and>
      (\<forall>jid job. registry_get r jid = Some job \<longrightarrow>
         n_terminal (js_cancellation_token job) (notified r) = (if is_terminal (js_state job) then 1 else 0)))"
  using reg.reach_inv [OF assms] by (simp add: registry_inv_def notifications_ok_def registry_get_def get_def)

theorem observers_exactly_once_witness:
  "n_created 0 (notified registry_done) = 1 \<and> n_terminal 0 (notified registry_done) = 1 \<and>
   n_terminal 0 (notified registry_one) = 0"
proof -
  have "created_observer registry_done" "terminal_observer registry_done" "terminal_observer registry_one"
    "next_token registry_done = 1"
    "registry_get registry_done (JobId ''a'') \<noteq> None" "registry_get registry_one (JobId ''a'') \<noteq> None"
    "is_terminal (js_state (the (registry_get registry_done (JobId ''a''))))"
    "\<not> is_terminal (js_state (the (registry_get registry_one (JobId ''a''))))"
    "js_cancellation_token (the (registry_get registry_done (JobId ''a''))) = 0"
    "js_cancellation_token (the (registry_get registry_one (JobId ''a''))) = 0" by code_simp+
  then show ?thesis
    using observers_exactly_once [OF reach_done] observers_exactly_once [OF reach_one] by fastforce
qed


section \<open>Admission\<close>

lemma swept_keeps_get:
  assumes "store_inv (jobs r)" "registry_get r p = Some old" "\<not> is_terminal (js_state old)"
  shows "hm_get (by_id (fst (capacity_check D clk r))) p = Some old"
  using assms capacity_check_store [of D clk r]
  by (auto simp: get_cleanup evictable_def swept_def registry_get_def get_def)

lemma owned_scopes_vacant: "vacant s jid \<Longrightarrow> owned_scopes s jid = {}"
  by (simp add: vacant_def has_scope_owner_def owned_scopes_def)

lemma place_job_admitted:
  assumes inv: "store_inv (jobs r)"
    and par: "\<And>p. parent = Some p \<Longrightarrow> can_accept_child (jobs r) p"
    and e: "place_job clk draws spec parent scopes r = Some (r', Admitted rec)"
  shows "registry_get r' (js_job_id rec) = Some rec" "js_job_id rec \<in> set draws"
    "js_state rec = spec_initial_state spec" "js_parent_job_id rec = parent"
    "owned_scopes (jobs r') (js_job_id rec) = set scopes"
    "\<And>p old. parent = Some p \<Longrightarrow> hm_get (by_id (jobs r)) p = Some old \<Longrightarrow>
       \<exists>new. registry_get r' p = Some new \<and> js_child_job_ids new = js_child_job_ids old @ [js_job_id rec]"
proof -
  obtain jid s3 s where rec: "rec = job_snapshot_new clk jid (next_token r) spec parent"
    and v: "vacant (jobs r) jid" and draws: "jid \<in> set draws"
    and s3: "s3 = reserve_scopes jid scopes (insert_vacant rec (jobs r))"
    and s: "s = (if parent = None then s3 else fst (attach_child clk rec s3))"
    and acc: "\<And>p. parent = Some p \<Longrightarrow> can_accept_child s3 p"
    and r': "r' = notify_created rec (r\<lparr>jobs := s, next_token := Suc (next_token r)\<rparr>)"
    by (rule place_job_attaches [OF e par]) auto
  have ids: "js_job_id rec = jid" "js_parent_job_id rec = parent" using rec by simp_all
  have neq: "p \<noteq> jid" if "parent = Some p" for p
    using par [OF that] v by (auto simp: can_accept_child_iff vacant_def)
  have get: "hm_get (by_id s3) = (hm_get (by_id (jobs r)))(jid \<mapsto> rec)"
    by (simp add: s3 hm_get_put ids)
  show "registry_get r' (js_job_id rec) = Some rec"
    using acc neq ids
    by (cases parent) (auto simp: registry_get_def get_def r' s get get_attach_child)
  show "js_job_id rec \<in> set draws" "js_state rec = spec_initial_state spec" "js_parent_job_id rec = parent"
    using rec draws by simp_all
  have "owned_scopes s jid = owned_scopes s3 jid"
    using attached_store(5) [OF s] by (simp add: owned_scopes_def)
  then show "owned_scopes (jobs r') (js_job_id rec) = set scopes"
    using owned_scopes_vacant [OF v] by (simp add: r' ids s3 owned_scopes_reserve) (simp add: owned_scopes_def)
  show "\<exists>new. registry_get r' p = Some new \<and> js_child_job_ids new = js_child_job_ids old @ [js_job_id rec]"
    if "parent = Some p" "hm_get (by_id (jobs r)) p = Some old" for p old
    using that acc neq ids by (auto simp: registry_get_def get_def r' s get get_attach_child)
qed

text \<open>C10. An admitted job: the registry was not shutting down, the stored record is the returned one
  with an identifier that was drawn, it owns exactly the normalised scopes it asked for (with its node
  when the node had to be idle), none of them had an owner and the node had no active job, and its parent
  was live and now lists it last.\<close>

theorem create_job_admitted:
  assumes reach: "reach registry_init (reg_step D) r"
    and e: "create_job_with_scopes D clk draws spec parent idle scopes r = Some (r', Admitted rec)"
  shows "\<not> shutting_down r \<and> registry_get r' (js_job_id rec) = Some rec \<and> js_job_id rec \<in> set draws \<and>
    js_state rec = spec_initial_state spec \<and> js_parent_job_id rec = parent \<and>
    owned_scopes (jobs r') (js_job_id rec) = set (admission_scopes spec idle scopes) \<and>
    (\<forall>sc. sc \<in> set (admission_scopes spec idle scopes) \<longrightarrow> hm_get (active_by_scope (jobs r)) sc = None) \<and>
    (idle \<longrightarrow> index_jobs (jobs r) (spec_rack_id spec) (spec_node_id spec) = []) \<and>
    (\<forall>p. parent = Some p \<longrightarrow> (\<exists>old new. registry_get r p = Some old \<and> \<not> is_terminal (js_state old) \<and>
       registry_get r' p = Some new \<and> js_child_job_ids new = js_child_job_ids old @ [js_job_id rec]))"
  using e
proof (cases rule: create_job_cases)
  case (placed s)
  let ?r1 = "r\<lparr>jobs := s\<rparr>"
  have inv: "store_inv (jobs r)" using reg.reach_inv [OF reach] by (simp add: registry_inv_def)
  have s: "s = fst (capacity_check D clk r)" using placed(2) by simp
  have s_inv: "store_inv (jobs ?r1)" using store_inv_capacity_check [OF inv] s by simp
  have chk: "\<not> shutting_down r" "\<And>p. parent = Some p \<Longrightarrow> can_accept_child (jobs r) p"
    "idle \<Longrightarrow> index_jobs (jobs r) (spec_rack_id spec) (spec_node_id spec) = []"
    "\<And>sc. sc \<in> set (admission_scopes spec idle scopes) \<Longrightarrow> hm_get (active_by_scope (jobs r)) sc = None"
    using placed(1) by (auto simp: admission_check_None active_job_for_node_iff conflicting_scope_None)
  have acc: "\<And>p. parent = Some p \<Longrightarrow> can_accept_child (jobs ?r1) p"
    using chk(2) can_accept_child_capacity_check [OF inv] s by simp
  have "\<exists>old new. registry_get r p = Some old \<and> \<not> is_terminal (js_state old) \<and>
      registry_get r' p = Some new \<and> js_child_job_ids new = js_child_job_ids old @ [js_job_id rec]"
    if p: "parent = Some p" for p
  proof -
    obtain old where old: "registry_get r p = Some old" "\<not> is_terminal (js_state old)"
      using chk(2) [OF p] by (auto simp: can_accept_child_iff registry_get_def get_def)
    with swept_keeps_get [OF inv old] s have "hm_get (by_id (jobs ?r1)) p = Some old" by simp
    with place_job_admitted(6) [OF s_inv acc placed(3) p] old show ?thesis by blast
  qed
  with place_job_admitted(1-5) [OF s_inv acc placed(3)] chk show ?thesis by blast
qed simp_all

theorem create_job_admitted_witness:
  "\<exists>rec. create_sample 1 ''a'' [sample_scope] registry_empty = Some (registry_one, Admitted rec) \<and>
     registry_get registry_one (JobId ''a'') = Some rec \<and>
     owned_scopes (jobs registry_one) (JobId ''a'') = {sample_scope, LogicalNode ''R1'' ''N1''}"
proof -
  have "\<exists>rec. create_sample 1 ''a'' [sample_scope] registry_empty = Some (registry_one, Admitted rec)"
  proof -
    have "case create_sample 1 ''a'' [sample_scope] registry_empty of
        Some (_, Admitted _) \<Rightarrow> True | _ \<Rightarrow> False" by code_simp
    then show ?thesis by (auto simp: registry_one_def split: option.splits prod.splits admission.splits)
  qed
  then obtain rec where e: "create_sample 1 ''a'' [sample_scope] registry_empty = Some (registry_one, Admitted rec)" ..
  have "set (admission_scopes (job_spec_new ''R1'' ''N1'' ''waiting'') True [sample_scope]) =
      {sample_scope, LogicalNode ''R1'' ''N1''}" by code_simp
  moreover note t = create_job_admitted [OF reach_empty e [unfolded create_sample_def]]
  moreover have "js_job_id rec = JobId ''a''" using t by simp
  ultimately show ?thesis using e by metis
qed

text \<open>C17. The assertion that a validated parent accepts its child never fails: no creation request on a
  reachable registry panics, even when the capacity check evicted jobs in between.\<close>

theorem create_never_panics:
  assumes reach: "reach registry_init (reg_step D) r"
    and e: "create_job_with_scopes D clk draws spec parent idle scopes r = Some (r', out)"
  shows "out \<noteq> Panicked"
  using e
proof (cases rule: create_job_cases)
  case (placed s)
  have inv: "store_inv (jobs r)" using reg.reach_inv [OF reach] by (simp add: registry_inv_def)
  have "\<And>p. parent = Some p \<Longrightarrow> can_accept_child (jobs (r\<lparr>jobs := s\<rparr>)) p"
    using placed(1,2) can_accept_child_capacity_check [OF inv, of _ D clk] by (auto simp: admission_check_None)
  from place_job_attaches [OF placed(3) this] show ?thesis by auto
qed simp_all

definition create_sample_child :: "JobRegistry \<Rightarrow> (JobRegistry \<times> JobSnapshot admission) option" where
  "create_sample_child r =
     create_job_with_scopes sample_domain (sample_clock 9) [JobId ''c''] (job_spec_new ''R1'' ''N2'' ''child'')
       (Some (JobId ''a'')) False [] r"

theorem create_never_panics_witness:
  "\<exists>r' out. create_sample_child registry_one = Some (r', out) \<and> out \<noteq> Panicked"
proof -
  have "create_sample_child registry_one \<noteq> None" by code_simp
  then obtain r' out where "create_sample_child registry_one = Some (r', out)" by auto
  with create_never_panics [OF reach_one this [unfolded create_sample_child_def]] show ?thesis by auto
qed

text \<open>A refused request changes nothing, except that a full registry has been swept of its expired
  jobs; in that case the refusal reports the count that is still at the limit.\<close>

theorem create_refused_frame:
  assumes e: "create_job_with_scopes D clk draws spec parent idle scopes r = Some (r', Refused f)"
  shows "r' = r \<or>
    (max_jobs r \<le> tracked_job_count (jobs r) \<and> r' = registry_cleanup_expired clk r \<and>
     max_jobs r' \<le> tracked_job_count (jobs r') \<and>
     f = at_capacity_failure D (tracked_job_count (jobs r')) (max_jobs r'))"
  using e
proof (cases rule: create_job_cases)
  case (full f' s)
  then show ?thesis
    by (auto simp: capacity_check_def registry_cleanup_expired_def Let_def split: if_splits)
next
  case (placed s)
  then show ?thesis by (auto simp: place_job_def Let_def split: list.splits option.splits prod.splits if_splits)
qed simp

theorem create_refused_frame_witness:
  "\<exists>f. create_sample 2 ''b'' [] registry_one = Some (registry_one, Refused f)"
proof -
  have "case create_sample 2 ''b'' [] registry_one of Some (_, Refused _) \<Rightarrow> True | _ \<Rightarrow> False" by code_simp
  then obtain r' f where e: "create_sample 2 ''b'' [] registry_one = Some (r', Refused f)"
    by (auto split: option.splits prod.splits admission.splits)
  have "\<not> max_jobs registry_one \<le> tracked_job_count (jobs registry_one)" by code_simp
  with create_refused_frame [OF e [unfolded create_sample_def]] e show ?thesis by auto
qed

lemma owner_after_remove: "has_scope_owner (fst (remove jid s)) own \<Longrightarrow> has_scope_owner s own"
  by (auto simp: remove_def has_scope_owner_def get_scopes_release split: option.splits if_splits)

lemma sweep_scopes: "scopes_by_owner (sweep now s) = scopes_by_owner s"
  by (simp add: sweep_def)

lemma vacant_cleanup:
  assumes s: "store_inv s" and v: "vacant s jid"
  shows "vacant (cleanup_expired now ttl' s) jid"
proof -
  obtain jids where jids: "cleanup_expired now ttl' s =
      fold (\<lambda>jid s. fst (remove jid s)) jids (sweep now s)"
    using cleanup_expired_fold [OF s] by metis
  have "has_scope_owner (fold (\<lambda>jid s. fst (remove jid s)) js t) jid \<Longrightarrow> has_scope_owner t jid" for js t
    by (induction js arbitrary: t) (auto dest: owner_after_remove)
  then have "has_scope_owner (cleanup_expired now ttl' s) jid \<Longrightarrow> has_scope_owner s jid"
    unfolding jids using has_scope_owner_frame [of "sweep now s" s] by (metis sweep_scopes)
  then show ?thesis using v by (auto simp: vacant_def get_cleanup [OF s])
qed

lemma place_job_returns:
  assumes "d \<in> set draws" "vacant (jobs r) d"
  shows "place_job clk draws spec parent scopes r \<noteq> None"
proof -
  obtain x xs where xs: "draws = x # xs" using assms(1) by (cases draws) auto
  have "insert_with_id_generator (jobs r) (job_snapshot_new clk x (next_token r) spec parent) xs \<noteq> None"
    using assms xs by (intro insert_returns) auto
  then show ?thesis by (auto simp: place_job_def Let_def xs split: option.splits prod.splits)
qed

text \<open>C18. The identifier loop ends: a creation request returns as soon as one of the identifiers drawn is
  neither tracked nor the owner of a reservation.\<close>

theorem create_returns:
  assumes reach: "reach registry_init (reg_step D) r"
    and d: "d \<in> set draws" "registry_get r d = None" "\<not> has_scope_owner (jobs r) d"
  shows "\<exists>r' out. create_job_with_scopes D clk draws spec parent idle scopes r = Some (r', out)"
proof -
  have inv: "store_inv (jobs r)" using reg.reach_inv [OF reach] by (simp add: registry_inv_def)
  have "vacant (jobs r) d" using d by (simp add: vacant_def registry_get_def get_def)
  then have v: "vacant (fst (capacity_check D clk r)) d"
    using capacity_check_store [of D clk r] vacant_cleanup [OF inv] by metis
  obtain s f where cap: "capacity_check D clk r = (s, f)" by (cases "capacity_check D clk r")
  with v d(1) have "place_job clk draws spec parent scopes' (r\<lparr>jobs := s\<rparr>) \<noteq> None" for scopes'
    by (intro place_job_returns [of d]) simp_all
  then show ?thesis
    using cap by (cases f) (auto simp: create_job_with_scopes_def Let_def split: option.splits)
qed

theorem create_returns_witness: "\<exists>r' out. create_sample 2 ''b'' [] registry_one = Some (r', out)"
proof -
  have "registry_get registry_one (JobId ''b'') = None" "\<not> has_scope_owner (jobs registry_one) (JobId ''b'')"
    by code_simp+
  then show ?thesis
    unfolding create_sample_def using create_returns [OF reach_one, of "JobId ''b''"] by simp
qed


section \<open>Shutdown, ending a job, cancelling\<close>

lemma step_shutting_down:
  "reg_step D r r' \<Longrightarrow> shutting_down r \<Longrightarrow> registry_inv r \<Longrightarrow>
     shutting_down r' \<and> next_token r' = next_token r"
proof (induction rule: reg_step.induct)
  case (create spec clk draws parent idle scopes r r' out)
  then show ?case by (simp add: create_job_with_scopes_def admission_check_def)
next
  case (reserve draws scopes r r' res)
  then show ?case by (simp add: reserve_mutation_def Let_def)
next
  case (running r clk jid d)
  then show ?case by (cases rule: update_cases [of clk jid "Running d" r]) (simp_all add: mark_running_def)
next
  case (completed r clk jid d json)
  then show ?case by (cases rule: update_cases [of clk jid "Completed d json" r]) (simp_all add: mark_completed_def)
next
  case (failed r clk jid failure)
  then show ?case by (cases rule: update_cases [of clk jid "failed_state failure" r]) (simp_all add: mark_failed_def)
qed (use step_keeps(2-) in \<open>auto simp: registry_keeps_def\<close>)

lemma run_shutting_down:
  assumes "(reg_step D)\<^sup>*\<^sup>* r r'" "shutting_down r" "registry_inv r"
  shows "shutting_down r' \<and> next_token r' = next_token r"
  using assms
proof (induction rule: rtranclp_induct)
  case (step t u)
  then have "registry_inv t" using reg.run_inv by blast
  with step step_shutting_down [of D t u] show ?case by simp
qed simp

text \<open>C19. Shutdown is final: after it begins, whatever else happens, every creation and every
  reservation is refused with the shutdown failure, and every job still tracked was tracked before.\<close>

theorem shutdown_final:
  assumes reach: "reach registry_init (reg_step D) r"
    and run: "(reg_step D)\<^sup>*\<^sup>* (begin_shutdown r) r'"
  shows "create_job_with_scopes D clk draws spec parent idle scopes r' =
      Some (r', Refused (shutting_down_failure D)) \<and>
    reserve_mutation D draws scopes r' = Some (r', Inl (shutting_down_failure D)) \<and>
    reserve_job_scopes D jid scopes r' = (r', Inl (shutting_down_failure D)) \<and>
    (\<forall>k new. registry_get r' k = Some new \<longrightarrow>
       (\<exists>old. registry_get r k = Some old \<and> job_evolves old new))"
proof -
  have inv: "registry_inv (begin_shutdown r)"
    using reg.reach_inv [OF reach] reg_step_inv_le [OF _ reg_step.shutdown] by blast
  have sd: "shutting_down (begin_shutdown r)" by (simp add: begin_shutdown_def)
  note run_sd = run_shutting_down [OF run sd inv]
  have "tokens_ok (jobs r') (next_token r')"
    using reg.run_inv [OF run inv] by (simp add: registry_inv_def)
  then have "\<exists>old. registry_get r k = Some old \<and> job_evolves old new" if "registry_get r' k = Some new" for k new
    using that reg.run_ord [OF run inv] run_sd tokens_ok_less [of "jobs r'" "next_token r'" k new]
    by (auto simp: registry_le_def registry_get_def get_def begin_shutdown_def)
  then show ?thesis
    using run_sd by (simp add: create_job_with_scopes_def admission_check_def reserve_mutation_def
        reserve_job_scopes_def Let_def)
qed

theorem shutdown_final_witness:
  "create_sample 5 ''b'' [] (begin_shutdown registry_one) =
     Some (begin_shutdown registry_one, Refused (shutting_down_failure sample_domain))"
  unfolding create_sample_def using shutdown_final [OF reach_one rtranclp.rtrancl_refl] by blast

lemma seal_store:
  assumes inv: "store_inv s" and old: "hm_get (by_id s) jid = Some old" "\<not> is_terminal (js_state old)"
    and st: "is_terminal st"
  shows "owned_scopes (fst (transition_state clk jid (unless_terminal st) s)) k =
    (if k = jid then {} else owned_scopes s k)"
proof -
  have f: "unless_terminal st (js_state old) = Some st" using old(2) by (simp add: unless_terminal_def)
  have "owned_scopes (s\<lparr>by_id := m\<rparr>) k = owned_scopes s k" for m k by (simp add: owned_scopes_def)
  moreover have "owned_scopes (remove_active_job rack node j t) k = owned_scopes t k" for rack node j t k
    by (simp add: owned_scopes_def)
  ultimately show ?thesis
    by (simp add: transition_state_terminal [where f = "unless_terminal st", OF old(1) f st old(2)]
        Let_def owned_scopes_release)
qed

lemma seal_index:
  assumes inv: "store_inv s" and old: "hm_get (by_id s) jid = Some old" "\<not> is_terminal (js_state old)"
    and st: "is_terminal st"
  shows "index_jobs (fst (transition_state clk jid (unless_terminal st) s)) rack node =
    removeAll jid (index_jobs s rack node)"
proof -
  have f: "unless_terminal st (js_state old) = Some st" using old(2) by (simp add: unless_terminal_def)
  have id: "js_job_id old = jid" by (rule store_inv_D(9) [OF inv old(1)])
  let ?s2 = "release_scopes jid (s\<lparr>by_id := hm_put jid (touch clk (old\<lparr>js_state := st\<rparr>)) (by_id s)\<rparr>)"
  have same: "index_jobs ?s2 = index_jobs s" by (simp add: index_jobs_def fun_eq_iff)
  have "jid \<in> set (index_jobs s rack node) \<longleftrightarrow> js_node_id old \<noteq> [] \<and> js_rack_id old = rack \<and> js_node_id old = node"
    unfolding store_inv_D(8) [OF inv] using old by (auto simp: indexed_def should_index_def)
  then show ?thesis
    by (auto simp: transition_state_terminal [where f = "unless_terminal st", OF old(1) f st old(2)] Let_def
        index_jobs_remove_active_job same id removeAll_id)
qed

text \<open>C20. Completing or failing a job takes effect exactly when the job is tracked and not terminal; otherwise
  the registry is unchanged.  When it takes effect, the record of the job changes in its state and its update
  time, every scope it owned becomes free, it leaves the list of active jobs of every node, and an installed
  observer is told the new record once.  No other record, no other reservation, no other entry of the node
  index and no other part of the registry changes.\<close>

theorem seal_job:
  assumes reach: "reach registry_init (reg_step D) r"
    and seal: "(res = mark_completed clk jid d json r \<and> st = Completed d json) \<or>
      (res = mark_failed clk jid failure r \<and> st = failed_state failure)"
  shows "(snd res \<longleftrightarrow> (\<exists>job. registry_get r jid = Some job \<and> \<not> is_terminal (js_state job))) \<and>
    (\<not> snd res \<longrightarrow> fst res = r) \<and>
    (\<forall>job. snd res \<and> registry_get r jid = Some job \<longrightarrow>
      (let new = touch clk (job\<lparr>js_state := st\<rparr>) in
       fst res = r\<lparr>jobs := jobs (fst res), notified := notified r @
         (if terminal_observer r then [NotifyTerminal new] else [])\<rparr> \<and>
       registry_get (fst res) = (registry_get r)(jid := Some new) \<and>
       owned_scopes (jobs (fst res)) = (owned_scopes (jobs r))(jid := {}) \<and>
       (\<forall>sc. hm_get (active_by_scope (jobs (fst res))) sc =
         (if hm_get (active_by_scope (jobs r)) sc = Some jid then None else hm_get (active_by_scope (jobs r)) sc)) \<and>
       (\<forall>rack node. index_jobs (jobs (fst res)) rack node = removeAll jid (index_jobs (jobs r) rack node))))"
proof -
  have inv: "registry_inv r" using reg.reach_inv [OF reach] .
  then have sinv: "store_inv (jobs r)" by (simp add: registry_inv_def)
  have res: "res = update clk jid (unless_terminal st) r" and st: "is_terminal st"
    using seal by (auto simp: mark_completed_def mark_failed_def)
  have inv': "store_inv (jobs (fst res))"
  proof -
    have "st \<noteq> Queued x" for x using st by auto
    from update_step [OF inv this] show ?thesis by (simp add: res registry_inv_def)
  qed
  show ?thesis
  proof (cases rule: update_cases [of clk jid st r])
    case same
    have "\<not> (\<exists>job. registry_get r jid = Some job \<and> \<not> is_terminal (js_state job))"
      using same(2) by (auto simp: update_def transition_state_def unless_terminal_def registry_get_def
          get_def Let_def split: option.splits prod.splits if_splits)
    with same show ?thesis by (simp add: res)
  next
    case (changed old new s)
    have old: "registry_get r jid = Some old" using changed(1) by (simp add: registry_get_def get_def)
    have get: "registry_get (fst res) = (registry_get r)(jid := Some new)"
      by (auto simp: res registry_get_def get_def changed(5,7) hm_get_put fun_eq_iff)
    have jobs: "jobs (fst res) = s" by (simp add: res changed(7))
    have own: "owned_scopes s = (owned_scopes (jobs r))(jid := {})"
      using seal_store [OF sinv changed(1,2) st] by (auto simp: changed(4) fun_eq_iff)
    have index: "index_jobs s rack node = removeAll jid (index_jobs (jobs r) rack node)" for rack node
      unfolding changed(4) by (rule seal_index [OF sinv changed(1,2) st])
    have "hm_get (active_by_scope s) sc = Some k \<longleftrightarrow> hm_get (active_by_scope (jobs r)) sc = Some k \<and> k \<noteq> jid" for sc k
      using scopes_ok_D [OF store_inv_D(3) [OF sinv]] scopes_ok_D [OF store_inv_D(3) [OF inv']]
      by (simp add: jobs own)
    then have scope: "hm_get (active_by_scope s) sc = (if hm_get (active_by_scope (jobs r)) sc = Some jid then None
        else hm_get (active_by_scope (jobs r)) sc)" for sc
      by (metis not_None_eq)
    show ?thesis
      using changed(2,3,6,7) old get own index scope st by (simp add: res [symmetric] jobs)
  qed
qed

theorem seal_job_witness:
  "\<exists>job. registry_get registry_one (JobId ''a'') = Some job \<and>
     registry_get registry_done = (registry_get registry_one)(JobId ''a'' :=
       Some (touch (sample_clock 2) (job\<lparr>js_state := Completed ''ok'' ''{}''\<rparr>))) \<and>
     tasks registry_done = tasks registry_one \<and> owned_scopes (jobs registry_done) (JobId ''a'') = {}"
proof -
  let ?res = "mark_completed (sample_clock 2) (JobId ''a'') ''ok'' ''{}'' registry_one"
  obtain job where job: "registry_get registry_one (JobId ''a'') = Some job" "\<not> is_terminal (js_state job)"
  proof -
    have "registry_get registry_one (JobId ''a'') \<noteq> None"
      "\<not> is_terminal (js_state (the (registry_get registry_one (JobId ''a''))))" by code_simp+
    then show thesis using that by auto
  qed
  have seal: "?res = mark_completed (sample_clock 2) (JobId ''a'') ''ok'' ''{}'' registry_one \<and>
      Completed ''ok'' ''{}'' = Completed ''ok'' ''{}''" by simp
  note s = seal_job [OF reach_one disjI1 [OF seal]]
  from s job have "snd ?res" by blast
  with s job(1) have facts: "fst ?res = registry_one\<lparr>jobs := jobs (fst ?res), notified := notified registry_one @
      (if terminal_observer registry_one then [NotifyTerminal (touch (sample_clock 2) (job\<lparr>js_state := Completed ''ok'' ''{}''\<rparr>))] else [])\<rparr>"
    "registry_get (fst ?res) = (registry_get registry_one)(JobId ''a'' :=
       Some (touch (sample_clock 2) (job\<lparr>js_state := Completed ''ok'' ''{}''\<rparr>)))"
    "owned_scopes (jobs (fst ?res)) = (owned_scopes (jobs registry_one))(JobId ''a'' := {})"
    unfolding Let_def by blast+
  from arg_cong [OF facts(1), of tasks] have "tasks (fst ?res) = tasks registry_one" by simp
  with facts(2,3) job(1) show ?thesis by (simp add: registry_done_def)
qed

text \<open>Cancelling a tracked job cancels its own token and no other job's: among the tracked jobs only
  the named one becomes cancelled, and no record changes.  An unknown identifier cancels nothing.\<close>

theorem cancel_exact:
  assumes reach: "reach registry_init (reg_step D) r"
  shows "(snd (cancel jid r) \<longleftrightarrow> registry_get r jid \<noteq> None) \<and>
    (\<forall>k. registry_get (fst (cancel jid r)) k = registry_get r k) \<and>
    (\<forall>k job. registry_get r k = Some job \<longrightarrow>
       (js_cancellation_token job \<in> set (cancelled (fst (cancel jid r))) \<longleftrightarrow>
        k = jid \<or> js_cancellation_token job \<in> set (cancelled r)))"
proof -
  have "tokens_ok (jobs r) (next_token r)" using reg.reach_inv [OF reach] by (simp add: registry_inv_def)
  from tokens_ok_inj [OF this] show ?thesis
    by (auto simp: cancel_def cancellation_token_for_def registry_get_def get_def split: option.splits)
qed

definition registry_two :: JobRegistry where
  "registry_two = (case create_sample_child registry_one of Some (r, _) \<Rightarrow> r | None \<Rightarrow> registry_one)"

lemma reach_two: "reach registry_init (reg_step sample_domain) registry_two"
proof -
  have "create_sample_child registry_one \<noteq> None" by code_simp
  then obtain out where "create_sample_child registry_one = Some (registry_two, out)"
    by (auto simp: registry_two_def)
  then have "reg_step sample_domain registry_one registry_two"
    unfolding create_sample_child_def by (intro reg_step.create) simp_all
  with reach_one show ?thesis by (rule reach.reach_step)
qed

theorem cancel_exact_witness:
  "js_cancellation_token (the (registry_get registry_two (JobId ''c''))) \<in> set (cancelled (fst (cancel (JobId ''c'') registry_two))) \<and>
   js_cancellation_token (the (registry_get registry_two (JobId ''a''))) \<notin> set (cancelled (fst (cancel (JobId ''c'') registry_two)))"
proof -
  have "registry_get registry_two (JobId ''c'') \<noteq> None" "registry_get registry_two (JobId ''a'') \<noteq> None"
    "cancelled registry_two = []" by code_simp+
  then show ?thesis using cancel_exact [OF reach_two, of "JobId ''c''"] by auto
qed


section \<open>Retention\<close>

text \<open>C21. A sweep removes exactly the terminal jobs whose age reached the retention limit, that no live or
  unexpired parent lists and that have no retained child; every other record keeps its state.\<close>

theorem sweep_exact:
  assumes reach: "reach registry_init (reg_step D) r" and "r' = registry_cleanup_expired clk r"
  shows "(registry_get r' jid = None \<longleftrightarrow>
      (\<forall>job. registry_get r jid = Some job \<longrightarrow>
         is_terminal (js_state job) \<and> ttl r \<le> instant_now clk - js_updated_at_mono job \<and>
         (\<forall>p parent. registry_get r p = Some parent \<and> jid \<in> set (js_child_job_ids parent) \<longrightarrow>
            is_terminal (js_state parent) \<and> ttl r \<le> instant_now clk - js_updated_at_mono parent) \<and>
         (\<forall>c \<in> set (js_child_job_ids job). registry_get r c = None))) \<and>
    (\<forall>new. registry_get r' jid = Some new \<longrightarrow>
       (\<exists>old. registry_get r jid = Some old \<and> js_state new = js_state old))"
proof -
  have "store_inv (jobs r)" using reg.reach_inv [OF reach] by (simp add: registry_inv_def)
  from get_cleanup [OF this, of "instant_now clk" "ttl r" jid] show ?thesis
    by (auto simp: assms(2) registry_cleanup_expired_def registry_get_def get_def evictable_def
        split: option.splits if_splits)
qed

theorem sweep_exact_witness:
  "registry_get (registry_cleanup_expired (sample_clock 62) registry_done) (JobId ''a'') = None \<and>
   registry_get (registry_cleanup_expired (sample_clock 61) registry_done) (JobId ''a'') \<noteq> None"
proof -
  have facts: "registry_get registry_done (JobId ''a'') \<noteq> None" "map fst (by_id (jobs registry_done)) = [JobId ''a'']"
    "is_terminal (js_state (the (registry_get registry_done (JobId ''a''))))"
    "js_child_job_ids (the (registry_get registry_done (JobId ''a''))) = []"
    "js_updated_at_mono (the (registry_get registry_done (JobId ''a''))) = 2" "ttl registry_done = 60"
    "instant_now (sample_clock 62) = 62" "instant_now (sample_clock 61) = 61" by code_simp+
  obtain job where job: "registry_get registry_done (JobId ''a'') = Some job" using facts(1) by auto
  have "p = JobId ''a''" if "registry_get registry_done p = Some x" for p x
    using that facts(2) hm_keys_get [of p "by_id (jobs registry_done)"] by (auto simp: registry_get_def get_def)
  then have only: "x = job" if "registry_get registry_done p = Some x" for p x using that job by fastforce
  have "registry_get (registry_cleanup_expired (sample_clock 62) registry_done) (JobId ''a'') = None"
    by (subst sweep_exact [OF reach_done refl, THEN conjunct1]) (use facts job in \<open>auto dest!: only\<close>)
  moreover have "registry_get (registry_cleanup_expired (sample_clock 61) registry_done) (JobId ''a'') \<noteq> None"
    by (subst sweep_exact [OF reach_done refl, THEN conjunct1]) (use facts job in auto)
  ultimately show ?thesis ..
qed

text \<open>Retention ends: when every tracked job has expired and children are leaves, two sweeps empty
  the registry (the children go first, then their parents).\<close>

theorem two_sweeps_empty:
  assumes reach: "reach registry_init (reg_step D) r"
    and expired: "\<forall>k job. registry_get r k = Some job \<longrightarrow> is_expired (instant_now clk) (ttl r) job"
    and leaves: "\<forall>p parent c child. registry_get r p = Some parent \<and> c \<in> set (js_child_job_ids parent) \<and>
      registry_get r c = Some child \<longrightarrow> \<not> is_parent child"
  shows "tracked_job_count (jobs (registry_cleanup_expired clk (registry_cleanup_expired clk r))) = 0"
proof -
  let ?r1 = "registry_cleanup_expired clk r"
  let ?r2 = "registry_cleanup_expired clk ?r1"
  have reach1: "reach registry_init (reg_step D) ?r1"
    using reach reg_step.cleanup by (rule reach.reach_step)
  have inv: "store_inv (jobs r)" "store_inv (jobs ?r1)"
    using reg.reach_inv [OF reach] reg.reach_inv [OF reach1] by (simp_all add: registry_inv_def)
  have get1: "registry_get ?r1 k = (case registry_get r k of None \<Rightarrow> None | Some job \<Rightarrow>
      if evictable (instant_now clk) (ttl r) (jobs r) k job then None else Some (swept (instant_now clk) job))" for k
    by (simp add: registry_get_def get_def registry_cleanup_expired_def get_cleanup [OF inv(1)])
  have get2: "registry_get ?r2 k = (case registry_get ?r1 k of None \<Rightarrow> None | Some job \<Rightarrow>
      if evictable (instant_now clk) (ttl r) (jobs ?r1) k job then None else Some (swept (instant_now clk) job))" for k
    using get_cleanup [OF inv(2)] by (simp add: registry_get_def get_def registry_cleanup_expired_def)
  have exp1: "is_expired (instant_now clk) (ttl r) job" if "registry_get ?r1 k = Some job" for k job
    using that expired by (auto simp: get1 split: option.splits if_splits)
  have leaf_gone: "registry_get ?r1 c = None"
    if "registry_get r p = Some parent" "c \<in> set (js_child_job_ids parent)" for p parent c
  proof (cases "registry_get r c")
    case (Some child)
    then have "js_child_job_ids child = []" using that leaves by (auto simp: is_parent_def)
    then have "evictable (instant_now clk) (ttl r) (jobs r) c child"
      using expired Some by (auto simp: evictable_def is_expired_def is_older_than_def registry_get_def get_def)
    then show ?thesis by (simp add: get1 Some)
  qed (simp add: get1)
  have "registry_get ?r2 k = None" for k
  proof (cases "registry_get ?r1 k")
    case (Some job)
    then obtain old where old: "registry_get r k = Some old" "job = swept (instant_now clk) old"
      by (auto simp: get1 split: option.splits if_splits)
    have "\<forall>c \<in> set (js_child_job_ids job). registry_get ?r1 c = None"
      using leaf_gone [OF old(1)] old(2) by simp
    then have "evictable (instant_now clk) (ttl r) (jobs ?r1) k job"
      using exp1 [OF Some] exp1
      unfolding evictable_def is_expired_def is_older_than_def registry_get_def get_def by blast
    then show ?thesis by (simp add: get2 Some)
  qed (simp add: get2)
  then have "by_id (jobs ?r2) = []" by (simp add: hm_get_Nil_iff registry_get_def get_def)
  then show ?thesis by (simp add: tracked_job_count_def)
qed

theorem two_sweeps_empty_witness:
  "tracked_job_count (jobs registry_done) = 1 \<and>
   tracked_job_count (jobs (registry_cleanup_expired (sample_clock 99) (registry_cleanup_expired (sample_clock 99) registry_done))) = 0"
proof -
  have facts: "tracked_job_count (jobs registry_done) = 1"
    "list_all (\<lambda>(_, job). is_expired (instant_now (sample_clock 99)) (ttl registry_done) job \<and> \<not> is_parent job)
       (by_id (jobs registry_done))" by code_simp+
  then have "is_expired (instant_now (sample_clock 99)) (ttl registry_done) job \<and> \<not> is_parent job"
    if "registry_get registry_done k = Some job" for k job
    using that hm_get_in [of "by_id (jobs registry_done)" k job]
    by (fastforce simp: list_all_iff registry_get_def get_def)
  with facts(1) show ?thesis using two_sweeps_empty [OF reach_done, of "sample_clock 99"] by blast
qed


section \<open>Waiting for jobs\<close>

text \<open>A wait partitions the identifiers it was given: each one is reported exactly once, as terminal
  (with a terminal snapshot), as missing, or as pending; the pending ones are those that every pass saw
  live.  It returns exactly when some pass has seen each of them ended or gone, or a timeout was set and
  has elapsed; without a timeout it never reports a pending identifier.\<close>

theorem wait_partition:
  assumes "look_ok look" "\<forall>l \<in> set (looks_made timeout events). look_ok l"
    and "wait_for_terminal_outcomes look events jids timeout = Some out"
  shows "mset (outcome_ids out) = mset (remdups jids) \<and>
    (\<forall>job \<in> set (outcome_terminal out). is_terminal (js_state job)) \<and>
    set (outcome_pending out) = {jid \<in> set jids. \<not> seen_ended (look # looks_made timeout events) jid} \<and>
    (outcome_pending out = [] \<or> timed_out timeout events)"
proof -
  let ?start = "\<lparr>outcome_terminal = [], outcome_missing = [], outcome_pending = remdups jids\<rparr>"
  let ?looks = "look # looks_made timeout events"
  have out: "out = wait_polls ?looks ?start" "outcome_pending out = [] \<or> timed_out timeout events"
    using assms(3) unfolding wait_for_terminal_outcomes_def wait_rounds_polls
    by (auto simp: timed_out_def simp del: wait_polls.simps split: if_splits)
  have ok: "\<forall>l \<in> set ?looks. look_ok l" using assms(1,2) by simp
  show ?thesis
    using wait_polls_ok [OF ok, of ?start] wait_polls_pending [of ?looks ?start] out
    by (simp add: outcome_ids_def del: wait_polls.simps)
qed

theorem wait_partition_witness:
  "\<exists>out. wait_for_terminal_outcomes (registry_get registry_one) [Slept (registry_get registry_done)]
       [JobId ''a'', JobId ''z''] None = Some out \<and>
     mset (outcome_ids out) = {#JobId ''a'', JobId ''z''#} \<and> outcome_pending out = []"
proof -
  have ok: "look_ok (registry_get r)" if "registry_inv r" for r
    using that store_inv_D(9) [of "jobs r"]
    unfolding look_ok_def registry_get_def get_def registry_inv_def by blast
  have o: "look_ok (registry_get registry_one)" "\<forall>l \<in> set (looks_made None [Slept (registry_get registry_done)]). look_ok l"
    using ok reg.reach_inv [OF reach_one] reg.reach_inv [OF reach_done] by simp_all
  have "wait_for_terminal_outcomes (registry_get registry_one) [Slept (registry_get registry_done)]
      [JobId ''a'', JobId ''z''] None \<noteq> None" by code_simp
  then obtain out where out: "wait_for_terminal_outcomes (registry_get registry_one)
      [Slept (registry_get registry_done)] [JobId ''a'', JobId ''z''] None = Some out" by blast
  from wait_partition [OF o out] out show ?thesis by (auto simp: timed_out_def)
qed

end
