(* ===== verification/Json.thy ===== *)
theory Json
  imports Prelude
begin

text \<open>
  JSON values.  JSON text is \<open>serde_json\<close>'s business: its conversions are the record \<open>Serde\<close>, an
  argument of every function that reads or writes JSON, with the laws the library documents.  Objects
  keep insertion order, as \<open>serde_json::Map\<close> does with the feature \<open>preserve_order\<close> that this
  workspace enables.
\<close>

section \<open>JSON values\<close>

datatype Value =
    JNull
  | JBool bool
  | JInt int
  | JFloat string
  | JString string
  | JArray "Value list"
  | JObject "(string \<times> Value) list"

type_synonym json_map = "(string, Value) hmap"

text \<open>\<open>from_str\<close> is \<open>serde_json::from_str::<Value>\<close> and \<open>show_value\<close> the \<open>Display\<close> of \<open>Value\<close>; the law
  is the documented round trip between them.\<close>

record Serde =
  from_str :: "string \<Rightarrow> Value option"
  show_value :: "Value \<Rightarrow> string"

definition serde_laws :: "Serde \<Rightarrow> bool" where
  "serde_laws S \<longleftrightarrow> (\<forall>v. from_str S (show_value S v) = Some v)"

definition map_extend :: "json_map \<Rightarrow> json_map \<Rightarrow> json_map" where
  "map_extend m extra = fold (\<lambda>(k, v) m. hm_put k v m) extra m"

lemma get_map_extend:
  "hm_ok extra \<Longrightarrow> hm_get (map_extend m extra) k =
     (case hm_get extra k of Some v \<Rightarrow> Some v | None \<Rightarrow> hm_get m k)"
  unfolding map_extend_def
proof (induction extra arbitrary: m)
  case (Cons e extra)
  obtain k' v' where e: "e = (k', v')" by (cases e)
  have "hm_ok extra" "k' \<notin> fst ` set extra" using Cons.prems e by (auto simp: hm_ok_def)
  then have "hm_get extra k' = None" by (simp add: map_of_eq_None_iff)
  with Cons.IH [OF \<open>hm_ok extra\<close>, of "hm_put k' v' m"] show ?case
    by (auto simp: e hm_get_put split: option.splits)
qed simp


section \<open>A concrete instance\<close>

text \<open>
  An instance of the parameter on which the properties that assume its laws are applied: a prefix code
  for values (a tag, unary lengths, then the contents) with its decoder.
\<close>

definition enc_nat :: "nat \<Rightarrow> string" where
  "enc_nat n = replicate n CHR ''1'' @ ''0''"

fun dec_nat :: "string \<Rightarrow> (nat \<times> string) option" where
  "dec_nat [] = None"
| "dec_nat (c # s) =
     (if c = CHR ''1'' then map_option (\<lambda>(n, r). (Suc n, r)) (dec_nat s) else Some (0, s))"

definition enc_string :: "string \<Rightarrow> string" where
  "enc_string s = enc_nat (length s) @ s"

definition dec_string :: "string \<Rightarrow> (string \<times> string) option" where
  "dec_string s = map_option (\<lambda>(n, r). (take n r, drop n r)) (dec_nat s)"

fun enc :: "Value \<Rightarrow> string" where
  "enc JNull = ''n''"
| "enc (JBool b) = (if b then ''t'' else ''f'')"
| "enc (JInt i) = (if i < 0 then ''-'' else ''+'') @ enc_nat (nat \<bar>i\<bar>)"
| "enc (JFloat s) = ''d'' @ enc_string s"
| "enc (JString s) = ''s'' @ enc_string s"
| "enc (JArray vs) = ''a'' @ enc_nat (length vs) @ concat (map enc vs)"
| "enc (JObject kvs) =
     ''o'' @ enc_nat (length kvs) @ concat (map (\<lambda>(k, v). enc_string k @ enc v) kvs)"

text \<open>The decoders recurse on fuel; the number of characters is enough.\<close>

fun dec :: "nat \<Rightarrow> string \<Rightarrow> (Value \<times> string) option"
and dec_values :: "nat \<Rightarrow> nat \<Rightarrow> string \<Rightarrow> (Value list \<times> string) option"
and dec_entries :: "nat \<Rightarrow> nat \<Rightarrow> string \<Rightarrow> ((string \<times> Value) list \<times> string) option" where
  "dec 0 s = None"
| "dec (Suc fuel) s =
     (case s of
        [] \<Rightarrow> None
      | c # s \<Rightarrow>
          if c = CHR ''n'' then Some (JNull, s)
          else if c = CHR ''t'' then Some (JBool True, s)
          else if c = CHR ''f'' then Some (JBool False, s)
          else if c = CHR ''-'' then map_option (\<lambda>(n, r). (JInt (- int n), r)) (dec_nat s)
          else if c = CHR ''+'' then map_option (\<lambda>(n, r). (JInt (int n), r)) (dec_nat s)
          else if c = CHR ''d'' then map_option (\<lambda>(x, r). (JFloat x, r)) (dec_string s)
          else if c = CHR ''s'' then map_option (\<lambda>(x, r). (JString x, r)) (dec_string s)
          else if c = CHR ''a'' then
            Option.bind (dec_nat s) (\<lambda>(n, r). map_option (\<lambda>(vs, r). (JArray vs, r)) (dec_values fuel n r))
          else
            Option.bind (dec_nat s) (\<lambda>(n, r). map_option (\<lambda>(kvs, r). (JObject kvs, r)) (dec_entries fuel n r)))"
| "dec_values fuel 0 s = Some ([], s)"
| "dec_values 0 (Suc n) s = None"
| "dec_values (Suc fuel) (Suc n) s =
     Option.bind (dec fuel s) (\<lambda>(v, r). map_option (\<lambda>(vs, r). (v # vs, r)) (dec_values fuel n r))"
| "dec_entries fuel 0 s = Some ([], s)"
| "dec_entries 0 (Suc n) s = None"
| "dec_entries (Suc fuel) (Suc n) s =
     Option.bind (dec_string s) (\<lambda>(k, r).
       Option.bind (dec fuel r) (\<lambda>(v, r). map_option (\<lambda>(kvs, r). ((k, v) # kvs, r)) (dec_entries fuel n r)))"

definition sample_serde :: Serde where
  "sample_serde =
     \<lparr>from_str = (\<lambda>s. case dec (length s) s of Some (v, []) \<Rightarrow> Some v | _ \<Rightarrow> None), show_value = enc\<rparr>"

lemma dec_enc_nat [simp]: "dec_nat (enc_nat n @ r) = Some (n, r)"
  by (induction n) (simp_all add: enc_nat_def)

lemma dec_enc_string [simp]: "dec_string (enc_string s @ r) = Some (s, r)"
  by (simp add: dec_string_def enc_string_def)

lemma enc_nonempty [simp]: "enc v \<noteq> []"
  by (cases v) auto

lemma length_enc_string: "0 < length (enc_string s)"
  by (simp add: enc_string_def enc_nat_def)

lemma dec_enc_values:
  assumes "\<And>v fuel r. v \<in> set vs \<Longrightarrow> length (enc v) \<le> fuel \<Longrightarrow> dec fuel (enc v @ r) = Some (v, r)"
    and "length (concat (map enc vs)) + length vs \<le> fuel"
  shows "dec_values fuel (length vs) (concat (map enc vs) @ r) = Some (vs, r)"
  using assms
proof (induction vs arbitrary: fuel)
  case (Cons v vs)
  obtain f where f: "fuel = Suc f" using Cons.prems(2) by (cases fuel) auto
  have "dec f (enc v @ x) = Some (v, x)" for x using Cons.prems f by simp
  moreover have "dec_values f (length vs) (concat (map enc vs) @ r) = Some (vs, r)"
    using Cons.prems f by (intro Cons.IH) auto
  ultimately show ?case by (simp add: f)
qed simp

lemma dec_enc_entries:
  assumes "\<And>k v fuel r. (k, v) \<in> set kvs \<Longrightarrow> length (enc v) \<le> fuel \<Longrightarrow> dec fuel (enc v @ r) = Some (v, r)"
    and "length (concat (map (\<lambda>(k, v). enc_string k @ enc v) kvs)) \<le> fuel"
  shows "dec_entries fuel (length kvs) (concat (map (\<lambda>(k, v). enc_string k @ enc v) kvs) @ r) = Some (kvs, r)"
  using assms
proof (induction kvs arbitrary: fuel)
  case (Cons e kvs)
  obtain k v where e: "e = (k, v)" by (cases e)
  have pos: "0 < length (enc_string k)" by (rule length_enc_string)
  with Cons.prems(2) obtain f where f: "fuel = Suc f" using e by (cases fuel) auto
  have "length (enc v) \<le> f" using Cons.prems(2) pos e f by (simp del: length_greater_0_conv)
  then have "dec f (enc v @ x) = Some (v, x)" for x using Cons.prems(1) [of k v] e by simp
  moreover have "dec_entries f (length kvs) (concat (map (\<lambda>(k, v). enc_string k @ enc v) kvs) @ r) = Some (kvs, r)"
    using Cons.prems f e pos by (intro Cons.IH) (auto simp del: length_greater_0_conv)
  ultimately show ?case by (simp add: f e)
qed simp

lemma dec_enc: "length (enc v) \<le> fuel \<Longrightarrow> dec fuel (enc v @ r) = Some (v, r)"
proof (induction v arbitrary: fuel r)
  case (JArray vs)
  obtain f where f: "fuel = Suc f" using JArray.prems by (cases fuel) auto
  have "length (concat (map enc vs)) + length vs \<le> f" using JArray.prems f by (simp add: enc_nat_def)
  then have "dec_values f (length vs) (concat (map enc vs) @ r) = Some (vs, r)"
    using JArray.IH by (intro dec_enc_values)
  then show ?case by (simp add: f)
next
  case (JObject kvs)
  obtain f where f: "fuel = Suc f" using JObject.prems by (cases fuel) auto
  have "dec_entries f (length kvs) (concat (map (\<lambda>(k, v). enc_string k @ enc v) kvs) @ r) = Some (kvs, r)"
    using JObject.IH JObject.prems f by (intro dec_enc_entries) (force simp: enc_nat_def)+
  then show ?case by (simp add: f)
qed (case_tac fuel; auto split: if_splits)+

lemma sample_serde_laws: "serde_laws sample_serde"
proof -
  have "dec (length (enc v)) (enc v) = Some (v, [])" for v
    using dec_enc [of v "length (enc v)" "[]"] by simp
  then show ?thesis by (simp add: serde_laws_def sample_serde_def)
qed

end
