(* ===== verification/Job_Handle.thy ===== *)
theory Job_Handle
  imports Job_Invariants Json
begin

text \<open>
  \<open>orchestrator/job_lifecycle/handle.rs\<close> and \<open>cleanup.rs\<close>: the owned handle of a job, which seals the
  job when it is completed, failed or dropped, the supervised worker task around it, and the cleanup
  plan that runs after the worker.
\<close>

section \<open>The handle\<close>

record JobHandle =
  jh_job_id :: JobId
  jh_cancellation_token :: token
  jh_finished :: bool
  jh_result_metadata :: json_map

definition job_handle_new :: "JobId \<Rightarrow> token \<Rightarrow> JobHandle" where
  "job_handle_new jid tok =
     \<lparr>jh_job_id = jid, jh_cancellation_token = tok, jh_finished = False, jh_result_metadata = []\<rparr>"

definition handle_of :: "JobSnapshot \<Rightarrow> JobHandle" where
  "handle_of rec = job_handle_new (js_job_id rec) (js_cancellation_token rec)"

definition with_result_metadata :: "json_map \<Rightarrow> JobHandle \<Rightarrow> JobHandle" where
  "with_result_metadata metadata h =
     h\<lparr>jh_result_metadata := map_extend (jh_result_metadata h) metadata\<rparr>"

definition result_with_metadata :: "Serde \<Rightarrow> JobHandle \<Rightarrow> string \<Rightarrow> string" where
  "result_with_metadata S h result_json =
     (if jh_result_metadata h = [] then result_json
      else
        (let result =
           (if result_json = [] then []
            else (case from_str S result_json of
                    Some (JObject result) \<Rightarrow> result
                  | Some parsed \<Rightarrow> [(''result'', parsed)]
                  | None \<Rightarrow> [(''result'', JString result_json)]))
         in show_value S (JObject (map_extend result (jh_result_metadata h)))))"

definition failure_with_metadata :: "Serde \<Rightarrow> JobHandle \<Rightarrow> JobFailure \<Rightarrow> JobFailure" where
  "failure_with_metadata S h failure =
     (if jh_result_metadata h \<noteq> [] then
        failure\<lparr>jf_result_json := Some (result_with_metadata S h
          (case jf_result_json failure of None \<Rightarrow> [] | Some r \<Rightarrow> r))\<rparr>
      else failure)"

definition handle_progress :: "clock \<Rightarrow> JobHandle \<Rightarrow> string \<Rightarrow> JobRegistry \<Rightarrow> JobRegistry \<times> bool" where
  "handle_progress clk h descr r = mark_running clk (jh_job_id h) descr r"

definition is_cancelled :: "JobRegistry \<Rightarrow> token \<Rightarrow> bool" where
  "is_cancelled r tok \<longleftrightarrow> tok \<in> set (cancelled r)"

definition drop_handle :: "Serde \<Rightarrow> JobDomain \<Rightarrow> clock \<Rightarrow> JobHandle \<Rightarrow> JobRegistry \<Rightarrow> JobRegistry" where
  "drop_handle S D clk h r =
     (if jh_finished h then r
      else
        (let failure = (if is_cancelled r (jh_cancellation_token h)
                        then shutdown_failure D else dropped_failure D)
         in fst (mark_failed clk (jh_job_id h) (failure_with_metadata S h failure) r)))"

text \<open>\<open>complete\<close> and \<open>fail\<close> consume the handle: the finished handle is dropped at their end.\<close>

definition handle_complete ::
  "Serde \<Rightarrow> JobDomain \<Rightarrow> clock \<Rightarrow> JobHandle \<Rightarrow> string \<Rightarrow> string \<Rightarrow> JobRegistry \<Rightarrow> JobRegistry" where
  "handle_complete S D clk h descr result_json r =
     drop_handle S D clk (h\<lparr>jh_finished := True\<rparr>)
       (fst (mark_completed clk (jh_job_id h) descr (result_with_metadata S h result_json) r))"

definition handle_fail ::
  "Serde \<Rightarrow> JobDomain \<Rightarrow> clock \<Rightarrow> JobHandle \<Rightarrow> JobFailure \<Rightarrow> JobRegistry \<Rightarrow> JobRegistry" where
  "handle_fail S D clk h failure r =
     drop_handle S D clk (h\<lparr>jh_finished := True\<rparr>)
       (fst (mark_failed clk (jh_job_id h) (failure_with_metadata S h failure) r))"


section \<open>Supervised workers\<close>

text \<open>
  A worker is the code a caller passes to \<open>spawn_job\<close>.  What it does with the handle is a list of
  progress texts and a way to end: it completes or fails the job, or it returns, panics or is aborted
  with the handle still alive, which drops it.
\<close>

datatype worker_end = Ends_complete string string | Ends_fail JobFailure | Ends_dropped

record worker_run =
  wr_progress :: "(clock \<times> string) list"
  wr_end :: worker_end
  wr_clock :: clock

definition end_worker :: "Serde \<Rightarrow> JobDomain \<Rightarrow> clock \<Rightarrow> JobHandle \<Rightarrow> worker_end \<Rightarrow> JobRegistry \<Rightarrow> JobRegistry" where
  "end_worker S D clk h e r =
     (case e of
        Ends_complete d json \<Rightarrow> handle_complete S D clk h d json r
      | Ends_fail failure \<Rightarrow> handle_fail S D clk h failure r
      | Ends_dropped \<Rightarrow> drop_handle S D clk h r)"

definition run_worker :: "Serde \<Rightarrow> JobDomain \<Rightarrow> JobHandle \<Rightarrow> worker_run \<Rightarrow> JobRegistry \<Rightarrow> JobRegistry" where
  "run_worker S D h w r =
     end_worker S D (wr_clock w) h (wr_end w)
       (fold (\<lambda>(clk, d) r. fst (handle_progress clk h d r)) (wr_progress w) r)"

text \<open>
  \<open>spawn_job_inner\<close>: both tasks are registered; the worker starts only when the registry is not shutting
  down, otherwise its token is cancelled and it is aborted before it ran.
\<close>

definition spawn_job_inner ::
  "JobHandle \<Rightarrow> task_ref \<Rightarrow> task_ref \<Rightarrow> JobRegistry \<Rightarrow> JobRegistry \<times> bool" where
  "spawn_job_inner h w sv r =
     (let (r, start) = register_task (jh_job_id h) w sv r in
      if start then (r, True)
      else ((cancel_token (jh_cancellation_token h) r)\<lparr>aborted := List.insert w (aborted r)\<rparr>, False))"

definition drop_task_registration :: "JobHandle \<Rightarrow> JobRegistry \<Rightarrow> JobRegistry" where
  "drop_task_registration h r = remove_task (jh_job_id h) r"

text \<open>The whole life of a spawned job whose worker is left alone until it ends.\<close>

definition supervised_run ::
  "Serde \<Rightarrow> JobDomain \<Rightarrow> JobHandle \<Rightarrow> task_ref \<Rightarrow> task_ref \<Rightarrow> worker_run \<Rightarrow> JobRegistry \<Rightarrow> JobRegistry" where
  "supervised_run S D h w sv run r =
     (let (r, started) = spawn_job_inner h w sv r;
          r = (if started then run_worker S D h run r
               else end_worker S D (wr_clock run) h Ends_dropped r)
      in drop_task_registration h r)"


section \<open>Cleanup plans\<close>

datatype ErrorKind = NotFound | OtherKind string

datatype io_outcome = Io_ok | Io_err ErrorKind string

datatype CleanupOperation = RemoveDir

record CleanupFailure =
  cf_operation :: CleanupOperation
  cf_path :: string
  cf_kind :: ErrorKind
  cf_message :: string

datatype CleanupReport =
    CR_Skipped | CR_Removed | CR_NotFound | CR_Failed CleanupFailure | CR_Panicked string

datatype CleanupPlan =
    Immediate string
  | AfterJobsTerminate "JobId list" string "nat option"

definition plan_remove_dir :: "string \<Rightarrow> CleanupPlan" where
  "plan_remove_dir path = Immediate path"

definition plan_remove_dir_after_jobs_terminate :: "JobId list \<Rightarrow> string \<Rightarrow> nat option \<Rightarrow> CleanupPlan" where
  "plan_remove_dir_after_jobs_terminate jids path timeout = AfterJobsTerminate jids path timeout"

text \<open>\<open>remove_dir_all\<close> is the file system's: \<open>fs path\<close> is its outcome.  A plan's result also lists the
  paths it asked to remove.\<close>

definition remove_dir :: "(string \<Rightarrow> io_outcome) \<Rightarrow> string \<Rightarrow> CleanupReport" where
  "remove_dir fs path =
     (case fs path of
        Io_ok \<Rightarrow> CR_Removed
      | Io_err kind message \<Rightarrow>
          if kind = NotFound then CR_NotFound
          else CR_Failed \<lparr>cf_operation = RemoveDir, cf_path = path, cf_kind = kind,
                          cf_message = message\<rparr>)"

text \<open>The result is None while a plan that waits has not returned.\<close>

definition run_cleanup_plan ::
  "(string \<Rightarrow> io_outcome) \<Rightarrow> (JobId \<Rightarrow> JobSnapshot option) \<Rightarrow> wait_event list \<Rightarrow> CleanupPlan
     \<Rightarrow> (CleanupReport \<times> string list) option" where
  "run_cleanup_plan fs look events plan =
     (case plan of
        Immediate path \<Rightarrow> Some (remove_dir fs path, [path])
      | AfterJobsTerminate jids path timeout \<Rightarrow>
          map_option (\<lambda>completed.
              if \<not> completed then (CR_Skipped, []) else (remove_dir fs path, [path]))
            (wait_for_terminal_jobs look events jids timeout))"

text \<open>A panic inside the plan becomes a report with the payload's text, when it has one.\<close>

datatype panic_payload = Payload_string string | Payload_str string | Payload_other

fun panic_message :: "panic_payload \<Rightarrow> string" where
  "panic_message (Payload_string m) = m"
| "panic_message (Payload_str m) = m"
| "panic_message Payload_other = ''unknown panic payload''"

definition run_cleanup_supervised :: "panic_payload + CleanupReport \<Rightarrow> CleanupReport" where
  "run_cleanup_supervised outcome =
     (case outcome of Inr report \<Rightarrow> report | Inl payload \<Rightarrow> CR_Panicked (panic_message payload))"



section \<open>A handle always seals its job\<close>

lemma get_update:
  "registry_get (fst (update clk jid (unless_terminal st) r)) k =
     (case registry_get r k of
        None \<Rightarrow> None
      | Some job \<Rightarrow>
          if k = jid \<and> \<not> is_terminal (js_state job) then Some (touch clk (job\<lparr>js_state := st\<rparr>)) else Some job)"
proof (cases rule: update_cases [of clk jid st r])
  case same
  then have "is_terminal (js_state job)" if "registry_get r jid = Some job" for job
    using that by (auto simp: update_def transition_state_def unless_terminal_def registry_get_def
        get_def Let_def split: option.splits prod.splits if_splits)
  with same show ?thesis by (auto split: option.splits)
next
  case (changed old new s)
  then show ?thesis by (auto simp: registry_get_def get_def hm_get_put split: option.splits)
qed

lemmas get_marks =
  get_update [of clk jid "Running d", folded mark_running_def]
  get_update [of clk jid "Completed d json", folded mark_completed_def]
  get_update [of clk jid "failed_state failure", folded mark_failed_def] for clk jid d json failure

lemma update_frame [simp]:
  "tasks (fst (update clk jid f r)) = tasks r" "cancelled (fst (update clk jid f r)) = cancelled r"
  "shutting_down (fst (update clk jid f r)) = shutting_down r"
  "next_token (fst (update clk jid f r)) = next_token r"
  by (simp_all add: update_def Let_def case_prod_beta split: option.splits LifecycleTransition.splits)

lemmas mark_defs = mark_running_def mark_completed_def mark_failed_def

lemma end_worker_seals:
  assumes "registry_get r (jh_job_id h) = Some job" "\<not> jh_finished h"
  shows "\<exists>new. registry_get (end_worker S D clk h e r) (jh_job_id h) = Some new \<and> is_terminal (js_state new)"
  using assms
  by (cases e) (auto simp: end_worker_def handle_complete_def handle_fail_def drop_handle_def get_marks Let_def)

lemma handle_progress_fold:
  assumes "registry_get r (jh_job_id h) = Some job"
  shows "\<exists>new. registry_get (fold (\<lambda>(clk, d) r. fst (handle_progress clk h d r)) ps r) (jh_job_id h) = Some new"
  using assms
proof (induction ps arbitrary: r job)
  case (Cons p ps)
  obtain clk d where p: "p = (clk, d)" by (cases p)
  have "\<exists>new. registry_get (fst (handle_progress clk h d r)) (jh_job_id h) = Some new"
    using Cons.prems by (simp add: handle_progress_def get_marks)
  with Cons.IH show ?case by (auto simp: p)
qed simp

lemma spawn_job_inner_frame [simp]:
  "registry_get (fst (spawn_job_inner h w sv r)) k = registry_get r k"
  "snd (spawn_job_inner h w sv r) = (\<not> shutting_down r)"
  by (auto simp: spawn_job_inner_def register_task_def registry_get_def Let_def)

lemma drop_task_registration_get [simp]:
  "registry_get (drop_task_registration h r) k = registry_get r k"
  "hm_get (tasks (drop_task_registration h r)) (jh_job_id h) = None"
  by (simp_all add: drop_task_registration_def remove_task_def registry_get_def hm_get_del)

text \<open>C26. Whatever a worker does with its handle, once its supervisor has ended the job is terminal and its
  task entry is gone.  When the registry is already shutting down the worker never runs, and a live job
  is recorded as cancelled by the shutdown.\<close>

theorem supervised_run_seals:
  assumes "registry_get r (jh_job_id h) = Some job" and "\<not> jh_finished h"
  shows "\<exists>new. registry_get (supervised_run S D h w sv run r) (jh_job_id h) = Some new \<and>
    is_terminal (js_state new) \<and>
    hm_get (tasks (supervised_run S D h w sv run r)) (jh_job_id h) = None \<and>
    (shutting_down r \<and> \<not> is_terminal (js_state job) \<longrightarrow>
      js_state new = failed_state (failure_with_metadata S h (shutdown_failure D)))"
proof (cases "shutting_down r")
  case False
  let ?r1 = "fst (spawn_job_inner h w sv r)"
  have run: "supervised_run S D h w sv run r = drop_task_registration h (run_worker S D h run ?r1)"
    using False by (simp add: supervised_run_def case_prod_beta Let_def)
  obtain mid where "registry_get (fold (\<lambda>(clk, d) r. fst (handle_progress clk h d r)) (wr_progress run) ?r1)
      (jh_job_id h) = Some mid"
    using handle_progress_fold [of ?r1 h job "wr_progress run"] assms(1) by auto
  from end_worker_seals [OF this assms(2)] show ?thesis
    using False by (auto simp: run run_worker_def)
next
  case True
  let ?r1 = "fst (spawn_job_inner h w sv r)"
  have run: "supervised_run S D h w sv run r =
      drop_task_registration h (end_worker S D (wr_clock run) h Ends_dropped ?r1)"
    using True by (simp add: supervised_run_def case_prod_beta Let_def)
  have "is_cancelled ?r1 (jh_cancellation_token h)"
    using True by (simp add: spawn_job_inner_def register_task_def is_cancelled_def Let_def)
  then have drop: "end_worker S D (wr_clock run) h Ends_dropped ?r1 =
      fst (mark_failed (wr_clock run) (jh_job_id h) (failure_with_metadata S h (shutdown_failure D)) ?r1)"
    using assms(2) by (simp add: end_worker_def drop_handle_def)
  have "registry_get ?r1 (jh_job_id h) = Some job" using assms(1) by simp
  from end_worker_seals [OF this assms(2), of S D "wr_clock run" Ends_dropped] show ?thesis
    using assms(1) by (auto simp: run drop get_marks split: if_splits)
qed

definition sample_job :: JobSnapshot where
  "sample_job = job_snapshot_new \<lparr>utc_now = 0, instant_now = 0\<rparr> (JobId ''a'') 0
     (job_spec_new ''R1'' ''N1'' ''waiting'') None"

definition sample_registry :: JobRegistry where
  "sample_registry = begin_shutdown ((with_capacity 60 2)\<lparr>jobs := insert_vacant sample_job job_store_default\<rparr>)"

definition sample_policy :: JobDomain where
  "sample_policy =
     (let f = job_failure_new (UntypedError ''x'') in
      \<lparr>dropped_failure = f ''dropped'', at_capacity_failure = (\<lambda>_ _. f ''full''),
       node_busy_failure = (\<lambda>_ _ _. f ''busy''), scope_busy_failure = (\<lambda>_ _. f ''busy''),
       inactive_job_failure = (\<lambda>_. f ''inactive''), shutting_down_failure = f ''closing'',
       shutdown_failure = f ''shutdown'', parent_unavailable_failure = (\<lambda>_. f ''parent'')\<rparr>)"

theorem supervised_run_seals_witness:
  "\<exists>new. registry_get (supervised_run sample_serde sample_policy (handle_of sample_job) 1 2
       \<lparr>wr_progress = [], wr_end = Ends_dropped, wr_clock = \<lparr>utc_now = 1, instant_now = 1\<rparr>\<rparr> sample_registry)
       (JobId ''a'') = Some new \<and> js_state new = failed_state (shutdown_failure sample_policy)"
proof -
  have facts: "registry_get sample_registry (JobId ''a'') = Some sample_job" "\<not> jh_finished (handle_of sample_job)"
    "shutting_down sample_registry" "\<not> is_terminal (js_state sample_job)"
    "jh_job_id (handle_of sample_job) = JobId ''a''"
    "failure_with_metadata sample_serde (handle_of sample_job) f = f" for f
    by (simp_all add: sample_registry_def begin_shutdown_def with_capacity_def registry_get_def get_def
        insert_vacant_def Let_def job_store_default_def hm_put_def sample_job_def handle_of_def job_handle_new_def
        job_spec_new_def failure_with_metadata_def)
  show ?thesis
    using supervised_run_seals [of sample_registry "handle_of sample_job" sample_job, OF _ facts(2)] facts by metis
qed

text \<open>A handle's metadata in a terminal result, for a JSON library whose printer and parser are inverse:
  the result is an object in which every metadata key has the metadata value, the other keys are those of
  the original object, and a payload that is not an object is kept under the key result.\<close>

theorem result_metadata_precedence:
  assumes laws: "serde_laws S" and meta: "jh_result_metadata h \<noteq> []" "hm_ok (jh_result_metadata h)"
  shows "\<exists>m. from_str S (result_with_metadata S h json) = Some (JObject m) \<and>
    (\<forall>k v. hm_get (jh_result_metadata h) k = Some v \<longrightarrow> hm_get m k = Some v) \<and>
    (\<forall>k. hm_get (jh_result_metadata h) k = None \<longrightarrow>
       hm_get m k =
         (if json = [] then None
          else (case from_str S json of
                  Some (JObject result) \<Rightarrow> hm_get result k
                | Some v \<Rightarrow> if k = ''result'' then Some v else None
                | None \<Rightarrow> if k = ''result'' then Some (JString json) else None)))"
proof -
  have parse: "from_str S (show_value S v) = Some v" for v using laws by (simp add: serde_laws_def)
  let ?base = "if json = [] then [] else (case from_str S json of
      Some (JObject result) \<Rightarrow> result | Some parsed \<Rightarrow> [(''result'', parsed)]
    | None \<Rightarrow> [(''result'', JString json)])"
  have "from_str S (result_with_metadata S h json) =
      Some (JObject (map_extend ?base (jh_result_metadata h)))"
    using meta(1) by (simp add: result_with_metadata_def parse Let_def)
  moreover have "hm_get ?base k = (if json = [] then None
          else (case from_str S json of
                  Some (JObject result) \<Rightarrow> hm_get result k
                | Some v \<Rightarrow> if k = ''result'' then Some v else None
                | None \<Rightarrow> if k = ''result'' then Some (JString json) else None))" for k
    by (auto split: option.splits Value.splits)
  ultimately show ?thesis
    using get_map_extend [OF meta(2), of ?base] by (intro exI [of _ "map_extend ?base (jh_result_metadata h)"]) simp
qed

theorem result_metadata_precedence_witness:
  "\<exists>m. from_str sample_serde (result_with_metadata sample_serde
         (with_result_metadata [(''k'', JInt 1)] (job_handle_new (JobId ''a'') 0)) (enc (JBool True))) = Some (JObject m) \<and>
     hm_get m ''k'' = Some (JInt 1) \<and> hm_get m ''result'' = Some (JBool True)"
proof -
  let ?h = "with_result_metadata [(''k'', JInt 1)] (job_handle_new (JobId ''a'') 0)"
  have meta: "jh_result_metadata ?h = [(''k'', JInt 1)]" by code_simp
  then have "jh_result_metadata ?h \<noteq> []" "hm_ok (jh_result_metadata ?h)" by (simp_all add: hm_ok_def)
  moreover have "from_str sample_serde (enc (JBool True)) = Some (JBool True)"
    using sample_serde_laws by (simp add: serde_laws_def sample_serde_def)
  ultimately show ?thesis
    using result_metadata_precedence [OF sample_serde_laws, of ?h "enc (JBool True)"] meta by auto
qed

text \<open>C33. A plan that waits for child jobs removes its directory exactly when, for each of them, some pass
  of the wait saw it terminal or gone.  If a timeout is set and elapses first, the plan is skipped and the
  file system is not touched; a plan without a timeout is never skipped, and a plan that is neither done
  nor timed out has not returned.\<close>

theorem cleanup_waits_for_jobs:
  "run_cleanup_plan fs look events (plan_remove_dir_after_jobs_terminate jids path timeout) =
    (if \<forall>jid \<in> set jids. seen_ended (look # looks_made timeout events) jid then Some (remove_dir fs path, [path])
     else if timeout \<noteq> None \<and> Elapsed \<in> set events then Some (CR_Skipped, [])
     else None)"
  by (auto simp: run_cleanup_plan_def plan_remove_dir_after_jobs_terminate_def wait_for_terminal_jobs_eq timed_out_def)

theorem cleanup_waits_for_jobs_witness:
  "run_cleanup_plan (\<lambda>_. Io_ok) (\<lambda>_. Some sample_job) [Slept (\<lambda>_. None)]
       (plan_remove_dir_after_jobs_terminate [JobId ''a''] ''/tmp/x'' None) = Some (CR_Removed, [''/tmp/x'']) \<and>
   run_cleanup_plan (\<lambda>_. Io_ok) (\<lambda>_. Some sample_job) [Elapsed]
       (plan_remove_dir_after_jobs_terminate [JobId ''a''] ''/tmp/x'' (Some 5)) = Some (CR_Skipped, []) \<and>
   run_cleanup_plan (\<lambda>_. Io_ok) (\<lambda>_. Some sample_job) [Elapsed]
       (plan_remove_dir_after_jobs_terminate [JobId ''a''] ''/tmp/x'' None) = None"
proof -
  have "\<not> is_terminal (js_state sample_job)" by code_simp
  then show ?thesis by (simp add: cleanup_waits_for_jobs seen_ended_def remove_dir_def)
qed

end
