(* ===== verification/Job_Tracker.thy ===== *)
theory Job_Tracker
  imports Job_Handle
begin

text \<open>
  \<open>orchestrator/job_tracker.rs\<close>: the tracker that the API handlers use.  It creates jobs on the registry
  under the service's failure policy, owns the handles of batch parents, aggregates the state of a
  parent from its children, keeps the workflow metrics through the registry's observers, and runs the
  retention sweep and the shutdown sequence.  Tracing contexts and log lines are omitted.
\<close>

section \<open>Result payloads\<close>

record FirmwareChildResultTarget =
  crt_component :: string
  crt_firmware_file :: string

record FirmwareChildResultRedfish =
  crr_code :: "string option"
  crr_message :: "string option"
  crr_severity :: "string option"
  crr_resolution :: "string option"

record FirmwareChildResult =
  cr_status :: "string option"
  cr_phase :: "string option"
  cr_error_code :: "string option"
  cr_error_message :: "string option"
  cr_summary :: "string option"
  cr_target :: "FirmwareChildResultTarget option"
  cr_target_id :: "string option"
  cr_redfish :: "FirmwareChildResultRedfish option"
  cr_raw_error :: "string option"

definition child_result_is_empty :: "FirmwareChildResult \<Rightarrow> bool" where
  "child_result_is_empty r \<longleftrightarrow>
     cr_status r = None \<and> cr_phase r = None \<and> cr_error_code r = None \<and> cr_error_message r = None \<and>
     cr_summary r = None \<and> cr_target r = None \<and> cr_target_id r = None \<and> cr_redfish r = None \<and>
     cr_raw_error r = None"

definition child_result_summary :: "FirmwareChildResult \<Rightarrow> string option" where
  "child_result_summary r = (case cr_summary r of Some s \<Rightarrow> Some s | None \<Rightarrow> cr_error_message r)"

text \<open>
  The JSON conversions the tracker calls: \<open>to_string\<close> of a serialised payload, which may fail, and the
  typed readers of a child's result text.
\<close>

record JobJson =
  jj_serde :: Serde
  jj_to_string :: "Value \<Rightarrow> string option"
  jj_from_status :: "string \<Rightarrow> string option option"
  jj_from_child :: "string \<Rightarrow> FirmwareChildResult option"

definition serialize_result_json :: "JobJson \<Rightarrow> Value \<Rightarrow> string" where
  "serialize_result_json J payload = (case jj_to_string J payload of Some s \<Rightarrow> s | None \<Rightarrow> [])"

text \<open>A field with \<open>skip_serializing_if = "Option::is_none"\<close>.\<close>

definition opt_field :: "string \<Rightarrow> ('a \<Rightarrow> Value) \<Rightarrow> 'a option \<Rightarrow> json_map" where
  "opt_field k f x = (case x of None \<Rightarrow> [] | Some v \<Rightarrow> [(k, f v)])"

definition redfish_value :: "FirmwareChildResultRedfish \<Rightarrow> Value" where
  "redfish_value r = JObject
     (opt_field ''code'' JString (crr_code r) @ opt_field ''message'' JString (crr_message r) @
      opt_field ''severity'' JString (crr_severity r) @ opt_field ''resolution'' JString (crr_resolution r))"

definition target_value :: "FirmwareChildResultTarget \<Rightarrow> Value" where
  "target_value t = JObject
     [(''component'', JString (crt_component t)), (''firmware_file'', JString (crt_firmware_file t))]"

definition child_result_value :: "FirmwareChildResult \<Rightarrow> Value" where
  "child_result_value r = JObject
     (opt_field ''status'' JString (cr_status r) @ opt_field ''phase'' JString (cr_phase r) @
      opt_field ''error_code'' JString (cr_error_code r) @
      opt_field ''error_message'' JString (cr_error_message r) @
      opt_field ''summary'' JString (cr_summary r) @ opt_field ''target'' target_value (cr_target r) @
      opt_field ''target_id'' JString (cr_target_id r) @ opt_field ''redfish'' redfish_value (cr_redfish r) @
      opt_field ''raw_error'' JString (cr_raw_error r))"

definition default_failure_result_json :: "JobJson \<Rightarrow> JobError \<Rightarrow> string \<Rightarrow> string" where
  "default_failure_result_json J error_code error_message =
     serialize_result_json J (JObject
       [(''status'', JString ''failed''), (''error_code'', JString (job_error_debug error_code)),
        (''error_message'', JString error_message)])"

definition job_failure :: "JobJson \<Rightarrow> JobError \<Rightarrow> string \<Rightarrow> JobFailure" where
  "job_failure J error_code error_message =
     with_result_json (default_failure_result_json J error_code error_message)
       (job_failure_new (TypedError error_code) error_message)"


section \<open>The service's failure policy\<close>

text \<open>\<open>{scope:?}\<close>: the derived \<open>Debug\<close> text, with strings quoted and escaped as \<open>str\<close>'s \<open>Debug\<close> does on ASCII.\<close>

definition escape_debug :: "char \<Rightarrow> string" where
  "escape_debug c =
     (let n = (of_char c :: nat) in
      if n = 0 then [CHR 0x5C, CHR ''0'']
      else if n = 9 then [CHR 0x5C, CHR ''t'']
      else if n = 10 then [CHR 0x5C, CHR ''n'']
      else if n = 13 then [CHR 0x5C, CHR ''r'']
      else if n = 34 \<or> n = 92 then [CHR 0x5C, c]
      else if n < 32 \<or> n = 127 then [CHR 0x5C, CHR ''u'', CHR 0x7B] @ show_hex n @ [CHR 0x7D]
      else [c])"

definition str_debug :: "string \<Rightarrow> string" where
  "str_debug s = [CHR 0x22] @ concat (map escape_debug s) @ [CHR 0x22]"

fun job_scope_debug :: "JobScope \<Rightarrow> string" where
  "job_scope_debug (LogicalNode rack node) =
     ''LogicalNode { rack_id: '' @ str_debug rack @ '', node_id: '' @ str_debug node @ '' }''"
| "job_scope_debug (PhysicalSwitch serial tray) =
     ''PhysicalSwitch { chassis_serial_number: '' @ str_debug serial @ '', tray_index: ''
       @ show_nat (unat tray) @ '' }''"
| "job_scope_debug (Endpoint host port) =
     ''Endpoint { host: '' @ str_debug host @ '', port: '' @ show_nat (unat port) @ '' }''"

definition RmsJobDomain :: "JobJson \<Rightarrow> JobDomain" where
  "RmsJobDomain J =
     \<lparr>dropped_failure = with_description ''Abandoned''
        (job_failure J JE_Internal ''job abandoned before recording a terminal state''),
      at_capacity_failure = (\<lambda>current max. job_failure J JE_Internal
        (''job tracker at capacity ('' @ show_nat current @ ''/'' @ show_nat max
          @ '' jobs); retry after in-flight jobs finish'')),
      node_busy_failure = (\<lambda>rack node active. job_failure J JE_UpdateInProgress
        (''job already in progress for rack '' @ rack @ '' node '' @ node @ '' (job_id ''
          @ job_id_str active @ '')'')),
      scope_busy_failure = (\<lambda>scope owner. job_failure J JE_UpdateInProgress
        (''mutation scope '' @ job_scope_debug scope @ '' is occupied (owner_id ''
          @ job_id_str owner @ '')'')),
      inactive_job_failure = (\<lambda>jid. job_failure J JE_Internal
        (''job '' @ job_id_str jid
          @ '' is missing or terminal; mutation aliases cannot be admitted'')),
      shutting_down_failure = job_failure J JE_Internal
        ''server is shutting down; new jobs are not accepted'',
      shutdown_failure = with_description ''Cancelled''
        (job_failure J JE_Other ''job cancelled because the server is shutting down''),
      parent_unavailable_failure = (\<lambda>p. job_failure J JE_Internal
        (''parent job '' @ job_id_str p @ '' is missing, terminal, or already a child''))\<rparr>"


section \<open>Views of a job\<close>

record JobInfo =
  ji_job_id :: string
  ji_state :: JobState
  ji_state_description :: string
  ji_rack_id :: string
  ji_node_id :: string
  ji_error_code :: JobError
  ji_error_message :: string
  ji_result_json :: string
  ji_created_at :: int
  ji_updated_at :: int
  ji_child_job_ids :: "string list"
  ji_parent_job_id :: "string option"

definition job_info_is_parent :: "JobInfo \<Rightarrow> bool" where
  "job_info_is_parent info \<longleftrightarrow> ji_child_job_ids info \<noteq> []"

fun snapshot_state :: "JobLifecycleState \<Rightarrow> JobState" where
  "snapshot_state (Queued _) = JS_Queued"
| "snapshot_state (Running _) = JS_Running"
| "snapshot_state (Completed _ _) = JS_Completed"
| "snapshot_state (Failed _ _ _ _) = JS_Failed"

fun snapshot_payload :: "JobLifecycleState \<Rightarrow> JobError \<times> string \<times> string" where
  "snapshot_payload (Failed _ e message result_json) = (job_error_of e, message, result_json)"
| "snapshot_payload (Completed _ result_json) = (JE_Unspecified, [], result_json)"
| "snapshot_payload (Queued _) = (JE_Unspecified, [], [])"
| "snapshot_payload (Running _) = (JE_Unspecified, [], [])"

definition snapshot_to_job_info :: "JobSnapshot \<Rightarrow> JobInfo" where
  "snapshot_to_job_info s =
     (let (error_code, error_message, result_json) = snapshot_payload (js_state s) in
      \<lparr>ji_job_id = job_id_str (js_job_id s), ji_state = snapshot_state (js_state s),
       ji_state_description = description (js_state s), ji_rack_id = js_rack_id s,
       ji_node_id = js_node_id s, ji_error_code = error_code, ji_error_message = error_message,
       ji_result_json = result_json, ji_created_at = js_created_at s, ji_updated_at = js_updated_at s,
       ji_child_job_ids = map job_id_str (js_child_job_ids s),
       ji_parent_job_id = map_option job_id_str (js_parent_job_id s)\<rparr>)"


section \<open>Workflow metrics\<close>

record WorkflowMetrics =
  workflows_counts :: "(string list, nat) hmap"
  workflows_in_flight :: "(string list, int) hmap"

definition new_workflow_metrics :: WorkflowMetrics where
  "new_workflow_metrics = \<lparr>workflows_counts = [], workflows_in_flight = []\<rparr>"

definition bool_label :: "bool \<Rightarrow> string" where
  "bool_label b = (if b then ''true'' else ''false'')"

definition WORKFLOW_SUCCESS_ERROR_CODE :: string where
  "WORKFLOW_SUCCESS_ERROR_CODE = ''none''"

definition record_workflow_started_metrics :: "JobSnapshot \<Rightarrow> WorkflowMetrics \<Rightarrow> WorkflowMetrics" where
  "record_workflow_started_metrics snapshot m =
     (case js_workflow_type snapshot of
        None \<Rightarrow> m
      | Some workflow_type \<Rightarrow>
          (let ty = span_name workflow_type; leaf = bool_label (js_node_id snapshot \<noteq> []);
               c = [ty, leaf, job_state_as_str JS_Queued, WORKFLOW_SUCCESS_ERROR_CODE]; g = [ty, leaf]
           in m\<lparr>workflows_counts := hm_put c (hm_or 0 (workflows_counts m) c + 1) (workflows_counts m),
                workflows_in_flight := hm_put g (hm_or 0 (workflows_in_flight m) g + 1) (workflows_in_flight m)\<rparr>))"

fun terminal_labels :: "JobLifecycleState \<Rightarrow> (string \<times> string) option" where
  "terminal_labels (Completed _ _) = Some (job_state_as_str JS_Completed, WORKFLOW_SUCCESS_ERROR_CODE)"
| "terminal_labels (Failed _ e _ _) = Some (job_state_as_str JS_Failed, metrics_label (job_error_of e))"
| "terminal_labels (Queued _) = None"
| "terminal_labels (Running _) = None"

definition record_workflow_terminal_metrics :: "JobSnapshot \<Rightarrow> WorkflowMetrics \<Rightarrow> WorkflowMetrics" where
  "record_workflow_terminal_metrics snapshot m =
     (case js_workflow_type snapshot of
        None \<Rightarrow> m
      | Some workflow_type \<Rightarrow>
          (case terminal_labels (js_state snapshot) of
             None \<Rightarrow> m
           | Some (workflow_state, error_code) \<Rightarrow>
               (let ty = span_name workflow_type; leaf = bool_label (js_node_id snapshot \<noteq> []);
                    c = [ty, leaf, workflow_state, error_code]; g = [ty, leaf]
                in m\<lparr>workflows_counts := hm_put c (hm_or 0 (workflows_counts m) c + 1) (workflows_counts m),
                     workflows_in_flight :=
                       hm_put g (hm_or 0 (workflows_in_flight m) g - 1) (workflows_in_flight m)\<rparr>)))"

text \<open>The observers installed by \<open>build\<close> run once per notification.\<close>

fun observe :: "Notification \<Rightarrow> WorkflowMetrics \<Rightarrow> WorkflowMetrics" where
  "observe (NotifyCreated snapshot) m = record_workflow_started_metrics snapshot m"
| "observe (NotifyTerminal snapshot) m = record_workflow_terminal_metrics snapshot m"

definition metrics_of :: "Notification list \<Rightarrow> WorkflowMetrics" where
  "metrics_of ns = fold observe ns new_workflow_metrics"


section \<open>The tracker\<close>

text \<open>Durations are in nanoseconds.\<close>

record JobTracker =
  registry :: JobRegistry
  parent_job_handles :: "(JobId, JobHandle) hmap"
  terminal_job_ttl :: nat

definition FORCED_TASK_DRAIN_TIMEOUT :: nat where
  "FORCED_TASK_DRAIN_TIMEOUT = 5 * 10 ^ 9"

definition DEFAULT_TTL_MS :: nat where
  "DEFAULT_TTL_MS = 24 * 3600 * 1000"

definition REAPER_INTERVAL :: nat where
  "REAPER_INTERVAL = 300 * 10 ^ 9"

definition MIN_REAPER_INTERVAL :: nat where
  "MIN_REAPER_INTERVAL = 10 ^ 9"

definition reaper_interval :: "nat \<Rightarrow> nat" where
  "reaper_interval job_ttl =
     (if job_ttl < MIN_REAPER_INTERVAL then MIN_REAPER_INTERVAL
      else if REAPER_INTERVAL < job_ttl then REAPER_INTERVAL else job_ttl)"

definition with_retention_limits :: "nat \<Rightarrow> nat \<Rightarrow> JobTracker" where
  "with_retention_limits job_ttl max_tracked_jobs =
     \<lparr>registry = (with_capacity job_ttl max_tracked_jobs)\<lparr>created_observer := True, terminal_observer := True\<rparr>,
      parent_job_handles = [], terminal_job_ttl = job_ttl\<rparr>"

definition job_tracker_new :: JobTracker where
  "job_tracker_new = with_retention_limits (DEFAULT_TTL_MS * 10 ^ 6) MAX_TRACKED_JOBS"


section \<open>Aggregating a parent\<close>

record FailedChild =
  fc_job_id :: string
  fc_node_id :: string
  fc_error_code :: JobError
  fc_error_message :: string
  fc_result_json :: string

record ParentCounts =
  pc_total :: nat
  pc_completed :: nat
  pc_failed :: nat
  pc_running :: nat
  pc_queued :: nat
  pc_missing :: nat
  pc_failed_children :: "FailedChild list"

definition counts_done :: "ParentCounts \<Rightarrow> nat" where
  "counts_done c = pc_completed c + pc_failed c + pc_missing c"

definition count_fragment :: "nat \<Rightarrow> string \<Rightarrow> string" where
  "count_fragment n label = (if 0 < n then '', '' @ show_nat n @ '' '' @ label else [])"

definition missing_jobs_suffix :: "nat \<Rightarrow> string" where
  "missing_jobs_suffix missing = (if 0 < missing then '' ('' @ show_nat missing @ '' jobs missing)'' else [])"

definition running_description :: "ParentCounts \<Rightarrow> JobType \<Rightarrow> string" where
  "running_description c job_type =
     ''Batch '' @ batch_noun job_type @ '' in progress ('' @ show_nat (counts_done c) @ ''/''
       @ show_nat (pc_total c) @ '' complete'' @ count_fragment (pc_running c) ''running''
       @ count_fragment (pc_queued c) ''queued'' @ '')''"

definition failed_child :: "JobSnapshot \<Rightarrow> FailedChild" where
  "failed_child child =
     (let info = snapshot_to_job_info child in
      \<lparr>fc_job_id = ji_job_id info, fc_node_id = ji_node_id info, fc_error_code = ji_error_code info,
       fc_error_message = ji_error_message info, fc_result_json = ji_result_json info\<rparr>)"

definition count_child :: "JobSnapshot \<Rightarrow> ParentCounts \<Rightarrow> ParentCounts" where
  "count_child child c =
     (case js_state child of
        Completed _ _ \<Rightarrow> c\<lparr>pc_completed := pc_completed c + 1\<rparr>
      | Failed _ _ _ _ \<Rightarrow> c\<lparr>pc_failed := pc_failed c + 1,
          pc_failed_children := pc_failed_children c @ [failed_child child]\<rparr>
      | Running _ \<Rightarrow> c\<lparr>pc_running := pc_running c + 1\<rparr>
      | Queued _ \<Rightarrow> c\<lparr>pc_queued := pc_queued c + 1\<rparr>)"

definition collect_parent_counts :: "JobRegistry \<Rightarrow> JobId list \<Rightarrow> ParentCounts" where
  "collect_parent_counts r child_ids =
     fold (\<lambda>child_id c. case registry_get r child_id of
             None \<Rightarrow> c\<lparr>pc_missing := pc_missing c + 1\<rparr>
           | Some child \<Rightarrow> count_child child c) child_ids
       \<lparr>pc_total = length child_ids, pc_completed = 0, pc_failed = 0, pc_running = 0, pc_queued = 0,
        pc_missing = 0, pc_failed_children = []\<rparr>"

record ParsedFirmwareChildResult =
  pr_summary :: "string option"
  pr_result :: "FirmwareChildResult option"
  pr_raw_result_json :: "string option"

definition parse_child_result :: "JobJson \<Rightarrow> string \<Rightarrow> ParsedFirmwareChildResult" where
  "parse_child_result J result_json =
     (if result_json = [] then \<lparr>pr_summary = None, pr_result = None, pr_raw_result_json = None\<rparr>
      else
        (let raw = \<lparr>pr_summary = None, pr_result = None, pr_raw_result_json = Some result_json\<rparr> in
         case jj_from_child J result_json of
           Some result \<Rightarrow>
             (if \<not> child_result_is_empty result
              then \<lparr>pr_summary = child_result_summary result, pr_result = Some result,
                    pr_raw_result_json = None\<rparr>
              else raw)
         | None \<Rightarrow> raw))"

definition firmware_failed_child_detail :: "JobJson \<Rightarrow> FailedChild \<Rightarrow> Value" where
  "firmware_failed_child_detail J child =
     (let parsed = parse_child_result J (fc_result_json child) in
      JObject ([(''job_id'', JString (fc_job_id child)), (''node_id'', JString (fc_node_id child)),
        (''error_code'', JString (job_error_debug (fc_error_code child))),
        (''error'', JString (fc_error_message child))]
        @ opt_field ''summary'' JString (pr_summary parsed)
        @ opt_field ''result'' child_result_value (pr_result parsed)
        @ opt_field ''raw_result_json'' JString (pr_raw_result_json parsed)))"

definition switch_failed_child_detail :: "FailedChild \<Rightarrow> Value" where
  "switch_failed_child_detail child =
     JObject [(''job_id'', JString (fc_job_id child)), (''node_id'', JString (fc_node_id child)),
       (''error'', JString (fc_error_message child))]"

definition parent_failure_result_json ::
  "JobJson \<Rightarrow> JobType \<Rightarrow> nat \<Rightarrow> nat \<Rightarrow> nat \<Rightarrow> nat \<Rightarrow> FailedChild list \<Rightarrow> string" where
  "parent_failure_result_json J job_type completed failed missing n_total failed_children =
     serialize_result_json J (JObject
       [(''completed'', JInt (int completed)), (''failed'', JInt (int failed)),
        (''missing'', JInt (int missing)), (''total'', JInt (int n_total)),
        (''failed_jobs'', JArray (map (case job_type of
             FirmwareUpdate \<Rightarrow> firmware_failed_child_detail J
           | _ \<Rightarrow> switch_failed_child_detail) failed_children))])"

definition fail_parent :: "JobJson \<Rightarrow> clock \<Rightarrow> JobId \<Rightarrow> ParentCounts \<Rightarrow> JobType \<Rightarrow> JobTracker \<Rightarrow> JobTracker" where
  "fail_parent J clk pid c job_type t =
     (let descr = ''Batch complete: '' @ show_nat (pc_completed c) @ ''/'' @ show_nat (pc_total c)
            @ '' succeeded, '' @ show_nat (pc_failed c) @ '' failed'' @ count_fragment (pc_missing c) ''missing'';
          message = show_nat (pc_failed c + pc_missing c) @ '' of '' @ show_nat (pc_total c) @ '' ''
            @ batch_noun_plural job_type @ '' failed'' @ missing_jobs_suffix (pc_missing c);
          result_json = parent_failure_result_json J job_type (pc_completed c) (pc_failed c) (pc_missing c)
            (pc_total c) (pc_failed_children c);
          failure = with_result_json result_json (with_description descr
            (job_failure_new (TypedError JE_Other) message))
      in case hm_get (parent_job_handles t) pid of
           Some h \<Rightarrow> t\<lparr>parent_job_handles := hm_del pid (parent_job_handles t),
                      registry := handle_fail (jj_serde J) (RmsJobDomain J) clk h failure (registry t)\<rparr>
         | None \<Rightarrow> t)"

definition result_is_already_up_to_date :: "JobJson \<Rightarrow> string \<Rightarrow> bool" where
  "result_is_already_up_to_date J result_json \<longleftrightarrow>
     (case jj_from_status J result_json of
        Some status \<Rightarrow> status = Some ''already_up_to_date'' | None \<Rightarrow> False)"

definition count_skipped_children :: "JobJson \<Rightarrow> JobRegistry \<Rightarrow> JobId list \<Rightarrow> nat" where
  "count_skipped_children J r child_ids =
     length (filter (\<lambda>child_id. case registry_get r child_id of
         None \<Rightarrow> False
       | Some child \<Rightarrow> result_is_already_up_to_date J (ji_result_json (snapshot_to_job_info child))) child_ids)"

definition complete_parent ::
  "JobJson \<Rightarrow> clock \<Rightarrow> JobId \<Rightarrow> JobId list \<Rightarrow> nat \<Rightarrow> JobType \<Rightarrow> JobTracker \<Rightarrow> JobTracker" where
  "complete_parent J clk pid child_ids n_total job_type t =
     (let skipped = count_skipped_children J (registry t) child_ids;
          descr = (if skipped = n_total then ''All '' @ show_nat n_total @ '' nodes already up to date''
            else if 0 < skipped then show_nat (n_total - skipped) @ ''/'' @ show_nat n_total @ '' ''
              @ batch_noun_plural job_type @ '' applied, '' @ show_nat skipped @ '' already up to date''
            else ''All '' @ show_nat n_total @ '' '' @ batch_noun_plural job_type @ '' completed successfully'')
      in case hm_get (parent_job_handles t) pid of
           Some h \<Rightarrow> t\<lparr>parent_job_handles := hm_del pid (parent_job_handles t),
                      registry := handle_complete (jj_serde J) (RmsJobDomain J) clk h descr [] (registry t)\<rparr>
         | None \<Rightarrow> t)"

definition refresh_terminal_parent ::
  "JobJson \<Rightarrow> clock \<Rightarrow> JobId \<Rightarrow> JobId list \<Rightarrow> ParentCounts \<Rightarrow> JobType \<Rightarrow> JobTracker \<Rightarrow> JobTracker" where
  "refresh_terminal_parent J clk pid child_ids c job_type t =
     (if 0 < pc_failed c \<or> 0 < pc_missing c then fail_parent J clk pid c job_type t
      else complete_parent J clk pid child_ids (pc_total c) job_type t)"

definition refresh_parent_state :: "JobJson \<Rightarrow> clock \<Rightarrow> JobId \<Rightarrow> JobTracker \<Rightarrow> JobTracker" where
  "refresh_parent_state J clk pid t =
     (case registry_get (registry t) pid of
        None \<Rightarrow> t
      | Some parent \<Rightarrow>
          if \<not> is_parent parent \<or> is_terminal (js_state parent) then t
          else (case js_workflow_type parent of
            None \<Rightarrow> t
          | Some job_type \<Rightarrow>
              (let c = collect_parent_counts (registry t) (js_child_job_ids parent) in
               if pc_total c = 0 then t
               else if counts_done c = pc_total c
               then refresh_terminal_parent J clk pid (js_child_job_ids parent) c job_type t
               else (case hm_get (parent_job_handles t) pid of
                 Some h \<Rightarrow> t\<lparr>registry := fst (handle_progress clk h (running_description c job_type) (registry t))\<rparr>
               | None \<Rightarrow> t\<lparr>registry := fst (mark_running clk pid (running_description c job_type) (registry t))\<rparr>))))"

definition refresh_parent_for_child :: "JobJson \<Rightarrow> clock \<Rightarrow> JobId \<Rightarrow> JobTracker \<Rightarrow> JobTracker" where
  "refresh_parent_for_child J clk child_id t =
     (case parent_for_job (registry t) child_id of
        None \<Rightarrow> t | Some pid \<Rightarrow> refresh_parent_state J clk pid t)"

definition after_job_terminal :: "JobJson \<Rightarrow> clock \<Rightarrow> JobId \<Rightarrow> JobTracker \<Rightarrow> JobTracker" where
  "after_job_terminal J clk jid t = refresh_parent_for_child J clk jid t"

definition refresh_all_parents :: "JobJson \<Rightarrow> clock \<Rightarrow> JobTracker \<Rightarrow> JobTracker" where
  "refresh_all_parents J clk t = fold (refresh_parent_state J clk) (parent_job_ids (registry t)) t"

definition reaper_sweep :: "JobJson \<Rightarrow> clock \<Rightarrow> JobTracker \<Rightarrow> JobTracker" where
  "reaper_sweep J clk t =
     (let t = refresh_all_parents J clk t in t\<lparr>registry := registry_cleanup_expired clk (registry t)\<rparr>)"


section \<open>Creating jobs\<close>

text \<open>
  An admitted job is returned as its handle.  The job type of a job that is not a visible workflow only
  names its tracing span.
\<close>

definition lift_create ::
  "(JobRegistry \<times> JobSnapshot admission) option \<Rightarrow> JobTracker \<Rightarrow> (JobTracker \<times> JobHandle admission) option" where
  "lift_create outcome t =
     map_option (\<lambda>(r, a). (t\<lparr>registry := r\<rparr>, map_admission handle_of a)) outcome"

definition create_job_if_node_idle ::
  "JobJson \<Rightarrow> clock \<Rightarrow> JobId list \<Rightarrow> string \<Rightarrow> string \<Rightarrow> JobType \<Rightarrow> JobTracker
     \<Rightarrow> (JobTracker \<times> JobHandle admission) option" where
  "create_job_if_node_idle J clk draws rack node job_type t =
     lift_create (create_job (RmsJobDomain J) clk draws (job_spec_new rack node ''Queued'') None True (registry t)) t"

definition remove_queued_job :: "string \<Rightarrow> JobTracker \<Rightarrow> JobTracker \<times> bool" where
  "remove_queued_job jid t =
     (let (r, removed) = registry_remove_queued_leaf (JobId jid) (registry t) in (t\<lparr>registry := r\<rparr>, removed))"

definition create_child_job ::
  "JobJson \<Rightarrow> clock \<Rightarrow> JobId list \<Rightarrow> string \<Rightarrow> string \<Rightarrow> string \<Rightarrow> JobType \<Rightarrow> JobTracker
     \<Rightarrow> (JobTracker \<times> JobHandle admission) option" where
  "create_child_job J clk draws parent rack node job_type t =
     (case lift_create (create_job (RmsJobDomain J) clk draws (job_spec_new rack node ''Queued'')
              (Some (JobId parent)) True (registry t)) t of
        None \<Rightarrow> None
      | Some (t, Admitted job) \<Rightarrow> Some (refresh_parent_state J clk (JobId parent) t, Admitted job)
      | Some (t, refused) \<Rightarrow> Some (t, refused))"

record RejectedBatchTarget =
  rb_rack_id :: string
  rb_node_id :: string
  rb_error_message :: string

text \<open>
  The loop of \<open>create_batch_jobs\<close>.  The caller's \<open>check\<close> is an \<open>FnMut\<close>: it threads a state of its own.
  Each target comes with the identifiers drawn for it; a panic in the registry ends the batch.
\<close>

datatype ('p, 's) batch_outcome =
    BatchDone "('p \<times> JobHandle \<times> 's) list" "RejectedBatchTarget list"
  | BatchPanicked

fun batch_admit :: "'p \<times> JobHandle \<times> 's \<Rightarrow> ('p, 's) batch_outcome \<Rightarrow> ('p, 's) batch_outcome" where
  "batch_admit a (BatchDone as rs) = BatchDone (a # as) rs"
| "batch_admit a BatchPanicked = BatchPanicked"

fun batch_reject :: "RejectedBatchTarget \<Rightarrow> ('p, 's) batch_outcome \<Rightarrow> ('p, 's) batch_outcome" where
  "batch_reject x (BatchDone as rs) = BatchDone as (x # rs)"
| "batch_reject x BatchPanicked = BatchPanicked"

definition duplicate_target_message :: "string \<Rightarrow> string \<Rightarrow> string" where
  "duplicate_target_message rack node = ''duplicate target rack_id/node_id: '' @ rack @ ''/'' @ node"

fun create_batch_from ::
  "JobJson \<Rightarrow> clock \<Rightarrow> string \<Rightarrow> JobType \<Rightarrow> ('c \<Rightarrow> 'p \<Rightarrow> 'c \<times> (string + 's)) \<Rightarrow> (string \<times> string) list \<Rightarrow> 'c
     \<Rightarrow> (JobId list \<times> string \<times> string \<times> 'p) list \<Rightarrow> JobTracker
     \<Rightarrow> (JobTracker \<times> ('p, 's) batch_outcome) option" where
  "create_batch_from J clk parent ty check seen st [] t = Some (t, BatchDone [] [])"
| "create_batch_from J clk parent ty check seen st ((draws, rack, node, payload) # targets) t =
     (let reject = (\<lambda>message. batch_reject \<lparr>rb_rack_id = rack, rb_node_id = node, rb_error_message = message\<rparr>) in
      if (rack, node) \<in> set seen then
        map_option (apsnd (reject (duplicate_target_message rack node)))
          (create_batch_from J clk parent ty check seen st targets t)
      else
        (case check st payload of
           (st, Inl message) \<Rightarrow>
             map_option (apsnd (reject message))
               (create_batch_from J clk parent ty check ((rack, node) # seen) st targets t)
         | (st, Inr state) \<Rightarrow>
             (case create_child_job J clk draws parent rack node ty t of
                None \<Rightarrow> None
              | Some (t, Admitted job) \<Rightarrow>
                  map_option (apsnd (batch_admit (payload, job, state)))
                    (create_batch_from J clk parent ty check ((rack, node) # seen) st targets t)
              | Some (t, Refused failure) \<Rightarrow>
                  map_option (apsnd (reject (jf_message failure)))
                    (create_batch_from J clk parent ty check ((rack, node) # seen) st targets t)
              | Some (t, Panicked) \<Rightarrow> Some (t, BatchPanicked))))"

definition create_batch_jobs ::
  "JobJson \<Rightarrow> clock \<Rightarrow> string \<Rightarrow> JobType \<Rightarrow> ('c \<Rightarrow> 'p \<Rightarrow> 'c \<times> (string + 's)) \<Rightarrow> 'c
     \<Rightarrow> (JobId list \<times> string \<times> string \<times> 'p) list \<Rightarrow> JobTracker
     \<Rightarrow> (JobTracker \<times> ('p, 's) batch_outcome) option" where
  "create_batch_jobs J clk parent ty check st targets t =
     create_batch_from J clk parent ty check [] st targets t"

definition create_visible_workflow_job_if_node_idle ::
  "JobJson \<Rightarrow> clock \<Rightarrow> JobId list \<Rightarrow> string \<Rightarrow> string \<Rightarrow> JobType \<Rightarrow> JobTracker
     \<Rightarrow> (JobTracker \<times> JobHandle admission) option" where
  "create_visible_workflow_job_if_node_idle J clk draws rack node job_type t =
     lift_create (create_job (RmsJobDomain J) clk draws
       (with_workflow_type job_type (job_spec_new rack node ''Queued'')) None True (registry t)) t"

definition create_scoped_job ::
  "JobJson \<Rightarrow> clock \<Rightarrow> JobId list \<Rightarrow> string \<Rightarrow> string \<Rightarrow> JobType \<Rightarrow> JobScope list \<Rightarrow> JobTracker
     \<Rightarrow> (JobTracker \<times> JobHandle admission) option" where
  "create_scoped_job J clk draws rack node job_type scopes t =
     lift_create (create_job_with_scopes (RmsJobDomain J) clk draws
       (with_workflow_type job_type (job_spec_new rack node ''Queued'')) None True scopes (registry t)) t"

definition tracker_reserve_mutation ::
  "JobJson \<Rightarrow> JobId list \<Rightarrow> JobScope list \<Rightarrow> JobTracker \<Rightarrow> (JobTracker \<times> (JobFailure + JobId)) option" where
  "tracker_reserve_mutation J draws scopes t =
     map_option (\<lambda>(r, res). (t\<lparr>registry := r\<rparr>, res)) (reserve_mutation (RmsJobDomain J) draws scopes (registry t))"

text \<open>Inserting the parent's handle drops a handle that the map still held under the same identifier.\<close>

definition create_parent_job ::
  "JobJson \<Rightarrow> clock \<Rightarrow> JobId list \<Rightarrow> string \<Rightarrow> JobType \<Rightarrow> JobTracker
     \<Rightarrow> (JobTracker \<times> string option admission) option" where
  "create_parent_job J clk draws rack job_type t =
     (case lift_create (create_job (RmsJobDomain J) clk draws
              (with_workflow_type job_type (job_spec_new_parent rack
                (''Batch '' @ batch_noun job_type @ '' accepting child jobs''))) None False (registry t)) t of
        None \<Rightarrow> None
      | Some (t, Refused _) \<Rightarrow> Some (t, Admitted None)
      | Some (t, Panicked) \<Rightarrow> Some (t, Panicked)
      | Some (t, Admitted h) \<Rightarrow>
          (let pid = jh_job_id h;
               r = (case hm_get (parent_job_handles t) pid of
                      None \<Rightarrow> registry t
                    | Some old \<Rightarrow> drop_handle (jj_serde J) (RmsJobDomain J) clk old (registry t))
           in Some (t\<lparr>parent_job_handles := hm_put pid h (parent_job_handles t), registry := r\<rparr>,
                    Admitted (Some (job_id_str pid)))))"


section \<open>Queries and marks\<close>

definition get_job :: "JobJson \<Rightarrow> clock \<Rightarrow> string \<Rightarrow> JobTracker \<Rightarrow> JobTracker \<times> JobInfo option" where
  "get_job J clk jid t =
     (case registry_get (registry t) (JobId jid) of
        None \<Rightarrow> (t, None)
      | Some job \<Rightarrow>
          (let t = (if is_parent job then refresh_parent_state J clk (JobId jid) t else t)
           in (t, map_option snapshot_to_job_info (registry_get (registry t) (JobId jid)))))"

definition tracker_mark_running :: "clock \<Rightarrow> string \<Rightarrow> string \<Rightarrow> JobTracker \<Rightarrow> JobTracker" where
  "tracker_mark_running clk jid descr t =
     t\<lparr>registry := fst (mark_running clk (JobId jid) descr (registry t))\<rparr>"

definition tracker_mark_completed :: "JobJson \<Rightarrow> clock \<Rightarrow> string \<Rightarrow> string option \<Rightarrow> JobTracker \<Rightarrow> JobTracker" where
  "tracker_mark_completed J clk jid result_json t =
     (case hm_get (parent_job_handles t) (JobId jid) of
        None \<Rightarrow> t
      | Some h \<Rightarrow> after_job_terminal J clk (JobId jid)
          (t\<lparr>parent_job_handles := hm_del (JobId jid) (parent_job_handles t),
             registry := handle_complete (jj_serde J) (RmsJobDomain J) clk h ''Completed''
               (case result_json of None \<Rightarrow> [] | Some s \<Rightarrow> s) (registry t)\<rparr>))"

definition mark_failed_with_result ::
  "JobJson \<Rightarrow> clock \<Rightarrow> string \<Rightarrow> JobError \<Rightarrow> string \<Rightarrow> string option \<Rightarrow> JobTracker \<Rightarrow> JobTracker" where
  "mark_failed_with_result J clk jid error_code error_message result_json t =
     (let failure = with_result_json
            (case result_json of Some s \<Rightarrow> s | None \<Rightarrow> default_failure_result_json J error_code error_message)
            (job_failure_new (TypedError error_code) error_message)
      in case hm_get (parent_job_handles t) (JobId jid) of
           None \<Rightarrow> t
         | Some h \<Rightarrow> after_job_terminal J clk (JobId jid)
             (t\<lparr>parent_job_handles := hm_del (JobId jid) (parent_job_handles t),
                registry := handle_fail (jj_serde J) (RmsJobDomain J) clk h failure (registry t)\<rparr>))"

definition tracker_mark_failed :: "JobJson \<Rightarrow> clock \<Rightarrow> string \<Rightarrow> JobError \<Rightarrow> string \<Rightarrow> JobTracker \<Rightarrow> JobTracker" where
  "tracker_mark_failed J clk jid error_code error_message t =
     mark_failed_with_result J clk jid error_code error_message None t"

definition mark_failed_message_with_result ::
  "JobJson \<Rightarrow> clock \<Rightarrow> string \<Rightarrow> string \<Rightarrow> string option \<Rightarrow> JobTracker \<Rightarrow> JobTracker" where
  "mark_failed_message_with_result J clk jid error_message result_json t =
     mark_failed_with_result J clk jid JE_Other error_message
       (Some (case result_json of None \<Rightarrow> [] | Some s \<Rightarrow> s)) t"

definition mark_failed_message :: "JobJson \<Rightarrow> clock \<Rightarrow> string \<Rightarrow> string \<Rightarrow> JobTracker \<Rightarrow> JobTracker" where
  "mark_failed_message J clk jid error_message t =
     mark_failed_message_with_result J clk jid error_message None t"

text \<open>
  The end of a worker spawned by \<open>spawn_job\<close> that has started: its handle is sealed or dropped first, then the
  guard refreshes the parent.  A worker that is aborted before its first poll drops what its future has
  captured; then the guard may go before the handle, and the refresh sees the job as it was.  With the
  handle first the effect is that of \<open>Ends_dropped\<close>.
\<close>

definition tracker_worker_exit :: "JobJson \<Rightarrow> clock \<Rightarrow> JobHandle \<Rightarrow> worker_end \<Rightarrow> JobTracker \<Rightarrow> JobTracker" where
  "tracker_worker_exit J clk h e t =
     after_job_terminal J clk (jh_job_id h)
       (t\<lparr>registry := end_worker (jj_serde J) (RmsJobDomain J) clk h e (registry t)\<rparr>)"

definition tracker_worker_unstarted :: "JobJson \<Rightarrow> clock \<Rightarrow> JobHandle \<Rightarrow> JobTracker \<Rightarrow> JobTracker" where
  "tracker_worker_unstarted J clk h t =
     (let t = after_job_terminal J clk (jh_job_id h) t in
      t\<lparr>registry := drop_handle (jj_serde J) (RmsJobDomain J) clk h (registry t)\<rparr>)"


section \<open>Shutdown\<close>

definition tracker_shutdown :: "JobTracker \<Rightarrow> JobTracker \<times> nat" where
  "tracker_shutdown t =
     (let (r, jids) = cancel_active_leaves (begin_shutdown (registry t)) in (t\<lparr>registry := r\<rparr>, length jids))"

definition fail_remaining_parents_for_shutdown :: "JobJson \<Rightarrow> clock \<Rightarrow> JobTracker \<Rightarrow> JobTracker" where
  "fail_remaining_parents_for_shutdown J clk t =
     t\<lparr>parent_job_handles := [],
       registry := fold (\<lambda>h r. handle_fail (jj_serde J) (RmsJobDomain J) clk h
                            (shutdown_failure (RmsJobDomain J)) r)
         (map snd (parent_job_handles t)) (registry t)\<rparr>"

definition forced_wait :: "nat \<Rightarrow> nat" where
  "forced_wait timeout = min (timeout div 5) FORCED_TASK_DRAIN_TIMEOUT"

definition cooperative_wait :: "nat \<Rightarrow> nat" where
  "cooperative_wait timeout = timeout - forced_wait timeout * 4"

text \<open>
  During each wait the other tasks run: \<open>env i\<close> is what they do to the tracker in the \<open>i\<close>-th wait and
  \<open>ok i\<close> whether that wait ended before its deadline.
\<close>

definition drain_tasks ::
  "(nat \<Rightarrow> JobTracker \<Rightarrow> JobTracker) \<Rightarrow> (nat \<Rightarrow> bool) \<Rightarrow> (task_ref \<Rightarrow> bool) \<Rightarrow> JobTracker \<Rightarrow> JobTracker" where
  "drain_tasks env ok is_finished t =
     (let ids = task_job_ids (registry t); t = env 1 t in
      if ok 1 then t
      else
        (let t = t\<lparr>registry := abort_workers ids (registry t)\<rparr>; t = env 3 (env 2 t) in
         if \<not> ok 3 \<and> (ok 2 \<or> all_workers_finished is_finished ids (registry t))
         then env 4 (t\<lparr>registry := abort_supervisors ids (registry t)\<rparr>)
         else t))"

definition seal_for_shutdown :: "JobJson \<Rightarrow> clock \<Rightarrow> JobTracker \<Rightarrow> JobTracker" where
  "seal_for_shutdown J clk t =
     (let t = fail_remaining_parents_for_shutdown J clk (refresh_all_parents J clk t);
          t = t\<lparr>registry := fail_non_terminal_for_shutdown (RmsJobDomain J) clk
                  (non_terminal_job_ids (registry t)) (registry t)\<rparr>
      in refresh_all_parents J clk t)"

definition shutdown_and_await_terminal ::
  "JobJson \<Rightarrow> clock \<Rightarrow> (nat \<Rightarrow> JobTracker \<Rightarrow> JobTracker) \<Rightarrow> (nat \<Rightarrow> bool) \<Rightarrow> (task_ref \<Rightarrow> bool) \<Rightarrow> JobTracker
     \<Rightarrow> JobTracker \<times> nat" where
  "shutdown_and_await_terminal J clk env ok is_finished t =
     (let (r, jids) = cancel_active_leaves (begin_shutdown (registry t));
          t = t\<lparr>registry := r\<rparr>;
          t = (if jids = [] then t else env 0 t)
      in (seal_for_shutdown J clk (drain_tasks env ok is_finished t), length jids))"

end
