(* ===== verification/Tracker_Properties.thy ===== *)
theory Tracker_Properties
  imports Job_Tracker
begin

text \<open>
  Properties of the tracker.  Each of its operations is a finite run of registry steps, so what holds of
  every reachable registry holds of a tracker's registry; a refresh seals a parent exactly when its
  children are done; and the shutdown sequence leaves no live job.
\<close>

section \<open>The tracker refines the registry\<close>

abbreviation reg_run :: "JobJson \<Rightarrow> JobRegistry \<Rightarrow> JobRegistry \<Rightarrow> bool" where
  "reg_run J \<equiv> (reg_step (RmsJobDomain J))\<^sup>*\<^sup>*"

named_theorems tracker_runs

lemma reg_run_refl [simp, tracker_runs]: "reg_run J r r"
  by simp

lemma reg_run_trans: "reg_run J r s \<Longrightarrow> reg_run J s u \<Longrightarrow> reg_run J r u"
  by simp

lemma mark_runs [tracker_runs]:
  "reg_run J r (fst (mark_running clk jid d r))"
  "reg_run J r (fst (mark_completed clk jid d json r))"
  "reg_run J r (fst (mark_failed clk jid failure r))"
  by (blast intro: reg_step.intros)+

lemma handle_runs [tracker_runs]:
  "reg_run J r (fst (handle_progress clk h d r))"
  "reg_run J r (drop_handle S D clk h r)"
  "reg_run J r (handle_complete S D clk h d json r)"
  "reg_run J r (handle_fail S D clk h failure r)"
  "reg_run J r (end_worker S D clk h e r)"
  by (cases e; simp add: end_worker_def handle_progress_def drop_handle_def handle_complete_def
      handle_fail_def Let_def tracker_runs)+

lemma refresh_parent_run [tracker_runs]: "reg_run J (registry t) (registry (refresh_parent_state J clk pid t))"
  by (auto simp: refresh_parent_state_def refresh_terminal_parent_def fail_parent_def complete_parent_def
      Let_def tracker_runs split: option.splits)

lemma after_job_terminal_run [tracker_runs]: "reg_run J (registry t) (registry (after_job_terminal J clk jid t))"
  by (simp add: after_job_terminal_def refresh_parent_for_child_def tracker_runs split: option.splits)

lemma reg_run_fold:
  assumes "\<And>x t. reg_run J (p t) (p (f x t))"
  shows "reg_run J (p t) (p (fold f xs t))"
proof (induction xs arbitrary: t)
  case (Cons x xs)
  show ?case using reg_run_trans [OF assms [of t x] Cons.IH [of "f x t"]] by simp
qed simp

lemma refresh_all_run [tracker_runs]: "reg_run J (registry t) (registry (refresh_all_parents J clk t))"
  unfolding refresh_all_parents_def by (rule reg_run_fold) (rule tracker_runs)

lemma create_run:
  assumes "lift_create (create_job_with_scopes (RmsJobDomain J) clk draws spec parent idle scopes (registry t)) t
      = Some (t', out)" "spec_ok spec"
  shows "reg_run J (registry t) (registry t')"
  using assms by (auto simp: lift_create_def intro!: r_into_rtranclp reg_step.create)


lemma child_run [tracker_runs]:
  assumes "create_child_job J clk draws parent rack node ty t = Some (t', out)"
  shows "reg_run J (registry t) (registry t')"
proof -
  obtain u a where u: "lift_create (create_job (RmsJobDomain J) clk draws (job_spec_new rack node ''Queued'')
      (Some (JobId parent)) True (registry t)) t = Some (u, a)"
    using assms by (auto simp: create_child_job_def split: option.splits)
  have "reg_run J (registry t) (registry u)"
    using create_run [OF u [unfolded create_job_def]] by simp
  moreover have "reg_run J (registry u) (registry t')"
    using assms by (auto simp: create_child_job_def u tracker_runs split: admission.splits)
  ultimately show ?thesis by (rule reg_run_trans)
qed

text \<open>The operations of the tracker, and the calls its workers make through their handles.\<close>

definition tracker_init :: "JobTracker \<Rightarrow> bool" where
  "tracker_init t \<longleftrightarrow> (\<exists>job_ttl n. t = with_retention_limits job_ttl n)"

inductive tracker_step :: "JobJson \<Rightarrow> JobTracker \<Rightarrow> JobTracker \<Rightarrow> bool" for J where
  idle: "create_job_if_node_idle J clk draws rack node ty t = Some (t', out) \<Longrightarrow> tracker_step J t t'"
| child: "create_child_job J clk draws parent rack node ty t = Some (t', out) \<Longrightarrow> tracker_step J t t'"
| visible: "create_visible_workflow_job_if_node_idle J clk draws rack node ty t = Some (t', out) \<Longrightarrow> tracker_step J t t'"
| scoped: "create_scoped_job J clk draws rack node ty scopes t = Some (t', out) \<Longrightarrow> tracker_step J t t'"
| parent: "create_parent_job J clk draws rack ty t = Some (t', pid) \<Longrightarrow> tracker_step J t t'"
| reserve: "tracker_reserve_mutation J draws scopes t = Some (t', res) \<Longrightarrow> tracker_step J t t'"
| release: "tracker_step J t (t\<lparr>registry := drop_mutation_reservation own (registry t)\<rparr>)"
| remove_queued: "tracker_step J t (fst (remove_queued_job jid t))"
| lookup: "tracker_step J t (fst (get_job J clk jid t))"
| running: "tracker_step J t (tracker_mark_running clk jid d t)"
| completed: "tracker_step J t (tracker_mark_completed J clk jid json t)"
| failed: "tracker_step J t (mark_failed_with_result J clk jid code message json t)"
| spawn: "tracker_step J t (t\<lparr>registry := fst (register_task jid w sv (registry t))\<rparr>)"
| progress: "tracker_step J t (t\<lparr>registry := fst (handle_progress clk h d (registry t))\<rparr>)"
| worker_exit: "tracker_step J t (tracker_worker_exit J clk h e t)"
| worker_unstarted: "tracker_step J t (tracker_worker_unstarted J clk h t)"
| supervisor_exit: "tracker_step J t (t\<lparr>registry := drop_task_registration h (registry t)\<rparr>)"
| sweep: "tracker_step J t (reaper_sweep J clk t)"
| shutdown: "tracker_step J t (fst (tracker_shutdown t))"
| abort_w: "tracker_step J t (t\<lparr>registry := abort_workers jids (registry t)\<rparr>)"
| abort_s: "tracker_step J t (t\<lparr>registry := abort_supervisors jids (registry t)\<rparr>)"
| seal: "tracker_step J t (seal_for_shutdown J clk t)"

lemma parent_run:
  assumes "create_parent_job J clk draws rack ty t = Some (t', out)"
  shows "reg_run J (registry t) (registry t')"
proof -
  let ?spec = "with_workflow_type ty (job_spec_new_parent rack (''Batch '' @ batch_noun ty @ '' accepting child jobs''))"
  obtain u a where u: "lift_create (create_job (RmsJobDomain J) clk draws ?spec None False (registry t)) t = Some (u, a)"
    using assms by (auto simp: create_parent_job_def split: option.splits)
  have "reg_run J (registry t) (registry u)"
    using create_run [OF u [unfolded create_job_def]] by simp
  moreover have "reg_run J (registry u) (registry t')"
    using assms unfolding create_parent_job_def u by (auto simp: Let_def tracker_runs split: admission.splits option.splits)
  ultimately show ?thesis by (rule reg_run_trans)
qed

lemma after_run: "reg_run J r (registry t) \<Longrightarrow> reg_run J r (registry (after_job_terminal J clk jid t))"
  by (rule reg_run_trans [OF _ after_job_terminal_run])

lemma mark_terminal_runs:
  "reg_run J (registry t) (registry (tracker_mark_completed J clk jid json t))"
  "reg_run J (registry t) (registry (mark_failed_with_result J clk jid code message json t))"
  "reg_run J (registry t) (registry (tracker_worker_exit J clk h e t))"
  by (auto simp: tracker_mark_completed_def mark_failed_with_result_def tracker_worker_exit_def Let_def tracker_runs
      split: option.splits intro!: after_run)

lemma unstarted_run: "reg_run J (registry t) (registry (tracker_worker_unstarted J clk h t))"
  unfolding tracker_worker_unstarted_def Let_def
  by (rule reg_run_trans [OF after_job_terminal_run [of J t clk "jh_job_id h"]]) (simp add: tracker_runs)

lemma fail_parents_run: "reg_run J (registry t) (registry (fail_remaining_parents_for_shutdown J clk t))"
  unfolding fail_remaining_parents_for_shutdown_def
  by simp (rule reg_run_fold [where p = "\<lambda>r. r"], rule tracker_runs)

lemma seal_run: "reg_run J (registry t) (registry (seal_for_shutdown J clk t))"
proof -
  have "reg_run J r (fail_non_terminal_for_shutdown (RmsJobDomain J) clk jids r)" for jids r
    unfolding fail_non_terminal_for_shutdown_def
    by (rule reg_run_fold [where p = "\<lambda>r. r"], rule tracker_runs)
  then show ?thesis
    unfolding seal_for_shutdown_def Let_def
    by (intro reg_run_trans [OF reg_run_trans [OF reg_run_trans [OF refresh_all_run fail_parents_run]] refresh_all_run]) simp
qed

lemma tracker_step_run:
  assumes "tracker_step J t t'"
  shows "reg_run J (registry t) (registry t')"
  using assms
proof cases
  case lookup
  then show ?thesis by (simp add: get_job_def Let_def tracker_runs split: option.splits)
next
  case (sweep clk)
  have "reg_step (RmsJobDomain J) (registry (refresh_all_parents J clk t)) (registry t')"
    unfolding sweep reaper_sweep_def Let_def by (simp add: reg_step.cleanup)
  with refresh_all_run show ?thesis by (rule rtranclp.rtrancl_into_rtrancl)
next
  case shutdown
  have "reg_run J (registry t) (begin_shutdown (registry t))" by (blast intro: reg_step.shutdown)
  moreover have "reg_step (RmsJobDomain J) (begin_shutdown (registry t)) (registry t')"
    unfolding shutdown tracker_shutdown_def by (simp add: case_prod_beta Let_def reg_step.cancel_leaves)
  ultimately show ?thesis by simp
next
  case (remove_queued jid)
  have "registry t' = fst (registry_remove_queued_leaf (JobId jid) (registry t))"
    by (simp add: remove_queued remove_queued_job_def case_prod_beta Let_def)
  then show ?thesis using reg_step.remove_queued by auto
next
  case (reserve draws scopes res)
  then show ?thesis by (auto simp: tracker_reserve_mutation_def dest: reg_step.reserve)
qed (auto simp: create_job_if_node_idle_def create_visible_workflow_job_if_node_idle_def create_scoped_job_def
    create_job_def tracker_mark_running_def drop_task_registration_def tracker_runs
    intro: create_run child_run parent_run mark_terminal_runs unstarted_run seal_run r_into_rtranclp reg_step.intros)

interpretation tracker_refines: simulated_system tracker_init "tracker_step J" registry_init
  "reg_step (RmsJobDomain J)" registry for J
proof unfold_locales
  show "tracker_init t \<Longrightarrow> registry_init (registry t)" for t
    unfolding tracker_init_def registry_init_def with_retention_limits_def by auto blast
  show "tracker_step J t t' \<Longrightarrow> reg_run J (registry t) (registry t')" for t t' by (rule tracker_step_run)
qed

lemma batch_run:
  assumes "create_batch_from J clk parent ty check seen st targets t = Some (t', out)"
  shows "(tracker_step J)\<^sup>*\<^sup>* t t'"
  using assms
proof (induction J clk parent ty check seen st targets t arbitrary: t' out rule: create_batch_from.induct)
  case (2 J clk parent ty check seen st draws rack node payload targets t)
  show ?case
  proof (cases "(rack, node) \<in> set seen")
    case True
    with 2 show ?thesis by (auto simp: Let_def)
  next
    case False
    obtain st' v where c: "check st payload = (st', v)" by (cases "check st payload")
    show ?thesis
    proof (cases v)
      case (Inl m)
      with 2 False c show ?thesis by (auto simp: Let_def)
    next
      case (Inr s)
      obtain u a where u: "create_child_job J clk draws parent rack node ty t = Some (u, a)"
        using 2(5) False c Inr by (auto simp: Let_def split: option.splits)
      have "(tracker_step J)\<^sup>*\<^sup>* u t'"
        using 2(3,4) [OF refl False c [symmetric] Inr u] 2(5) False c Inr u
        by (cases a) (auto simp: Let_def)
      with tracker_step.child [OF u] show ?thesis by (rule converse_rtranclp_into_rtranclp)
    qed
  qed
qed simp


section \<open>Counting children\<close>

definition child_done :: "JobRegistry \<Rightarrow> JobId \<Rightarrow> bool" where
  "child_done r cid = (case registry_get r cid of None \<Rightarrow> True | Some job \<Rightarrow> is_terminal (js_state job))"

fun is_completed :: "JobLifecycleState \<Rightarrow> bool" where
  "is_completed (Completed _ _) = True"
| "is_completed _ = False"

definition child_completed :: "JobRegistry \<Rightarrow> JobId \<Rightarrow> bool" where
  "child_completed r cid = (case registry_get r cid of None \<Rightarrow> False | Some job \<Rightarrow> is_completed (js_state job))"

lemma collect_counts:
  "counts_done (collect_parent_counts r ids) = length (filter (child_done r) ids)"
  "pc_completed (collect_parent_counts r ids) = length (filter (child_completed r) ids)"
  "pc_total (collect_parent_counts r ids) = length ids"
  "pc_running (collect_parent_counts r ids) + pc_queued (collect_parent_counts r ids)
     + counts_done (collect_parent_counts r ids) = length ids"
proof -
  let ?f = "\<lambda>child_id c. case registry_get r child_id of
             None \<Rightarrow> c\<lparr>pc_missing := pc_missing c + 1\<rparr> | Some child \<Rightarrow> count_child child c"
  have "counts_done (fold ?f ids c) = counts_done c + length (filter (child_done r) ids) \<and>
    pc_completed (fold ?f ids c) = pc_completed c + length (filter (child_completed r) ids) \<and>
    pc_total (fold ?f ids c) = pc_total c \<and>
    pc_running (fold ?f ids c) + pc_queued (fold ?f ids c) + counts_done (fold ?f ids c) =
      pc_running c + pc_queued c + counts_done c + length ids" for c
  proof (induction ids arbitrary: c)
    case (Cons a ids)
    have "counts_done (?f a c) = counts_done c + (if child_done r a then 1 else 0)"
      "pc_completed (?f a c) = pc_completed c + (if child_completed r a then 1 else 0)"
      "pc_total (?f a c) = pc_total c"
      "pc_running (?f a c) + pc_queued (?f a c) + counts_done (?f a c) =
         pc_running c + pc_queued c + counts_done c + 1"
      by (auto simp: counts_done_def child_done_def child_completed_def count_child_def
          split: option.splits JobLifecycleState.splits)
    with Cons.IH [of "?f a c"] show ?case by simp
  qed simp
  from this [of "\<lparr>pc_total = length ids, pc_completed = 0, pc_failed = 0, pc_running = 0, pc_queued = 0,
        pc_missing = 0, pc_failed_children = []\<rparr>"]
  show "counts_done (collect_parent_counts r ids) = length (filter (child_done r) ids)"
    "pc_completed (collect_parent_counts r ids) = length (filter (child_completed r) ids)"
    "pc_total (collect_parent_counts r ids) = length ids"
    "pc_running (collect_parent_counts r ids) + pc_queued (collect_parent_counts r ids)
     + counts_done (collect_parent_counts r ids) = length ids"
    by (simp_all add: collect_parent_counts_def counts_done_def)
qed

lemma length_filter_all: "length (filter P xs) = length xs \<longleftrightarrow> list_all P xs"
proof (induction xs)
  case (Cons x xs)
  have "length (filter P xs) < Suc (length xs)" by (simp add: le_imp_less_Suc)
  with Cons show ?case by auto
qed simp

lemma counts_all_done:
  "counts_done (collect_parent_counts r ids) = pc_total (collect_parent_counts r ids) \<longleftrightarrow> list_all (child_done r) ids"
  by (simp add: collect_counts(1,3) length_filter_all)

lemma counts_all_completed:
  assumes "list_all (child_done r) ids"
  shows "(0 < pc_failed (collect_parent_counts r ids) \<or> 0 < pc_missing (collect_parent_counts r ids)) \<longleftrightarrow>
    \<not> list_all (child_completed r) ids"
proof -
  let ?c = "collect_parent_counts r ids"
  have "pc_completed ?c + pc_failed ?c + pc_missing ?c = length ids"
    using assms counts_all_done [of r ids] by (simp add: counts_done_def collect_counts(3))
  moreover have "pc_completed ?c = length ids \<longleftrightarrow> list_all (child_completed r) ids"
    by (simp add: collect_counts(2) length_filter_all)
  ultimately show ?thesis by linarith
qed


section \<open>A sample batch\<close>

text \<open>One parent and a batch of two targets on the same node: the first is admitted, the second refused.\<close>

definition sample_json :: JobJson where
  "sample_json = \<lparr>jj_serde = sample_serde, jj_to_string = (\<lambda>v. Some (show_value sample_serde v)),
     jj_from_status = (\<lambda>_. None), jj_from_child = (\<lambda>_. None)\<rparr>"

definition tick :: "nat \<Rightarrow> clock" where
  "tick n = \<lparr>utc_now = int n, instant_now = n\<rparr>"

definition tracker_parent :: JobTracker where
  "tracker_parent = fst (the (create_parent_job sample_json (tick 1) [JobId ''p''] ''R'' FirmwareUpdate
     (with_retention_limits 60 4)))"

definition sample_targets :: "(JobId list \<times> string \<times> string \<times> nat) list" where
  "sample_targets = [([JobId ''a''], ''R'', ''N'', 1), ([JobId ''b''], ''R'', ''N'', 2)]"

definition sample_check :: "unit \<Rightarrow> nat \<Rightarrow> unit \<times> (string + nat)" where
  "sample_check u n = (u, Inr (n + 10))"

definition tracker_batch :: JobTracker where
  "tracker_batch = fst (the (create_batch_jobs sample_json (tick 2) ''p'' FirmwareUpdate sample_check ()
     sample_targets tracker_parent))"

definition sample_admitted :: "(nat \<times> JobHandle \<times> nat) list" where
  "sample_admitted = [(1, job_handle_new (JobId ''a'') 1, 11)]"

definition sample_rejected :: "RejectedBatchTarget list" where
  "sample_rejected = [\<lparr>rb_rack_id = ''R'', rb_node_id = ''N'',
     rb_error_message = ''duplicate target rack_id/node_id: R/N''\<rparr>]"

lemma tracker_batch_eq:
  "create_batch_jobs sample_json (tick 2) ''p'' FirmwareUpdate sample_check () sample_targets tracker_parent =
     Some (tracker_batch, BatchDone sample_admitted sample_rejected)"
proof -
  have "map_option snd (create_batch_jobs sample_json (tick 2) ''p'' FirmwareUpdate sample_check () sample_targets
      tracker_parent) = Some (BatchDone sample_admitted sample_rejected)" by code_simp
  then show ?thesis by (auto simp: tracker_batch_def)
qed

lemma reach_parent: "reach tracker_init (tracker_step sample_json) tracker_parent"
proof -
  have "create_parent_job sample_json (tick 1) [JobId ''p''] ''R'' FirmwareUpdate (with_retention_limits 60 4) \<noteq> None"
    by code_simp
  then obtain out where "create_parent_job sample_json (tick 1) [JobId ''p''] ''R'' FirmwareUpdate
      (with_retention_limits 60 4) = Some (tracker_parent, out)" by (auto simp: tracker_parent_def)
  moreover have "tracker_init (with_retention_limits 60 4)" unfolding tracker_init_def by blast
  ultimately show ?thesis by (blast intro: reach.intros tracker_step.parent)
qed

lemma reach_batch: "reach tracker_init (tracker_step sample_json) tracker_batch"
  using reach_run [OF reach_parent batch_run [OF tracker_batch_eq [unfolded create_batch_jobs_def]]] .

abbreviation batch_parent :: JobSnapshot where
  "batch_parent \<equiv> the (registry_get (registry tracker_batch) (JobId ''p''))"

abbreviation batch_child :: JobSnapshot where
  "batch_child \<equiv> the (registry_get (registry tracker_batch) (JobId ''a''))"

lemma batch_facts:
  "registry_get (registry tracker_batch) (JobId ''p'') = Some batch_parent"
  "registry_get (registry tracker_batch) (JobId ''a'') = Some batch_child"
  "\<not> is_terminal (js_state batch_parent)" "is_parent batch_parent" "js_workflow_type batch_parent = Some FirmwareUpdate"
  "hm_get (parent_job_handles tracker_batch) (JobId ''p'') = Some (job_handle_new (JobId ''p'') 0)"
  "js_parent_job_id batch_child = Some (JobId ''p'')" "js_child_job_ids batch_parent = [JobId ''a'']"
  "\<not> child_done (registry tracker_batch) (JobId ''a'')"
  by code_simp+

section \<open>Sealing a parent\<close>

lemma get_handle_ops:
  assumes "registry_get r (jh_job_id h) = Some job" "\<not> is_terminal (js_state job)"
  shows "registry_get (handle_complete S D clk h d json r) k =
      (if k = jh_job_id h then Some (touch clk (job\<lparr>js_state := Completed d (result_with_metadata S h json)\<rparr>))
       else registry_get r k)"
    "registry_get (handle_fail S D clk h failure r) k =
      (if k = jh_job_id h then Some (touch clk (job\<lparr>js_state := failed_state (failure_with_metadata S h failure)\<rparr>))
       else registry_get r k)"
    "registry_get (fst (handle_progress clk h d r)) k =
      (if k = jh_job_id h then Some (touch clk (job\<lparr>js_state := Running d\<rparr>)) else registry_get r k)"
  using assms by (auto simp: handle_complete_def handle_fail_def handle_progress_def drop_handle_def get_marks
      split: option.splits)

lemma is_completed_failed_state [simp]: "\<not> is_completed (failed_state failure)"
  by (simp add: failed_state_def)

lemma refresh_parent_outcome:
  assumes parent: "registry_get (registry t) pid = Some parent" "\<not> is_terminal (js_state parent)"
      "is_parent parent" "js_workflow_type parent = Some ty"
    and h: "hm_get (parent_job_handles t) pid = Some h" "jh_job_id h = pid"
  shows "\<exists>new. registry_get (registry (refresh_parent_state J clk pid t)) pid = Some new \<and>
    (is_terminal (js_state new) \<longleftrightarrow> list_all (child_done (registry t)) (js_child_job_ids parent)) \<and>
    (is_completed (js_state new) \<longleftrightarrow> list_all (child_completed (registry t)) (js_child_job_ids parent)) \<and>
    (\<not> is_terminal (js_state new) \<longrightarrow> js_state new =
      Running (running_description (collect_parent_counts (registry t) (js_child_job_ids parent)) ty)) \<and>
    (\<forall>k. k \<noteq> pid \<longrightarrow>
      registry_get (registry (refresh_parent_state J clk pid t)) k = registry_get (registry t) k)"
proof -
  let ?r = "registry t" and ?ids = "js_child_job_ids parent"
  let ?c = "collect_parent_counts ?r ?ids"
  have nonempty: "pc_total ?c \<noteq> 0" using parent(3) by (simp add: collect_counts(3) is_parent_def)
  have sub: "list_all (child_completed ?r) ?ids \<Longrightarrow> list_all (child_done ?r) ?ids"
    by (auto simp: list_all_iff child_completed_def child_done_def split: option.splits)
      (metis is_completed.elims(2) is_terminal.simps(1))
  note ops = get_handle_ops [of ?r h parent, unfolded h(2), OF parent(1,2)]
  note unf = refresh_parent_state_def parent h Let_def nonempty counts_all_done
  consider (live) "\<not> list_all (child_done ?r) ?ids"
    | (good) "list_all (child_done ?r) ?ids" "list_all (child_completed ?r) ?ids"
    | (bad) "list_all (child_done ?r) ?ids" "\<not> list_all (child_completed ?r) ?ids" by blast
  then show ?thesis
  proof cases
    case live
    with sub show ?thesis by (auto simp: unf ops)
  next
    case good
    then show ?thesis
      using counts_all_completed [OF good(1)] by (simp add: unf refresh_terminal_parent_def complete_parent_def ops)
  next
    case bad
    then show ?thesis
      using counts_all_completed [OF bad(1)] by (simp add: unf refresh_terminal_parent_def fail_parent_def ops)
  qed
qed

text \<open>C23. Refreshing a live batch parent whose handle the tracker owns: the parent becomes terminal exactly
  when every child is terminal or gone, it is completed exactly when every child completed, it stays
  running with the progress text otherwise, and no other job changes.\<close>

theorem refresh_seals_parent:
  assumes parent: "registry_get (registry t) pid = Some parent" "\<not> is_terminal (js_state parent)"
      "is_parent parent" "js_workflow_type parent = Some ty"
    and h: "hm_get (parent_job_handles t) pid = Some h" "jh_job_id h = pid"
  shows "\<exists>new. registry_get (registry (refresh_parent_state J clk pid t)) pid = Some new \<and>
    (is_terminal (js_state new) \<longleftrightarrow> list_all (child_done (registry t)) (js_child_job_ids parent)) \<and>
    (is_completed (js_state new) \<longleftrightarrow> list_all (child_completed (registry t)) (js_child_job_ids parent)) \<and>
    (\<not> is_terminal (js_state new) \<longrightarrow> js_state new =
      Running (running_description (collect_parent_counts (registry t) (js_child_job_ids parent)) ty)) \<and>
    (\<forall>k. k \<noteq> pid \<longrightarrow>
      registry_get (registry (refresh_parent_state J clk pid t)) k = registry_get (registry t) k)"
  using assms by (rule refresh_parent_outcome)

theorem refresh_seals_parent_witness:
  "\<exists>new. registry_get (registry (refresh_parent_state sample_json (tick 3) (JobId ''p'') tracker_batch)) (JobId ''p'')
     = Some new \<and> \<not> is_terminal (js_state new)"
  using refresh_seals_parent [OF batch_facts(1,3,4,5,6), of sample_json "tick 3"] batch_facts(8,9)
  by (auto simp: job_handle_new_def)

lemma end_worker_get:
  assumes "registry_get r (jh_job_id h) = Some job" "\<not> jh_finished h"
  shows "\<exists>new. registry_get (end_worker S D clk h e r) (jh_job_id h) = Some new \<and>
      is_terminal (js_state new) \<and> js_parent_job_id new = js_parent_job_id job"
    "k \<noteq> jh_job_id h \<Longrightarrow> registry_get (end_worker S D clk h e r) k = registry_get r k"
  using assms by (cases e; auto simp: end_worker_def handle_complete_def handle_fail_def drop_handle_def get_marks
      Let_def split: option.splits)+

text \<open>C24. The last worker seals the batch: when a started worker of a child ends in any way, its own job is
  terminal, and if the other children of its parent were done the parent is terminal too, without any
  status query.\<close>

theorem last_worker_seals_parent:
  assumes child: "registry_get (registry t) (jh_job_id h) = Some child" "\<not> jh_finished h"
      "js_parent_job_id child = Some pid" "pid \<noteq> jh_job_id h"
    and parent: "registry_get (registry t) pid = Some parent" "\<not> is_terminal (js_state parent)"
      "is_parent parent" "js_workflow_type parent = Some ty"
    and own: "hm_get (parent_job_handles t) pid = Some ph" "jh_job_id ph = pid"
    and others: "\<forall>cid \<in> set (js_child_job_ids parent). cid = jh_job_id h \<or> child_done (registry t) cid"
  shows "(\<exists>new. registry_get (registry (tracker_worker_exit J clk h e t)) (jh_job_id h) = Some new \<and>
      is_terminal (js_state new)) \<and>
    (\<exists>new. registry_get (registry (tracker_worker_exit J clk h e t)) pid = Some new \<and> is_terminal (js_state new))"
proof -
  let ?u = "t\<lparr>registry := end_worker (jj_serde J) (RmsJobDomain J) clk h e (registry t)\<rparr>"
  obtain c where c: "registry_get (registry ?u) (jh_job_id h) = Some c" "is_terminal (js_state c)"
      "js_parent_job_id c = Some pid"
    using end_worker_get(1) [OF child(1,2), of "jj_serde J" "RmsJobDomain J" clk e] child(3) by auto
  have frame: "registry_get (registry ?u) k = registry_get (registry t) k" if "k \<noteq> jh_job_id h" for k
    using end_worker_get(2) [OF child(1,2) that] by simp
  have p: "registry_get (registry ?u) pid = Some parent" using frame [OF child(4)] parent(1) by simp
  have "child_done (registry ?u) cid" if "cid = jh_job_id h \<or> child_done (registry t) cid" for cid
    using that c(1,2) frame [of cid] by (cases "cid = jh_job_id h") (simp_all add: child_done_def)
  then have "list_all (child_done (registry ?u)) (js_child_job_ids parent)"
    using others by (simp add: list_all_iff)
  with refresh_parent_outcome [OF p parent(2-4), of ph J clk] own
  obtain new where new: "registry_get (registry (refresh_parent_state J clk pid ?u)) pid = Some new"
      "is_terminal (js_state new)"
      "\<And>k. k \<noteq> pid \<Longrightarrow> registry_get (registry (refresh_parent_state J clk pid ?u)) k = registry_get (registry ?u) k"
    by auto
  have "tracker_worker_exit J clk h e t = refresh_parent_state J clk pid ?u"
    using c(1,3) by (simp add: tracker_worker_exit_def after_job_terminal_def refresh_parent_for_child_def
        parent_for_job_def registry_get_def)
  with new c child(4) show ?thesis by metis
qed

theorem last_worker_seals_parent_witness:
  "\<exists>new. registry_get (registry (tracker_worker_exit sample_json (tick 3) (job_handle_new (JobId ''a'') 1)
       Ends_dropped tracker_batch)) (JobId ''p'') = Some new \<and> is_terminal (js_state new)"
  using last_worker_seals_parent [of tracker_batch "job_handle_new (JobId ''a'') 1" batch_child "JobId ''p''"
      batch_parent FirmwareUpdate "job_handle_new (JobId ''p'') 0" sample_json "tick 3" Ends_dropped] batch_facts
  by (simp add: job_handle_new_def)


section \<open>Shutdown\<close>

lemma fold_mark_failed_terminal:
  assumes "registry_get (fold (\<lambda>jid r. fst (mark_failed clk jid failure r)) jids r) k = Some new"
  shows "\<exists>job. registry_get r k = Some job \<and> (k \<in> set jids \<or> is_terminal (js_state job) \<longrightarrow> is_terminal (js_state new))"
  using assms
proof (induction jids arbitrary: r)
  case (Cons a jids)
  from Cons.IH [of "fst (mark_failed clk a failure r)"] Cons.prems
  show ?case by (auto simp: get_marks split: option.splits if_splits)
qed simp

lemma all_non_terminal_listed:
  assumes "registry_inv r" "registry_get r k = Some job" "\<not> is_terminal (js_state job)"
  shows "k \<in> set (non_terminal_job_ids r)"
proof -
  have s: "store_inv (jobs r)" using assms(1) by (simp add: registry_inv_def)
  have g: "hm_get (by_id (jobs r)) k = Some job" using assms(2) by (simp add: registry_get_def get_def)
  have "job \<in> set (snapshots (jobs r))" using hm_get_in [OF g] by (force simp: snapshots_def)
  moreover have "js_job_id job = k" using store_inv_D(9) [OF s g] .
  ultimately show ?thesis using assms(3) by (force simp: non_terminal_job_ids_def)
qed

definition all_terminal :: "JobRegistry \<Rightarrow> bool" where
  "all_terminal r \<longleftrightarrow> (\<forall>k job. registry_get r k = Some job \<longrightarrow> is_terminal (js_state job))"

lemma refresh_all_terminal:
  assumes "all_terminal (registry t)"
  shows "refresh_all_parents J clk t = t"
proof -
  have "refresh_parent_state J clk pid t = t" for pid
    using assms by (auto simp: refresh_parent_state_def all_terminal_def split: option.splits)
  then have "fold (refresh_parent_state J clk) pids t = t" for pids by (induction pids) simp_all
  then show ?thesis by (simp add: refresh_all_parents_def)
qed

lemma seal_for_shutdown_all:
  assumes "registry_inv (registry t)"
  shows "all_terminal (registry (seal_for_shutdown J clk t)) \<and> parent_job_handles (seal_for_shutdown J clk t) = []"
proof -
  let ?a = "fail_remaining_parents_for_shutdown J clk (refresh_all_parents J clk t)"
  let ?b = "?a\<lparr>registry := fail_non_terminal_for_shutdown (RmsJobDomain J) clk
                  (non_terminal_job_ids (registry ?a)) (registry ?a)\<rparr>"
  have "reg_run J (registry t) (registry ?a)" by (rule reg_run_trans [OF refresh_all_run fail_parents_run])
  then have inv: "registry_inv (registry ?a)" using reg.run_inv assms by blast
  have "all_terminal (registry ?b)"
    unfolding all_terminal_def
  proof (intro allI impI)
    fix k new assume "registry_get (registry ?b) k = Some new"
    then have "registry_get (fold (\<lambda>jid r. fst (mark_failed clk jid (shutdown_failure (RmsJobDomain J)) r))
        (non_terminal_job_ids (registry ?a)) (registry ?a)) k = Some new"
      by (simp add: fail_non_terminal_for_shutdown_def)
    from fold_mark_failed_terminal [OF this]
    show "is_terminal (js_state new)" using all_non_terminal_listed [OF inv] by blast
  qed
  moreover have "parent_job_handles ?b = []" by (simp add: fail_remaining_parents_for_shutdown_def)
  moreover have "seal_for_shutdown J clk t = refresh_all_parents J clk ?b"
    by (simp add: seal_for_shutdown_def Let_def)
  ultimately show ?thesis using refresh_all_terminal by metis
qed


lemma drain_tasks_run:
  assumes env: "\<And>i u. (tracker_step J)\<^sup>*\<^sup>* u (env i u)"
  shows "(tracker_step J)\<^sup>*\<^sup>* t (drain_tasks env ok is_finished t)"
proof -
  let ?w = "\<lambda>u. u\<lparr>registry := abort_workers (task_job_ids (registry t)) (registry u)\<rparr>"
  let ?s = "\<lambda>u. u\<lparr>registry := abort_supervisors (task_job_ids (registry t)) (registry u)\<rparr>"
  have w: "(tracker_step J)\<^sup>*\<^sup>* u (?w u)" and s: "(tracker_step J)\<^sup>*\<^sup>* u (?s u)" for u
    by (blast intro: tracker_step.abort_w tracker_step.abort_s)+
  let ?x = "env 3 (env 2 (?w (env 1 t)))"
  have x: "(tracker_step J)\<^sup>*\<^sup>* t ?x"
    by (rule rtranclp_trans [OF rtranclp_trans [OF rtranclp_trans [OF env [of t 1] w] env [of _ 2]] env [of _ 3]])
  have "(tracker_step J)\<^sup>*\<^sup>* t (env 4 (?s ?x))"
    by (rule rtranclp_trans [OF rtranclp_trans [OF x s] env [of _ 4]])
  with x env [of t 1] show ?thesis by (simp add: drain_tasks_def Let_def)
qed

text \<open>C25. The shutdown sequence always ends with every tracked job terminal, no parent handle left and
  admission closed, whatever the other tasks do during its five waits and whichever of the waits time out.\<close>

theorem shutdown_leaves_no_live_job:
  assumes reach: "reach tracker_init (tracker_step J) t"
    and env: "\<And>i u. (tracker_step J)\<^sup>*\<^sup>* u (env i u)"
    and res: "shutdown_and_await_terminal J clk env ok is_finished t = (t', n)"
  shows "(\<forall>k job. registry_get (registry t') k = Some job \<longrightarrow> is_terminal (js_state job)) \<and>
    parent_job_handles t' = [] \<and> shutting_down (registry t')"
proof -
  let ?a = "fst (tracker_shutdown t)"
  let ?b = "if snd (cancel_active_leaves (begin_shutdown (registry t))) = [] then ?a else env 0 ?a"
  let ?c = "drain_tasks env ok is_finished ?b"
  have t': "t' = seal_for_shutdown J clk ?c"
    using res by (auto simp: shutdown_and_await_terminal_def tracker_shutdown_def case_prod_beta Let_def)
  have step: "tracker_step J t ?a" by (rule tracker_step.shutdown)
  have run: "(tracker_step J)\<^sup>*\<^sup>* ?a ?c"
    by (rule rtranclp_trans [OF _ drain_tasks_run [OF env]]) (simp add: env)
  have inv: "registry_inv (registry ?a)"
    by (rule reg.reach_inv [OF tracker_refines.sim_reach [OF reach.reach_step [OF reach step]]])
  have sd: "shutting_down (registry ?a)"
    using registry_le_keeps [OF cancel_active_leaves_keeps [OF registry_inv_keeps [OF _ shutdown_keeps]]]
      reg.reach_inv [OF tracker_refines.sim_reach [OF reach]]
    by (simp add: tracker_shutdown_def case_prod_beta Let_def registry_le_def begin_shutdown_def)
  have "reg_run J (registry ?a) (registry t')"
    unfolding t' using tracker_refines.sim_run [OF run] seal_run by (rule reg_run_trans)
  then have "shutting_down (registry t')" using reg.run_ord [OF _ inv] sd by (auto simp: registry_le_def)
  moreover have "registry_inv (registry ?c)" using reg.run_inv [OF tracker_refines.sim_run [OF run] inv] .
  ultimately show ?thesis using seal_for_shutdown_all [of ?c J clk] by (simp add: t' all_terminal_def)
qed

theorem shutdown_leaves_no_live_job_witness:
  "\<not> is_terminal (js_state batch_child) \<and>
   (\<exists>job. registry_get (registry (fst (shutdown_and_await_terminal sample_json (tick 3) (\<lambda>i u. u) (\<lambda>i. False)
      (\<lambda>w. True) tracker_batch))) (JobId ''a'') = Some job \<and> is_terminal (js_state job))"
proof -
  have "\<not> is_terminal (js_state batch_child)"
    "registry_get (registry (fst (shutdown_and_await_terminal sample_json (tick 3) (\<lambda>i u. u) (\<lambda>i. False)
      (\<lambda>w. True) tracker_batch))) (JobId ''a'') \<noteq> None" by code_simp+
  then show ?thesis
    using shutdown_leaves_no_live_job [OF reach_batch rtranclp.rtrancl_refl prod.collapse [symmetric]] by blast
qed


section \<open>Batches and bounds\<close>

abbreviation target_node :: "JobId list \<times> string \<times> string \<times> 'p \<Rightarrow> string \<times> string" where
  "target_node x \<equiv> (fst (snd x), fst (snd (snd x)))"

abbreviation target_payload :: "JobId list \<times> string \<times> string \<times> 'p \<Rightarrow> 'p" where
  "target_payload x \<equiv> snd (snd (snd x))"

abbreviation rejected_node :: "RejectedBatchTarget \<Rightarrow> string \<times> string" where
  "rejected_node x \<equiv> (rb_rack_id x, rb_node_id x)"

definition batch_ok :: "(string \<times> string) set \<Rightarrow> (JobId list \<times> string \<times> string \<times> 'p) list \<Rightarrow>
    ('p \<times> JobHandle \<times> 's) list \<Rightarrow> RejectedBatchTarget list \<Rightarrow> bool" where
  "batch_ok seen targets admitted rejected \<longleftrightarrow>
     length admitted + length rejected = length targets \<and>
     subseq (map fst admitted) (map target_payload targets) \<and>
     subseq (map rejected_node rejected) (map target_node targets) \<and>
     length admitted \<le> card (target_node ` set targets - seen)"

lemma batch_ok_reject:
  assumes "batch_ok seen' targets as rs" "seen \<subseteq> seen'" "rejected_node x = target_node y"
  shows "batch_ok seen (y # targets) as (x # rs)"
proof -
  have "card (target_node ` set targets - seen') \<le> card (target_node ` set (y # targets) - seen)"
    by (rule card_mono) (use assms(2) in auto)
  with assms show ?thesis by (auto simp: batch_ok_def)
qed

lemma batch_ok_admit:
  assumes "batch_ok (insert (target_node y) seen) targets as rs" "target_node y \<notin> seen" "fst a = target_payload y"
  shows "batch_ok seen (y # targets) (a # as) rs"
proof -
  have "target_node ` set (y # targets) - seen =
      insert (target_node y) (target_node ` set targets - insert (target_node y) seen)"
    using assms(2) by auto
  then have "card (target_node ` set (y # targets) - seen) =
      Suc (card (target_node ` set targets - insert (target_node y) seen))" by simp
  with assms show ?thesis by (auto simp: batch_ok_def)
qed

lemma batch_DoneD:
  "batch_reject x out = BatchDone as rs \<Longrightarrow> \<exists>rs'. out = BatchDone as rs' \<and> rs = x # rs'"
  "batch_admit a out = BatchDone as rs \<Longrightarrow> \<exists>as'. out = BatchDone as' rs \<and> as = a # as'"
  by (cases out; auto)+

lemma create_batch_from_ok:
  assumes "create_batch_from J clk parent ty check seen st targets t = Some (t', BatchDone as rs)"
  shows "batch_ok (set seen) targets as rs"
  using assms
proof (induction J clk parent ty check seen st targets t arbitrary: t' as rs rule: create_batch_from.induct)
  case (1 J clk parent ty check seen st t)
  then show ?case by (simp add: batch_ok_def)
next
  case (2 J clk parent ty check seen st draws rack node payload targets t)
  show ?case
  proof (cases "(rack, node) \<in> set seen")
    case True
    with 2 show ?thesis by (auto simp: Let_def dest!: batch_DoneD intro!: batch_ok_reject [of "set seen"])
  next
    case False
    obtain st' v where c: "check st payload = (st', v)" by (cases "check st payload")
    show ?thesis
    proof (cases v)
      case (Inl m)
      with 2 False c show ?thesis
        by (auto simp: Let_def dest!: batch_DoneD intro!: batch_ok_reject [of "insert (rack, node) (set seen)"])
    next
      case (Inr s)
      obtain u a where u: "create_child_job J clk draws parent rack node ty t = Some (u, a)"
        using 2(5) False c Inr by (auto simp: Let_def split: option.splits)
      show ?thesis
        using 2(3,4) [OF refl False c [symmetric] Inr u] 2(5) False c Inr u
        by (cases a) (auto simp: Let_def dest!: batch_DoneD
            intro!: batch_ok_reject [of "insert (rack, node) (set seen)"] batch_ok_admit)
    qed
  qed
qed


text \<open>A batch splits its targets: every target is admitted or rejected, both in request order, and at most
  one job is admitted per rack and node of the batch.\<close>

theorem batch_partition:
  assumes "create_batch_jobs J clk parent ty check st targets t = Some (t', BatchDone admitted rejected)"
  shows "length admitted + length rejected = length targets \<and>
    subseq (map fst admitted) (map (\<lambda>(_, _, _, payload). payload) targets) \<and>
    subseq (map (\<lambda>x. (rb_rack_id x, rb_node_id x)) rejected) (map (\<lambda>(_, rack, node, _). (rack, node)) targets) \<and>
    length admitted \<le> card ((\<lambda>(_, rack, node, _). (rack, node)) ` set targets)"
  using create_batch_from_ok [OF assms [unfolded create_batch_jobs_def]]
  by (simp add: batch_ok_def case_prod_beta')

theorem batch_partition_witness:
  "length sample_admitted + length sample_rejected = length sample_targets"
  using batch_partition [OF tracker_batch_eq] by blast

text \<open>The shutdown budget is spent exactly: four forced waits and the cooperative wait add up to the given
  timeout, none of the forced waits exceeds five seconds, and the cooperative wait is at least as long as a
  forced one.  The reaper's cadence stays between one second and five minutes and is the retention time
  whenever that lies in between.\<close>

theorem wait_budgets:
  "4 * forced_wait timeout + cooperative_wait timeout = timeout \<and>
   forced_wait timeout \<le> FORCED_TASK_DRAIN_TIMEOUT \<and> forced_wait timeout \<le> cooperative_wait timeout \<and>
   MIN_REAPER_INTERVAL \<le> reaper_interval job_ttl \<and> reaper_interval job_ttl \<le> REAPER_INTERVAL \<and>
   reaper_interval job_ttl = max MIN_REAPER_INTERVAL (min job_ttl REAPER_INTERVAL)"
proof -
  have "5 * forced_wait timeout \<le> timeout" by (simp add: forced_wait_def)
  then show ?thesis
    by (auto simp: cooperative_wait_def reaper_interval_def MIN_REAPER_INTERVAL_def REAPER_INTERVAL_def)
      (simp add: forced_wait_def)
qed

end
