(* ===== verification/Batch_Refinement.thy ===== *)
theory Batch_Refinement
  imports Tracker_Properties
begin

text \<open>
  What a batch admission promises, stated on a board that has no index and no store: the live jobs with their
  node, parent and children, the owner of each scope, the number of tracked records and whether admission
  is open.  The loop of the tracker refines it: every target is decided as the board says, with the text of
  the cause, and the registry afterwards shows exactly the board that results.
\<close>

section \<open>The board\<close>

record LiveJob =
  lj_rack :: string
  lj_node :: string
  lj_parent :: "JobId option"
  lj_children :: "JobId list"

record Board =
  bd_open :: bool
  bd_limit :: nat
  bd_tracked :: nat
  bd_live :: "JobId \<Rightarrow> LiveJob option"
  bd_owner :: "JobScope \<Rightarrow> JobId option"

definition accepts_child :: "Board \<Rightarrow> JobId \<Rightarrow> bool" where
  "accepts_child b p \<longleftrightarrow> (\<exists>job. bd_live b p = Some job \<and> lj_parent job = None)"

definition works_on :: "Board \<Rightarrow> string \<Rightarrow> string \<Rightarrow> JobId \<Rightarrow> bool" where
  "works_on b rack node jid \<longleftrightarrow>
     node \<noteq> [] \<and> (\<exists>job. bd_live b jid = Some job \<and> lj_rack job = rack \<and> lj_node job = node)"

definition node_free :: "Board \<Rightarrow> string \<Rightarrow> string \<Rightarrow> bool" where
  "node_free b rack node \<longleftrightarrow>
     (\<forall>jid. \<not> works_on b rack node jid) \<and> (node \<noteq> [] \<longrightarrow> bd_owner b (LogicalNode rack node) = None)"

text \<open>A full board may forget ended jobs; a board with room forgets none.\<close>

definition forgets :: "Board \<Rightarrow> nat \<Rightarrow> bool" where
  "forgets b n \<longleftrightarrow> n \<le> bd_tracked b \<and> (bd_tracked b < bd_limit b \<longrightarrow> n = bd_tracked b)"

datatype Refusal =
    ShuttingDown
  | ParentUnavailable JobId
  | NodeBusy string string JobId
  | ScopeBusy string string JobId
  | AtCapacity nat nat

fun refusal_text :: "Refusal \<Rightarrow> string" where
  "refusal_text ShuttingDown = ''server is shutting down; new jobs are not accepted''"
| "refusal_text (ParentUnavailable p) =
     ''parent job '' @ job_id_str p @ '' is missing, terminal, or already a child''"
| "refusal_text (NodeBusy rack node active) =
     ''job already in progress for rack '' @ rack @ '' node '' @ node @ '' (job_id '' @ job_id_str active @ '')''"
| "refusal_text (ScopeBusy rack node own) =
     ''mutation scope LogicalNode { rack_id: '' @ str_debug rack @ '', node_id: '' @ str_debug node
       @ '' } is occupied (owner_id '' @ job_id_str own @ '')''"
| "refusal_text (AtCapacity n limit) =
     ''job tracker at capacity ('' @ show_nat n @ ''/'' @ show_nat limit @ '' jobs); retry after in-flight jobs finish''"

inductive board_refuses :: "JobId \<Rightarrow> string \<Rightarrow> string \<Rightarrow> Board \<Rightarrow> Refusal \<Rightarrow> Board \<Rightarrow> bool" for p rack node b where
  closed: "\<not> bd_open b \<Longrightarrow> board_refuses p rack node b ShuttingDown b"
| orphan: "bd_open b \<Longrightarrow> \<not> accepts_child b p \<Longrightarrow> board_refuses p rack node b (ParentUnavailable p) b"
| busy: "bd_open b \<Longrightarrow> accepts_child b p \<Longrightarrow> works_on b rack node jid \<Longrightarrow>
    board_refuses p rack node b (NodeBusy rack node jid) b"
| held: "bd_open b \<Longrightarrow> accepts_child b p \<Longrightarrow> \<forall>jid. \<not> works_on b rack node jid \<Longrightarrow> node \<noteq> [] \<Longrightarrow>
    bd_owner b (LogicalNode rack node) = Some own \<Longrightarrow> board_refuses p rack node b (ScopeBusy rack node own) b"
| full: "bd_open b \<Longrightarrow> accepts_child b p \<Longrightarrow> node_free b rack node \<Longrightarrow> forgets b n \<Longrightarrow> bd_limit b \<le> n \<Longrightarrow>
    board_refuses p rack node b (AtCapacity n (bd_limit b)) (b\<lparr>bd_tracked := n\<rparr>)"

text \<open>The child is live on its node with the node's scope, under an identifier of its own, and is the last child
  of its parent.\<close>

definition enlist :: "JobId \<Rightarrow> string \<Rightarrow> string \<Rightarrow> JobId \<Rightarrow> nat \<Rightarrow> Board \<Rightarrow> Board" where
  "enlist p rack node jid n b =
     b\<lparr>bd_tracked := Suc n,
       bd_live := (bd_live b)(jid \<mapsto> \<lparr>lj_rack = rack, lj_node = node, lj_parent = Some p, lj_children = []\<rparr>,
         p \<mapsto> (the (bd_live b p))\<lparr>lj_children := lj_children (the (bd_live b p)) @ [jid]\<rparr>),
       bd_owner := (if node = [] then bd_owner b else (bd_owner b)(LogicalNode rack node \<mapsto> jid))\<rparr>"

inductive board_admits :: "JobId \<Rightarrow> JobId list \<Rightarrow> string \<Rightarrow> string \<Rightarrow> Board \<Rightarrow> JobId \<Rightarrow> Board \<Rightarrow> bool"
  for p draws rack node b where
  admits: "bd_open b \<Longrightarrow> accepts_child b p \<Longrightarrow> node_free b rack node \<Longrightarrow> forgets b n \<Longrightarrow> n < bd_limit b \<Longrightarrow>
    jid \<in> set draws \<Longrightarrow> bd_live b jid = None \<Longrightarrow> \<forall>sc. bd_owner b sc \<noteq> Some jid \<Longrightarrow>
    board_admits p draws rack node b jid (enlist p rack node jid n b)"

text \<open>A batch, target by target: a pair seen before, a target that fails its check, one the board refuses and
  one it admits.  A pair counts as seen from its first target on, whatever became of it.\<close>

inductive board_batch ::
  "JobId \<Rightarrow> ('c \<Rightarrow> 'p \<Rightarrow> 'c \<times> (string + 's)) \<Rightarrow> (string \<times> string) set \<Rightarrow> 'c
     \<Rightarrow> (JobId list \<times> string \<times> string \<times> 'p) list \<Rightarrow> Board \<Rightarrow> Board
     \<Rightarrow> ('p \<times> JobHandle \<times> 's) list \<Rightarrow> RejectedBatchTarget list \<Rightarrow> bool"
  for p check where
  empty: "board_batch p check seen st [] b b [] []"
| repeated: "(rack, node) \<in> seen \<Longrightarrow> board_batch p check seen st targets b b' as rs \<Longrightarrow>
    board_batch p check seen st ((draws, rack, node, payload) # targets) b b' as
      (\<lparr>rb_rack_id = rack, rb_node_id = node,
        rb_error_message = ''duplicate target rack_id/node_id: '' @ rack @ ''/'' @ node\<rparr> # rs)"
| unfit: "(rack, node) \<notin> seen \<Longrightarrow> check st payload = (st', Inl message) \<Longrightarrow>
    board_batch p check (insert (rack, node) seen) st' targets b b' as rs \<Longrightarrow>
    board_batch p check seen st ((draws, rack, node, payload) # targets) b b' as
      (\<lparr>rb_rack_id = rack, rb_node_id = node, rb_error_message = message\<rparr> # rs)"
| refused: "(rack, node) \<notin> seen \<Longrightarrow> check st payload = (st', Inr state) \<Longrightarrow>
    board_refuses p rack node b cause b1 \<Longrightarrow>
    board_batch p check (insert (rack, node) seen) st' targets b1 b' as rs \<Longrightarrow>
    board_batch p check seen st ((draws, rack, node, payload) # targets) b b' as
      (\<lparr>rb_rack_id = rack, rb_node_id = node, rb_error_message = refusal_text cause\<rparr> # rs)"
| admitted: "(rack, node) \<notin> seen \<Longrightarrow> check st payload = (st', Inr state) \<Longrightarrow>
    board_admits p draws rack node b (jh_job_id h) b1 \<Longrightarrow> \<not> jh_finished h \<Longrightarrow>
    board_batch p check (insert (rack, node) seen) st' targets b1 b' as rs \<Longrightarrow>
    board_batch p check seen st ((draws, rack, node, payload) # targets) b b' ((payload, h, state) # as) rs"

text \<open>The board that a registry shows.\<close>

definition live_job :: "JobSnapshot \<Rightarrow> LiveJob option" where
  "live_job job = (if is_terminal (js_state job) then None
     else Some \<lparr>lj_rack = js_rack_id job, lj_node = js_node_id job, lj_parent = js_parent_job_id job,
       lj_children = js_child_job_ids job\<rparr>)"

definition board_of :: "JobRegistry \<Rightarrow> Board" where
  "board_of r = \<lparr>bd_open = \<not> shutting_down r, bd_limit = max_jobs r, bd_tracked = tracked_job_count (jobs r),
     bd_live = (\<lambda>jid. Option.bind (registry_get r jid) live_job), bd_owner = hm_get (active_by_scope (jobs r))\<rparr>"


section \<open>Store operations on the board\<close>

lemma live_job_Some:
  "live_job job = Some x \<longleftrightarrow> \<not> is_terminal (js_state job) \<and> x = \<lparr>lj_rack = js_rack_id job, lj_node = js_node_id job,
     lj_parent = js_parent_job_id job, lj_children = js_child_job_ids job\<rparr>"
  by (auto simp: live_job_def)

lemma accepts_child_board: "accepts_child (board_of r) p = can_accept_child (jobs r) p"
  by (auto simp: accepts_child_def board_of_def can_accept_child_iff registry_get_def get_def live_job_Some
      bind_eq_Some_conv)

lemma works_on_board:
  assumes "store_inv (jobs r)"
  shows "works_on (board_of r) rack node jid \<longleftrightarrow> jid \<in> set (index_jobs (jobs r) rack node)"
  unfolding store_inv_D(8) [OF assms]
  by (auto simp: works_on_def board_of_def indexed_def should_index_def registry_get_def get_def live_job_Some
      bind_eq_Some_conv)

lemma scopes_after_unowned_remove:
  assumes "\<not> has_scope_owner s jid"
  shows "active_by_scope (fst (remove jid s)) = active_by_scope s" "scopes_by_owner (fst (remove jid s)) = scopes_by_owner s"
  using assms by (auto simp: remove_def release_scopes_def has_scope_owner_def split: option.splits)

lemma scopes_after_unowned_removes:
  assumes "\<And>jid. jid \<in> set jids \<Longrightarrow> \<not> has_scope_owner s jid"
  shows "active_by_scope (fold (\<lambda>jid s. fst (remove jid s)) jids s) = active_by_scope s"
  using assms
proof (induction jids arbitrary: s)
  case (Cons a jids)
  have un: "\<not> has_scope_owner s a" using Cons.prems by simp
  have "\<not> has_scope_owner (fst (remove a s)) jid" if "jid \<in> set jids" for jid
    using Cons.prems [of jid] that has_scope_owner_frame [OF scopes_after_unowned_remove(2) [OF un]] by simp
  from Cons.IH [OF this] scopes_after_unowned_remove(1) [OF un] show ?case by simp
qed simp

lemma scopes_after_cleanup:
  assumes s: "store_inv s"
  shows "active_by_scope (cleanup_expired now ttl' s) = active_by_scope s"
proof -
  obtain jids where jids: "cleanup_expired now ttl' s = fold (\<lambda>jid s. fst (remove jid s)) jids (sweep now s)"
    and ended: "\<And>jid. jid \<in> set jids \<Longrightarrow> \<exists>job. hm_get (by_id s) jid = Some job \<and> evictable now ttl' s jid job"
    by (rule cleanup_expired_fold [OF s, of now ttl']) blast
  have sw: "scopes_by_owner (sweep now s) = scopes_by_owner s" "active_by_scope (sweep now s) = active_by_scope s"
    by (simp_all add: sweep_def)
  have "\<not> has_scope_owner s jid" if "jid \<in> set jids" for jid
    using ended [OF that] store_inv_D(4) [OF s] unfolding owners_live_def evictable_def by blast
  with scopes_after_unowned_removes [of jids "sweep now s"] has_scope_owner_frame [OF sw(1)] sw(2)
  show ?thesis by (simp add: jids)
qed

lemma capacity_board:
  assumes inv: "store_inv (jobs r)" and cap: "capacity_check D clk r = (s, f)"
  shows "board_of (r\<lparr>jobs := s\<rparr>) = (board_of r)\<lparr>bd_tracked := tracked_job_count s\<rparr>"
    "forgets (board_of r) (tracked_job_count s)"
proof -
  have s: "s = jobs r \<or> s = cleanup_expired (instant_now clk) (ttl r) (jobs r) \<and> max_jobs r \<le> tracked_job_count (jobs r)"
    using cap by (auto simp: capacity_check_def Let_def split: if_splits)
  have live: "Option.bind (hm_get (by_id s) jid) live_job = Option.bind (hm_get (by_id (jobs r)) jid) live_job" for jid
    using s by (auto simp: get_cleanup [OF inv] evictable_def live_job_def swept_def split: option.splits)
  have owner: "active_by_scope s = active_by_scope (jobs r)" using s scopes_after_cleanup [OF inv] by metis
  show "board_of (r\<lparr>jobs := s\<rparr>) = (board_of r)\<lparr>bd_tracked := tracked_job_count s\<rparr>"
    by (simp add: board_of_def registry_get_def get_def live owner)
  have "tracked_job_count s \<le> tracked_job_count (jobs r)"
    using s store_evolves_count [OF inv store_inv_cleanup [OF inv] store_keeps_evolves [OF store_keeps_cleanup [OF inv]]]
    by auto
  with s show "forgets (board_of r) (tracked_job_count s)" by (auto simp: forgets_def board_of_def)
qed

lemma tracked_job_count_put:
  "store_inv s \<Longrightarrow> hm_get (by_id s) jid = Some old \<Longrightarrow> by_id s' = hm_put jid new (by_id s) \<Longrightarrow>
     tracked_job_count s' = tracked_job_count s"
  using store_inv_D(6) [of s] by (simp add: tracked_job_count_def hm_length_put)

lemma tracked_job_count_attach:
  "hm_ok (by_id s) \<Longrightarrow> tracked_job_count (fst (attach_child clk child s)) = tracked_job_count s"
  by (auto simp: attach_child_def tracked_job_count_def hm_length_put split: option.splits)

lemma mark_running_board:
  assumes inv: "store_inv (jobs r)"
  shows "board_of (fst (mark_running clk jid d r)) = board_of r"
  unfolding mark_running_def
proof (cases rule: update_cases [of clk jid "Running d" r])
  case (changed old new s)
  have "active_by_scope s = active_by_scope (jobs r)"
    using changed(1,2) transition_event_Terminal [of "js_state old" "touch clk (old\<lparr>js_state := Running d\<rparr>)"]
    unfolding changed(4)
    by (auto simp: transition_state_def unless_terminal_def Let_def split: option.splits LifecycleTransition.splits)
  moreover have "Option.bind (hm_get (by_id s) k) live_job = Option.bind (hm_get (by_id (jobs r)) k) live_job" for k
    using changed(1,2,3,5) by (simp add: hm_get_put live_job_def)
  ultimately show "board_of (fst (update clk jid (unless_terminal (Running d)) r)) = board_of r"
    using tracked_job_count_put [OF inv changed(1,5)] changed(7)
    by (simp add: board_of_def registry_get_def get_def)
qed simp

lemma place_board:
  assumes inv: "store_inv (jobs r)" and par: "can_accept_child (jobs r) p"
    and e: "place_job clk draws (job_spec_new rack node d) (Some p) scopes r = Some (r', out)"
    and sc: "set scopes = (if node = [] then {} else {LogicalNode rack node})"
  obtains rec where "out = Admitted rec" "js_job_id rec \<in> set draws" "vacant (jobs r) (js_job_id rec)"
    "board_of r' = enlist p rack node (js_job_id rec) (tracked_job_count (jobs r)) (board_of r)"
    "registry_get r' (js_job_id rec) = Some rec" "\<not> is_terminal (js_state rec)"
    "\<exists>parent. registry_get r' p = Some parent \<and> \<not> is_terminal (js_state parent) \<and>
       js_job_id rec \<in> set (js_child_job_ids parent)"
proof (rule place_job_attaches [OF e])
  show "can_accept_child (jobs r) q" if "Some p = Some q" for q using par that by simp
next
  fix rec jid s3 s
  assume rec: "rec = job_snapshot_new clk jid (next_token r) (job_spec_new rack node d) (Some p)"
    and v: "vacant (jobs r) jid" and draws: "jid \<in> set draws"
    and s3: "s3 = reserve_scopes jid scopes (insert_vacant rec (jobs r))"
    and s: "s = (if Some p = None then s3 else fst (attach_child clk rec s3))"
    and acc: "\<And>q. Some p = Some q \<Longrightarrow> can_accept_child s3 q"
    and r': "r' = notify_created rec (r\<lparr>jobs := s, next_token := Suc (next_token r)\<rparr>)" and out: "out = Admitted rec"
  have ids: "js_job_id rec = jid" "js_parent_job_id rec = Some p" "js_rack_id rec = rack" "js_node_id rec = node"
    "js_child_job_ids rec = []" "\<not> is_terminal (js_state rec)" by (simp_all add: rec job_spec_new_def)
  obtain old where old: "hm_get (by_id (jobs r)) p = Some old" "\<not> is_terminal (js_state old)"
    using par by (auto simp: can_accept_child_iff)
  have neq: "p \<noteq> jid" using old v by (auto simp: vacant_def)
  have get3: "hm_get (by_id s3) = (hm_get (by_id (jobs r)))(jid \<mapsto> rec)" by (simp add: s3 hm_get_put ids)
  define new where "new = touch clk (old\<lparr>js_child_job_ids := js_child_job_ids old @ [jid]\<rparr>)"
  have get: "hm_get (by_id s) = (hm_get (by_id (jobs r)))(jid \<mapsto> rec, p \<mapsto> new)"
    using get_attach_child [OF ids(2) acc [OF refl], of clk] neq old by (simp add: s get3 ids new_def)
  have owner: "hm_get (active_by_scope s) sc = (if sc \<in> set scopes then Some jid else hm_get (active_by_scope (jobs r)) sc)" for sc
    using attached_store(4) [OF s] by (simp add: s3 get_scope_reserve)
  have inv2: "store_inv (insert_vacant rec (jobs r))"
    using inv v ids by (intro store_inv_insert_vacant) (simp_all add: is_parent_def)
  have "tracked_job_count s3 = tracked_job_count (insert_vacant rec (jobs r))"
    by (simp add: s3 tracked_job_count_def)
  then have count: "tracked_job_count s = Suc (tracked_job_count (jobs r))"
    using count_insert_vacant [OF inv, of rec] v ids tracked_job_count_attach [of s3 clk rec] store_inv_D(6) [OF inv2]
    by (simp add: s s3)
  have live: "bd_live (board_of r') = bd_live (enlist p rack node jid (tracked_job_count (jobs r)) (board_of r))"
    using old neq by (auto simp: fun_eq_iff r' board_of_def enlist_def registry_get_def get_def get live_job_def ids new_def)
  have "bd_owner (board_of r') = bd_owner (enlist p rack node jid (tracked_job_count (jobs r)) (board_of r))"
    using sc by (auto simp: fun_eq_iff r' board_of_def enlist_def owner)
  with live have board: "board_of r' = enlist p rack node jid (tracked_job_count (jobs r)) (board_of r)"
    by (simp add: r' board_of_def enlist_def count)
  have rget: "registry_get r' = (hm_get (by_id (jobs r)))(jid \<mapsto> rec, p \<mapsto> new)"
    by (simp add: fun_eq_iff r' registry_get_def get_def get)
  show thesis
    by (rule that [OF out]) (use ids draws v board rget neq old in \<open>simp_all add: new_def\<close>)
qed


section \<open>One target\<close>

abbreviation child_spec :: "string \<Rightarrow> string \<Rightarrow> JobSpec" where
  "child_spec rack node \<equiv> job_spec_new rack node ''Queued''"

lemma child_spec_fields [simp]:
  "spec_rack_id (child_spec rack node) = rack" "spec_node_id (child_spec rack node) = node"
  by (simp_all add: job_spec_new_def)

lemma child_scopes:
  "admission_scopes (child_spec rack node) True [] = (if node = [] then [] else [LogicalNode rack node])"
  by (simp add: admission_scopes_def)

lemma jf_message_job_failure [simp]: "jf_message (job_failure J e m) = m"
  by (simp add: job_failure_def with_result_json_def job_failure_new_def)

lemma busy_board:
  assumes inv: "store_inv (jobs r)" and busy: "active_job_for_node (jobs r) rack node = Some jid"
  shows "works_on (board_of r) rack node jid"
  using busy by (auto simp: works_on_board [OF inv] active_job_for_node_def split: list.splits)

lemma idle_board:
  assumes inv: "store_inv (jobs r)"
  shows "active_job_for_node (jobs r) rack node = None \<longleftrightarrow> (\<forall>jid. \<not> works_on (board_of r) rack node jid)"
  by (auto simp: works_on_board [OF inv] active_job_for_node_def split: list.splits)

lemma admission_passes_board:
  assumes inv: "store_inv (jobs r)"
    and "admission_check D (child_spec rack node) (Some p) True (admission_scopes (child_spec rack node) True []) r = None"
  shows "bd_open (board_of r)" "accepts_child (board_of r) p" "node_free (board_of r) rack node"
  using assms(2) idle_board [OF inv, of rack node]
  by (auto simp: admission_check_None child_scopes accepts_child_board node_free_def conflicting_scope_None)
    (simp_all add: board_of_def)

lemma admission_refuses_board:
  assumes inv: "store_inv (jobs r)"
    and e: "admission_check (RmsJobDomain J) (child_spec rack node) (Some p) True
      (admission_scopes (child_spec rack node) True []) r = Some f"
  shows "\<exists>cause. board_refuses p rack node (board_of r) cause (board_of r) \<and> jf_message f = refusal_text cause"
proof -
  let ?D = "RmsJobDomain J"
  have op: "bd_open (board_of r) \<longleftrightarrow> \<not> shutting_down r" by (simp add: board_of_def)
  consider (down) "shutting_down r" | (orphan) "\<not> shutting_down r" "\<not> can_accept_child (jobs r) p"
    | (busy) jid where "\<not> shutting_down r" "can_accept_child (jobs r) p" "active_job_for_node (jobs r) rack node = Some jid"
    | (idle) "\<not> shutting_down r" "can_accept_child (jobs r) p" "active_job_for_node (jobs r) rack node = None"
    by (cases "active_job_for_node (jobs r) rack node") auto
  then show ?thesis
  proof cases
    case down
    then have "f = shutting_down_failure ?D" using e by (simp add: admission_check_def)
    then show ?thesis using board_refuses.closed [of "board_of r"] down op by (force simp: RmsJobDomain_def)
  next
    case orphan
    then have "f = parent_unavailable_failure ?D p" using e by (simp add: admission_check_def)
    then show ?thesis using board_refuses.orphan [of "board_of r" p] orphan op accepts_child_board [of r p]
      by (force simp: RmsJobDomain_def)
  next
    case (busy jid)
    then have "f = node_busy_failure ?D rack node jid" using e by (simp add: admission_check_def)
    then show ?thesis
      using board_refuses.busy [of "board_of r" p rack node jid] busy op accepts_child_board [of r p]
        busy_board [OF inv busy(3)] by (force simp: RmsJobDomain_def)
  next
    case idle
    then obtain sc own where c: "conflicting_scope (jobs r) (admission_scopes (child_spec rack node) True []) = Some (sc, own)"
      and f: "f = scope_busy_failure ?D sc own" using e by (auto simp: admission_check_def)
    then have sc: "node \<noteq> []" "sc = LogicalNode rack node" "scope_conflict (jobs r) None sc = Some own"
      by (auto simp: conflicting_scope_def child_scopes split: if_splits option.splits)
    then have "hm_get (active_by_scope (jobs r)) (LogicalNode rack node) = Some own"
      using idle(3) by (auto simp: scope_conflict_def active_job_for_node_iff split: option.splits)
    then have "bd_owner (board_of r) (LogicalNode rack node) = Some own" by (simp add: board_of_def)
    then show ?thesis
      using board_refuses.held [of "board_of r" p rack node own] idle op accepts_child_board [of r p]
        idle_board [OF inv] sc f by (force simp: RmsJobDomain_def)
  qed
qed

text \<open>A refresh that sees a live child leaves the board alone.\<close>

lemma refresh_board:
  assumes inv: "store_inv (jobs (registry t))"
    and parent: "registry_get (registry t) pid = Some parent"
    and child: "cid \<in> set (js_child_job_ids parent)" "\<not> child_done (registry t) cid"
  shows "board_of (registry (refresh_parent_state J clk pid t)) = board_of (registry t)"
    "parent_job_handles (refresh_parent_state J clk pid t) = parent_job_handles t"
proof -
  have "\<not> list_all (child_done (registry t)) (js_child_job_ids parent)" using child by (auto simp: list_all_iff)
  then have live: "counts_done (collect_parent_counts (registry t) (js_child_job_ids parent)) \<noteq>
      pc_total (collect_parent_counts (registry t) (js_child_job_ids parent))" by (simp add: counts_all_done)
  show "board_of (registry (refresh_parent_state J clk pid t)) = board_of (registry t)"
    "parent_job_handles (refresh_parent_state J clk pid t) = parent_job_handles t"
    using live by (auto simp: refresh_parent_state_def parent Let_def handle_progress_def mark_running_board [OF inv]
        split: option.splits)
qed

lemma vacant_board:
  assumes inv: "store_inv (jobs r)" and v: "vacant (jobs r) jid"
  shows "bd_live (board_of r) jid = None" "\<forall>sc. bd_owner (board_of r) sc \<noteq> Some jid"
proof -
  show "bd_live (board_of r) jid = None" using v by (simp add: board_of_def vacant_def registry_get_def get_def)
  have "owned_scopes (jobs r) jid = {}" using v by (simp add: vacant_def has_scope_owner_def owned_scopes_def)
  then show "\<forall>sc. bd_owner (board_of r) sc \<noteq> Some jid"
    using store_inv_D(3) [OF inv] by (simp add: board_of_def scopes_ok_def)
qed

lemma create_child_cases:
  assumes "create_child_job J clk draws parent rack node ty t = Some (u, a)"
  obtains r' out where "create_job_with_scopes (RmsJobDomain J) clk draws (child_spec rack node) (Some (JobId parent))
      True [] (registry t) = Some (r', out)"
    "(u, a) = (case out of
        Admitted rec \<Rightarrow> (refresh_parent_state J clk (JobId parent) (t\<lparr>registry := r'\<rparr>), Admitted (handle_of rec))
      | Refused f \<Rightarrow> (t\<lparr>registry := r'\<rparr>, Refused f) | Panicked \<Rightarrow> (t\<lparr>registry := r'\<rparr>, Panicked))"
proof -
  obtain r' out where c: "create_job_with_scopes (RmsJobDomain J) clk draws (child_spec rack node) (Some (JobId parent))
      True [] (registry t) = Some (r', out)"
    using assms by (auto simp: create_child_job_def lift_create_def create_job_def split: option.splits)
  show thesis
    by (rule that [OF c]) (use assms c in
      \<open>auto simp: create_child_job_def lift_create_def create_job_def split: admission.splits\<close>)
qed

lemma child_refused:
  assumes inv: "store_inv (jobs (registry t))"
    and e: "create_child_job J clk draws parent rack node ty t = Some (u, Refused f)"
  shows "(\<exists>cause. board_refuses (JobId parent) rack node (board_of (registry t)) cause (board_of (registry u)) \<and>
      jf_message f = refusal_text cause) \<and> parent_job_handles u = parent_job_handles t"
proof -
  let ?r = "registry t" and ?D = "RmsJobDomain J" and ?b = "board_of (registry t)"
  obtain r' out where c: "create_job_with_scopes ?D clk draws (child_spec rack node) (Some (JobId parent)) True [] ?r =
      Some (r', out)" and u: "out = Refused f" "registry u = r'" "parent_job_handles u = parent_job_handles t"
    by (rule create_child_cases [OF e]) (auto split: admission.splits)
  from c show ?thesis
  proof (cases rule: create_job_cases)
    case (refused f')
    then show ?thesis using admission_refuses_board [OF inv] u by auto
  next
    case (full f' s)
    let ?n = "tracked_job_count s"
    have f: "f' = at_capacity_failure ?D ?n (max_jobs ?r)" "max_jobs ?r \<le> ?n"
      using full(1) by (auto simp: capacity_check_def Let_def split: if_splits)
    note cap = capacity_board [OF inv full(1)]
    have "bd_limit ?b = max_jobs ?r" by (simp add: board_of_def)
    then have "board_refuses (JobId parent) rack node ?b (AtCapacity ?n (max_jobs ?r)) (?b\<lparr>bd_tracked := ?n\<rparr>)"
      using board_refuses.full [OF admission_passes_board [OF inv full(4)] cap(2)] f(2) by simp
    moreover have "jf_message f = refusal_text (AtCapacity ?n (max_jobs ?r))"
      using full(2) f(1) u(1) by (simp add: RmsJobDomain_def)
    ultimately show ?thesis using cap(1) full(3) u by metis
  next
    case (placed s)
    then show ?thesis
      using u(1) by (auto simp: place_job_def Let_def split: list.splits option.splits prod.splits if_splits)
  qed
qed

lemma child_admitted:
  assumes inv: "registry_inv (registry t)"
    and e: "create_child_job J clk draws parent rack node ty t = Some (u, a)" "\<And>f. a \<noteq> Refused f"
  shows "\<exists>h. a = Admitted h \<and> \<not> jh_finished h \<and>
    board_admits (JobId parent) draws rack node (board_of (registry t)) (jh_job_id h) (board_of (registry u)) \<and>
    parent_job_handles u = parent_job_handles t"
proof (rule create_child_cases [OF e(1)])
  let ?r = "registry t" and ?D = "RmsJobDomain J" and ?b = "board_of (registry t)" and ?p = "JobId parent"
  fix r' out
  assume c: "create_job_with_scopes ?D clk draws (child_spec rack node) (Some ?p) True [] ?r = Some (r', out)"
    and u: "(u, a) = (case out of
        Admitted rec \<Rightarrow> (refresh_parent_state J clk ?p (t\<lparr>registry := r'\<rparr>), Admitted (handle_of rec))
      | Refused f \<Rightarrow> (t\<lparr>registry := r'\<rparr>, Refused f) | Panicked \<Rightarrow> (t\<lparr>registry := r'\<rparr>, Panicked))"
  have s_inv: "store_inv (jobs ?r)" using inv by (simp add: registry_inv_def)
  from c show ?thesis
  proof (cases rule: create_job_cases)
    case (placed s)
    let ?n = "tracked_job_count s" and ?r1 = "?r\<lparr>jobs := s\<rparr>"
    note pass = admission_passes_board [OF s_inv placed(1)] and cap = capacity_board [OF s_inv placed(2)]
    have inv1: "store_inv (jobs ?r1)" using store_inv_capacity_check [OF s_inv, of ?D clk] placed(2) by simp
    have acc: "can_accept_child (jobs ?r1) ?p"
      using can_accept_child_capacity_check [OF s_inv, of ?p ?D clk] placed(1,2) by (simp add: admission_check_None)
    have sc: "set (admission_scopes (child_spec rack node) True []) = (if node = [] then {} else {LogicalNode rack node})"
      by (simp add: child_scopes)
    obtain rec where out: "out = Admitted rec" and draws: "js_job_id rec \<in> set draws"
      and v: "vacant (jobs ?r1) (js_job_id rec)"
      and board: "board_of r' = enlist ?p rack node (js_job_id rec) (tracked_job_count (jobs ?r1)) (board_of ?r1)"
      and get: "registry_get r' (js_job_id rec) = Some rec" "\<not> is_terminal (js_state rec)"
      and par: "\<exists>parent. registry_get r' ?p = Some parent \<and> \<not> is_terminal (js_state parent) \<and>
          js_job_id rec \<in> set (js_child_job_ids parent)"
      by (rule place_board [OF inv1 acc placed(3) sc]) blast
    let ?t1 = "t\<lparr>registry := r'\<rparr>"
    have "reg_step ?D ?r r'" using c by (intro reg_step.create) simp_all
    then have "registry_inv r'" using reg_step_inv_le inv by blast
    then have inv2: "store_inv (jobs (registry ?t1))" by (simp add: registry_inv_def)
    have ref: "board_of (registry (refresh_parent_state J clk ?p ?t1)) = board_of r'"
      "parent_job_handles (refresh_parent_state J clk ?p ?t1) = parent_job_handles t"
      using par refresh_board [OF inv2, of ?p _ "js_job_id rec" J clk] get by (auto simp: child_done_def)
    have fresh: "bd_live ?b (js_job_id rec) = None" "\<forall>sc. bd_owner ?b sc \<noteq> Some (js_job_id rec)"
      using vacant_board [OF inv1 v] unfolding cap(1) by simp_all
    have "board_admits ?p draws rack node ?b (js_job_id rec) (enlist ?p rack node (js_job_id rec) ?n ?b)"
      using board_admits.admits [OF pass cap(2) _ draws fresh] capacity_check_room [OF placed(2)] by (simp add: board_of_def)
    moreover have "board_of r' = enlist ?p rack node (js_job_id rec) ?n ?b" using board cap(1) by (simp add: enlist_def)
    ultimately show ?thesis using u out ref by (auto simp: handle_of_def job_handle_new_def)
  qed (use u e(2) in auto)
qed


section \<open>The loop\<close>

text \<open>One round of the loop.\<close>

lemma batch_round:
  assumes "create_batch_from J clk parent ty check seen st ((draws, rack, node, payload) # targets) t = Some (t', out)"
  obtains (repeated) o1 where "(rack, node) \<in> set seen"
      "create_batch_from J clk parent ty check seen st targets t = Some (t', o1)"
      "out = batch_reject \<lparr>rb_rack_id = rack, rb_node_id = node,
         rb_error_message = duplicate_target_message rack node\<rparr> o1"
  | (unfit) st' m o1 where "(rack, node) \<notin> set seen" "check st payload = (st', Inl m)"
      "create_batch_from J clk parent ty check ((rack, node) # seen) st' targets t = Some (t', o1)"
      "out = batch_reject \<lparr>rb_rack_id = rack, rb_node_id = node, rb_error_message = m\<rparr> o1"
  | (refused) st' s u f o1 where "(rack, node) \<notin> set seen" "check st payload = (st', Inr s)"
      "create_child_job J clk draws parent rack node ty t = Some (u, Refused f)"
      "create_batch_from J clk parent ty check ((rack, node) # seen) st' targets u = Some (t', o1)"
      "out = batch_reject \<lparr>rb_rack_id = rack, rb_node_id = node, rb_error_message = jf_message f\<rparr> o1"
  | (admitted) st' s u h o1 where "(rack, node) \<notin> set seen" "check st payload = (st', Inr s)"
      "create_child_job J clk draws parent rack node ty t = Some (u, Admitted h)"
      "create_batch_from J clk parent ty check ((rack, node) # seen) st' targets u = Some (t', o1)"
      "out = batch_admit (payload, h, s) o1"
  | (panicked) u where "create_child_job J clk draws parent rack node ty t = Some (u, Panicked)"
proof (cases "(rack, node) \<in> set seen")
  case True
  with assms repeated show thesis by (auto simp: Let_def)
next
  case False
  obtain st' v where c: "check st payload = (st', v)" by (cases "check st payload")
  show thesis
  proof (cases v)
    case (Inl m)
    with assms False c unfit show thesis by (auto simp: Let_def)
  next
    case (Inr s)
    obtain u a where u: "create_child_job J clk draws parent rack node ty t = Some (u, a)"
      using assms False c Inr by (auto simp: Let_def split: option.splits)
    show thesis
      by (cases a) (use assms False c Inr u refused admitted panicked in \<open>auto simp: Let_def\<close>)
  qed
qed

lemma batch_refines:
  assumes "registry_inv (registry t)" "create_batch_from J clk parent ty check seen st targets t = Some (t', out)"
  shows "\<exists>as rs. out = BatchDone as rs \<and> parent_job_handles t' = parent_job_handles t \<and>
    board_batch (JobId parent) check (set seen) st targets (board_of (registry t)) (board_of (registry t')) as rs"
  using assms
proof (induction targets arbitrary: seen st t out)
  case Nil
  then show ?case by (auto intro: board_batch.empty)
next
  case (Cons x targets)
  obtain draws rack node payload where x: "x = (draws, rack, node, payload)" by (cases x)
  have s_inv: "store_inv (jobs (registry t))" using Cons.prems(1) by (simp add: registry_inv_def)
  have inv: "registry_inv (registry u)" if "create_child_job J clk draws parent rack node ty t = Some (u, a)" for u a
    using reg.run_inv [OF child_run [OF that] Cons.prems(1)] .
  from Cons.prems(2) [unfolded x] show ?case
  proof (cases rule: batch_round)
    case (repeated o1)
    from Cons.IH [OF Cons.prems(1) repeated(2)] obtain as rs where "o1 = BatchDone as rs"
      "parent_job_handles t' = parent_job_handles t" "board_batch (JobId parent) check (set seen) st targets
        (board_of (registry t)) (board_of (registry t')) as rs" by blast
    with repeated show ?thesis by (auto simp: x intro: board_batch.repeated [folded duplicate_target_message_def])
  next
    case (unfit st' m o1)
    from Cons.IH [OF Cons.prems(1) unfit(3)] obtain as rs where "o1 = BatchDone as rs"
      "parent_job_handles t' = parent_job_handles t" "board_batch (JobId parent) check (insert (rack, node) (set seen))
        st' targets (board_of (registry t)) (board_of (registry t')) as rs" by auto
    with unfit show ?thesis by (auto simp: x intro: board_batch.unfit)
  next
    case (refused st' s u f o1)
    from Cons.IH [OF inv [OF refused(3)] refused(4)] obtain as rs where "o1 = BatchDone as rs"
      "parent_job_handles t' = parent_job_handles u" "board_batch (JobId parent) check (insert (rack, node) (set seen))
        st' targets (board_of (registry u)) (board_of (registry t')) as rs" by auto
    with refused child_refused [OF s_inv refused(3)] show ?thesis by (auto simp: x intro: board_batch.refused)
  next
    case (admitted st' s u h o1)
    from Cons.IH [OF inv [OF admitted(3)] admitted(4)] obtain as rs where "o1 = BatchDone as rs"
      "parent_job_handles t' = parent_job_handles u" "board_batch (JobId parent) check (insert (rack, node) (set seen))
        st' targets (board_of (registry u)) (board_of (registry t')) as rs" by auto
    with admitted child_admitted [OF Cons.prems(1) admitted(3)] show ?thesis
      by (auto simp: x intro: board_batch.admitted)
  next
    case (panicked u)
    with child_admitted [OF Cons.prems(1) panicked] show ?thesis by simp
  qed
qed

text \<open>C22. A batch admission does what the board says, and nothing else.  On any reachable tracker a batch
  whose draws find free identifiers ends without a panic; every target is rejected as a repetition of its rack and node, rejected with its check's message,
  refused with the text of the first cause that applies (closing down, no parent that can take a child, a live job on
  the node, an owner of the node's scope, no room after forgetting ended jobs), or admitted under a fresh identifier;
  only an admission changes the live jobs and the owners of scopes, by the child, its node's scope and its place as
  the parent's last child; and the parent handles stay where they are.\<close>

theorem batch_refines_board:
  assumes "reach tracker_init (tracker_step J) t"
    and "create_batch_jobs J clk parent ty check st targets t = Some (t', out)"
  shows "\<exists>admitted rejected. out = BatchDone admitted rejected \<and> parent_job_handles t' = parent_job_handles t \<and>
    board_batch (JobId parent) check {} st targets (board_of (registry t)) (board_of (registry t')) admitted rejected"
  using batch_refines [OF reg.reach_inv [OF tracker_refines.sim_reach [OF assms(1)]]
      assms(2) [unfolded create_batch_jobs_def]] by simp

text \<open>After the sample batch a second one finds the first node taken, one target unfit and one node free.\<close>

definition second_targets :: "(JobId list \<times> string \<times> string \<times> nat) list" where
  "second_targets = [([JobId ''x''], ''R'', ''N'', 1), ([JobId ''y''], ''R'', ''M'', 0), ([JobId ''a'', JobId ''z''], ''R'', ''L'', 3)]"

definition second_check :: "nat \<Rightarrow> nat \<Rightarrow> nat \<times> (string + nat)" where
  "second_check u n = (Suc u, if n = 0 then Inl ''no firmware'' else Inr u)"

theorem batch_refines_board_witness:
  "\<exists>t' admitted rejected. create_batch_jobs sample_json (tick 3) ''p'' FirmwareUpdate second_check 0 second_targets
      tracker_batch = Some (t', BatchDone admitted rejected) \<and>
    map (\<lambda>(n, h, u). (n, jh_job_id h, u)) admitted = [(3, JobId ''z'', 2)] \<and>
    map rb_error_message rejected =
      [''job already in progress for rack R node N (job_id a)'', ''no firmware''] \<and>
    board_batch (JobId ''p'') second_check {} 0 second_targets (board_of (registry tracker_batch))
      (board_of (registry t')) admitted rejected"
proof -
  let ?run = "create_batch_jobs sample_json (tick 3) ''p'' FirmwareUpdate second_check 0 second_targets tracker_batch"
  have e: "case ?run of Some (_, BatchDone admitted rejected) \<Rightarrow>
      map (\<lambda>(n, h, u). (n, jh_job_id h, u)) admitted = [(3, JobId ''z'', 2)] \<and>
      map rb_error_message rejected = [''job already in progress for rack R node N (job_id a)'', ''no firmware'']
    | _ \<Rightarrow> False" by code_simp
  then obtain t' admitted rejected where r: "?run = Some (t', BatchDone admitted rejected)"
    by (auto split: option.splits prod.splits batch_outcome.splits)
  with e batch_refines_board [OF reach_batch r] show ?thesis by auto
qed

end
