(* ===== verification/Fabric_Operation.thy ===== *)
theory Fabric_Operation
  imports Rms_Error
begin

text \<open>
  \<open>orchestrator/fabric_operation.rs\<close>: ownership of fabric scopes by jobs and the retained evidence of
  verified controller activations.  The mutex is the flag \<open>poisoned\<close>; each operation returns the new
  state with its result, as the source mutates the state in place.
\<close>

section \<open>Data\<close>

definition MAX_OPERATIONS :: nat where
  "MAX_OPERATIONS = 256"

definition MAX_ACTIVATION_PROOFS :: nat where
  "MAX_ACTIVATION_PROOFS = 1024"

datatype ControllerIdentity = ControllerIdentity (chassis_serial_number: string) (tray_index: u32)

text \<open>The derived \<open>Ord\<close>: the fields in their order.\<close>

instantiation ControllerIdentity :: linorder
begin

definition less_eq_ControllerIdentity :: "ControllerIdentity \<Rightarrow> ControllerIdentity \<Rightarrow> bool" where
  "a \<le> b \<longleftrightarrow> chassis_serial_number a < chassis_serial_number b \<or>
     chassis_serial_number a = chassis_serial_number b \<and> tray_index a \<le> tray_index b"

definition less_ControllerIdentity :: "ControllerIdentity \<Rightarrow> ControllerIdentity \<Rightarrow> bool" where
  "(a :: ControllerIdentity) < b \<longleftrightarrow> a \<le> b \<and> \<not> b \<le> a"

instance
  by intro_classes
    (auto simp: less_eq_ControllerIdentity_def less_ControllerIdentity_def intro: ControllerIdentity.expand)

end

record FabricOperationIntent =
  scope_keys :: "string list"
  rule_id :: string

record FabricOperation =
  op_job_id :: string
  intent :: FabricOperationIntent
  pending_controllers :: "ControllerIdentity list"

record ActivationProof =
  proof_controller :: ControllerIdentity
  proof_digest :: string
  proof_scope_keys :: "string list"

record FabricState =
  poisoned :: bool
  operations :: "(string, FabricOperation) hmap"
  proofs :: "ActivationProof list"

definition fabric_default :: FabricState where
  "fabric_default = \<lparr>poisoned = False, operations = [], proofs = []\<rparr>"


section \<open>Operations\<close>

definition blank :: "string \<Rightarrow> bool" where
  "blank s \<longleftrightarrow> trim s = []"

definition normalize_intent :: "FabricOperationIntent \<Rightarrow> FabricOperationIntent result" where
  "normalize_intent i =
     (if scope_keys i = [] \<or> list_ex blank (scope_keys i) \<or> blank (rule_id i)
      then Inl (rms_invalid_argument ''fabric operation requires scope keys and a rule identity'')
      else Inr (i\<lparr>scope_keys := sort_dedup (scope_keys i)\<rparr>))"

definition fabric_lock :: "FabricState \<Rightarrow> unit result" where
  "fabric_lock s =
     (if poisoned s then Inl (rms_internal ''fabric operation registry lock poisoned'') else Inr ())"

text \<open>The operations under the lock: a poisoned lock fails every one of them.\<close>

definition locked :: "FabricState \<Rightarrow> (FabricState \<times> 'a result) \<Rightarrow> FabricState \<times> 'a result" where
  "locked s body = (case fabric_lock s of Inl e \<Rightarrow> (s, Inl e) | Inr _ \<Rightarrow> body)"

definition owner_changed :: RmsError where
  "owner_changed = rms_failed_precondition ''fabric operation owner changed''"

definition shares_key :: "string list \<Rightarrow> string list \<Rightarrow> bool" where
  "shares_key keys scope \<longleftrightarrow> list_ex (\<lambda>key. key \<in> set scope) keys"

definition find_overlapping :: "string list \<Rightarrow> FabricState \<Rightarrow> FabricOperation list result" where
  "find_overlapping keys s =
     bind_result (fabric_lock s) (\<lambda>_. Inr (filter (\<lambda>p. shares_key (scope_keys (intent p)) keys) (map snd (operations s))))"

definition admission_overlap :: "FabricOperationIntent \<Rightarrow> FabricState \<Rightarrow> FabricOperation list" where
  "admission_overlap i s =
     filter (\<lambda>p. list_ex (binary_search_ok (scope_keys i)) (scope_keys (intent p))) (map snd (operations s))"

fun admit_pending ::
  "FabricOperationIntent \<Rightarrow> string option \<Rightarrow> FabricOperation list \<Rightarrow> FabricState \<Rightarrow> ControllerIdentity list result" where
  "admit_pending i None [] s =
     (if MAX_OPERATIONS \<le> length (operations s)
      then Inl (rms_failed_precondition ''fabric operation registry capacity reached'') else Inr [])"
| "admit_pending i (Some previous) [p] s =
     (if op_job_id p \<noteq> previous \<or> scope_keys (intent p) \<noteq> scope_keys i \<or> rule_id (intent p) \<noteq> rule_id i
      then Inl (rms_failed_precondition ''fabric operation owner, scope, or rule changed'')
      else Inr (pending_controllers p))"
| "admit_pending i None [p] s = Inl (rms_already_exists ''fabric operation owns overlapping scope'')"
| "admit_pending i (Some previous) [] s = Inl (rms_failed_precondition ''previous fabric operation is absent'')"
| "admit_pending i previous (p # q # ps) s =
     Inl (rms_already_exists ''multiple fabric operations own overlapping scope'')"

definition admit ::
  "FabricOperationIntent \<Rightarrow> string \<Rightarrow> string option \<Rightarrow> FabricState \<Rightarrow> FabricState \<times> FabricOperation result" where
  "admit i jid previous s =
     (case normalize_intent i of
        Inl e \<Rightarrow> (s, Inl e)
      | Inr i \<Rightarrow>
          if blank jid then (s, Inl (rms_invalid_argument ''fabric operation requires a job ID''))
          else locked s
            (if hm_get (operations s) jid \<noteq> None
             then (s, Inl (rms_already_exists ''fabric job already owns an operation''))
             else (case admit_pending i previous (admission_overlap i s) s of
               Inl e \<Rightarrow> (s, Inl e)
             | Inr pending \<Rightarrow>
                 (let p = \<lparr>op_job_id = jid, intent = i, pending_controllers = pending\<rparr>;
                      m = (case previous of None \<Rightarrow> operations s | Some prev \<Rightarrow> hm_del prev (operations s))
                  in (s\<lparr>operations := bt_put jid p m\<rparr>, Inr p)))))"

definition mark_pending :: "string \<Rightarrow> ControllerIdentity list \<Rightarrow> FabricState \<Rightarrow> FabricState \<times> unit result" where
  "mark_pending jid controllers s = locked s
     (case hm_get (operations s) jid of
        None \<Rightarrow> (s, Inl owner_changed)
      | Some p \<Rightarrow>
          if list_ex (\<lambda>q. op_job_id q \<noteq> jid \<and> list_ex (\<lambda>c. c \<in> set (pending_controllers q)) controllers)
               (map snd (operations s))
          then (s, Inl (rms_already_exists ''controller activation is pending under another fabric operation''))
          else (s\<lparr>operations := bt_put jid
                    (p\<lparr>pending_controllers := sort_dedup (pending_controllers p @ controllers)\<rparr>) (operations s),
                  proofs := filter (\<lambda>e. proof_controller e \<notin> set controllers) (proofs s)\<rparr>, Inr ()))"

definition clear_inactive :: "string \<Rightarrow> ControllerIdentity \<Rightarrow> FabricState \<Rightarrow> FabricState \<times> unit result" where
  "clear_inactive jid c s = locked s
     (case hm_get (operations s) jid of
        None \<Rightarrow> (s, Inl owner_changed)
      | Some p \<Rightarrow> (s\<lparr>operations := bt_put jid
          (p\<lparr>pending_controllers := removeAll c (pending_controllers p)\<rparr>) (operations s)\<rparr>, Inr ()))"

definition has_activation_proof :: "ControllerIdentity \<Rightarrow> string \<Rightarrow> FabricState \<Rightarrow> bool result" where
  "has_activation_proof c digest s =
     bind_result (fabric_lock s) (\<lambda>_. Inr (list_ex (\<lambda>e. proof_controller e = c \<and> proof_digest e = digest) (proofs s)))"

definition evict_oldest :: "ActivationProof list \<Rightarrow> ActivationProof list" where
  "evict_oldest ps = (if MAX_ACTIVATION_PROOFS < length ps then tl ps else ps)"

definition record_activation ::
  "string \<Rightarrow> ControllerIdentity \<Rightarrow> string \<Rightarrow> string list \<Rightarrow> FabricState \<Rightarrow> FabricState \<times> unit result" where
  "record_activation jid c digest keys s =
     (if blank digest \<or> keys = [] \<or> list_ex blank keys
      then (s, Inl (rms_invalid_argument ''activation proof requires a digest and scope aliases''))
      else
        (let keys = sort_dedup keys in locked s
          (case hm_get (operations s) jid of
             None \<Rightarrow> (s, Inl owner_changed)
           | Some p \<Rightarrow>
               if \<not> list_ex (binary_search_ok (scope_keys (intent p))) keys
               then (s, Inl (rms_failed_precondition ''activation proof does not overlap the owned scope''))
               else if c \<notin> set (pending_controllers p)
               then (s, Inl (rms_failed_precondition ''controller activation is not pending for the current owner''))
               else (s\<lparr>operations := bt_put jid
                         (p\<lparr>pending_controllers := removeAll c (pending_controllers p)\<rparr>) (operations s),
                       proofs := evict_oldest (filter (\<lambda>e. proof_controller e \<noteq> c) (proofs s) @
                         [\<lparr>proof_controller = c, proof_digest = digest, proof_scope_keys = keys\<rparr>])\<rparr>, Inr ()))))"

definition finish :: "string \<Rightarrow> FabricState \<Rightarrow> FabricState \<times> unit result" where
  "finish jid s = locked s
     (case hm_get (operations s) jid of
        None \<Rightarrow> (s, Inl owner_changed)
      | Some p \<Rightarrow>
          if pending_controllers p \<noteq> []
          then (s, Inl (rms_failed_precondition ''controller activation remains pending''))
          else (s\<lparr>operations := hm_del jid (operations s)\<rparr>, Inr ()))"

definition release_failed :: "string \<Rightarrow> FabricState \<Rightarrow> FabricState \<times> unit result" where
  "release_failed jid s = locked s
     (case hm_get (operations s) jid of
        None \<Rightarrow> (s, Inl owner_changed)
      | Some p \<Rightarrow> (s\<lparr>operations := hm_del jid (operations s),
          proofs := filter (\<lambda>e. proof_controller e \<notin> set (pending_controllers p)) (proofs s)\<rparr>, Inr ()))"

definition invalidate_and_require_clear :: "string list \<Rightarrow> FabricState \<Rightarrow> FabricState \<times> unit result" where
  "invalidate_and_require_clear keys s =
     (if keys = [] \<or> list_ex blank keys
      then (s, Inl (rms_invalid_argument ''fabric invalidation requires nonempty scope aliases''))
      else locked s
        (if list_ex (\<lambda>p. shares_key (scope_keys (intent p)) keys) (map snd (operations s))
         then (s, Inl (rms_already_exists ''fabric operation owns external mutation scope''))
         else (s\<lparr>proofs := filter (\<lambda>e. \<not> shares_key (proof_scope_keys e) keys) (proofs s)\<rparr>, Inr ())))"


section \<open>The invariant\<close>

text \<open>
  Operations are filed under their job and own pairwise disjoint scopes and pending controllers; a
  controller has at most one proof and none while it is pending; both tables are bounded.
\<close>

abbreviation op_at :: "FabricState \<Rightarrow> string \<Rightarrow> FabricOperation option" where
  "op_at s \<equiv> hm_get (operations s)"

definition op_scope :: "FabricOperation \<Rightarrow> string set" where
  "op_scope p = set (scope_keys (intent p))"

definition op_pending :: "FabricOperation \<Rightarrow> ControllerIdentity set" where
  "op_pending p = set (pending_controllers p)"

definition apart :: "FabricOperation \<Rightarrow> FabricOperation \<Rightarrow> bool" where
  "apart p q \<longleftrightarrow> op_scope p \<inter> op_scope q = {} \<and> op_pending p \<inter> op_pending q = {}"

definition fabric_inv :: "FabricState \<Rightarrow> bool" where
  "fabric_inv s \<longleftrightarrow>
     bt_ok (operations s) \<and> length (operations s) \<le> MAX_OPERATIONS \<and>
     (\<forall>j p. op_at s j = Some p \<longrightarrow> op_job_id p = j \<and> sorted (scope_keys (intent p)) \<and> scope_keys (intent p) \<noteq> []) \<and>
     (\<forall>j k p q. op_at s j = Some p \<and> op_at s k = Some q \<and> j \<noteq> k \<longrightarrow> apart p q) \<and>
     distinct (map proof_controller (proofs s)) \<and> length (proofs s) \<le> MAX_ACTIVATION_PROOFS \<and>
     (\<forall>j p. op_at s j = Some p \<longrightarrow> op_pending p \<inter> proof_controller ` set (proofs s) = {})"

lemma fabric_inv_D:
  assumes "fabric_inv s"
  shows "bt_ok (operations s)" "length (operations s) \<le> MAX_OPERATIONS"
    "distinct (map proof_controller (proofs s))" "length (proofs s) \<le> MAX_ACTIVATION_PROOFS"
    "op_at s j = Some p \<Longrightarrow> op_job_id p = j" "op_at s j = Some p \<Longrightarrow> sorted (scope_keys (intent p))"
    "op_at s j = Some p \<Longrightarrow> scope_keys (intent p) \<noteq> []"
    "op_at s j = Some p \<Longrightarrow> op_at s k = Some q \<Longrightarrow> j \<noteq> k \<Longrightarrow> apart p q"
    "op_at s j = Some p \<Longrightarrow> op_pending p \<inter> proof_controller ` set (proofs s) = {}"
  using assms by (auto simp: fabric_inv_def)

lemma length_bt_put_del:
  assumes "bt_ok m" "map_of m k \<noteq> None"
  shows "length (bt_put k v m) = length m" "Suc (length (hm_del k m)) = length m"
proof -
  show "length (bt_put k v m) = length m" using btree.length_put [OF assms(1), of k v] assms(2) by simp
  have "length m = card (dom (map_of m))" "length (hm_del k m) = card (dom (map_of m) - {k})"
    using btree.length_keys [OF assms(1)] btree.length_keys [OF btree.ok_del [OF assms(1)], of k]
    by (simp_all add: btree.get_del [OF assms(1)])
  then show "Suc (length (hm_del k m)) = length m"
    using card_Suc_Diff1 [OF finite_dom_map_of, of k m] assms(2) by (simp add: domIff)
qed

lemma fabric_inv_I:
  assumes "bt_ok m" "length m \<le> MAX_OPERATIONS"
    and "\<And>j p. map_of m j = Some p \<Longrightarrow> op_job_id p = j \<and> sorted (scope_keys (intent p)) \<and>
      scope_keys (intent p) \<noteq> [] \<and> op_pending p \<inter> proof_controller ` set ps = {}"
    and "\<And>j k p q. map_of m j = Some p \<Longrightarrow> map_of m k = Some q \<Longrightarrow> j \<noteq> k \<Longrightarrow> apart p q"
    and "distinct (map proof_controller ps)" "length ps \<le> MAX_ACTIVATION_PROOFS"
    and "operations s = m" "proofs s = ps"
  shows "fabric_inv s"
  unfolding fabric_inv_def assms(7,8) using assms(1,2,5,6) assms(3,4) by blast

text \<open>The three ways an operation changes the tables.\<close>

lemma pairwise_put:
  assumes old: "\<And>k l a b. m k = Some a \<Longrightarrow> m l = Some b \<Longrightarrow> k \<noteq> l \<Longrightarrow> R a b"
    and new: "\<And>k a. k \<noteq> j \<Longrightarrow> m k = Some a \<Longrightarrow> R a p \<and> R p a"
    and at: "(m(j \<mapsto> p)) k = Some a" "(m(j \<mapsto> p)) l = Some b" "k \<noteq> l"
  shows "R a b"
proof (cases "k = j")
  case True
  then show ?thesis using new [of l b] at by simp
next
  case False
  then show ?thesis using new [of k a] old [of k a l b] at by (cases "l = j") simp_all
qed

lemma fabric_inv_replace:
  assumes s: "fabric_inv s" and p: "op_at s j = Some p"
    and p': "op_job_id p' = j" "intent p' = intent p"
    and other: "\<And>k q. k \<noteq> j \<Longrightarrow> op_at s k = Some q \<Longrightarrow>
        op_pending p' \<inter> op_pending q = {} \<and> op_pending q \<inter> proof_controller ` set ps = {}"
    and ps: "distinct (map proof_controller ps)" "length ps \<le> MAX_ACTIVATION_PROOFS"
      "op_pending p' \<inter> proof_controller ` set ps = {}"
  shows "fabric_inv (s\<lparr>operations := bt_put j p' (operations s), proofs := ps\<rparr>)"
proof -
  note D = fabric_inv_D [OF s]
  have at: "map_of (bt_put j p' (operations s)) = (op_at s)(j \<mapsto> p')" by (rule btree.get_put [OF D(1)])
  have scope: "op_scope p' = op_scope p" using p' by (simp add: op_scope_def)
  have new: "apart a p' \<and> apart p' a" if "k \<noteq> j" "op_at s k = Some a" for k a
    using D(8) [OF p that(2) that(1) [symmetric]] other [OF that] by (simp add: apart_def scope Int_commute)
  have A: "apart a b" if "map_of (bt_put j p' (operations s)) k = Some a" "map_of (bt_put j p' (operations s)) l = Some b" "k \<noteq> l" for k l a b
    using that(1,2) unfolding at
    by (rule pairwise_put [of "op_at s" apart j p' k a l b, rotated 2])
      (rule that(3), erule D(8), assumption, assumption, erule new, assumption)
  have B: "op_job_id a = k \<and> sorted (scope_keys (intent a)) \<and> scope_keys (intent a) \<noteq> [] \<and>
      op_pending a \<inter> proof_controller ` set ps = {}" if "map_of (bt_put j p' (operations s)) k = Some a" for k a
  proof (cases "k = j")
    case True
    with that have "a = p'" by (simp add: at)
    with True show ?thesis using p' ps(3) D(6,7) [OF p] by simp
  next
    case False
    then show ?thesis using False that D(5,6,7) [of k a] other [of k a] by (simp add: at)
  qed
  have len: "length (bt_put j p' (operations s)) \<le> MAX_OPERATIONS"
    using D(2) length_bt_put_del(1) [OF D(1), of j] p by simp
  show ?thesis
    by (rule fabric_inv_I [where m = "bt_put j p' (operations s)" and ps = "ps"], rule btree.ok_put [OF D(1)], rule len, erule B,
        erule (2) A, rule ps(1), rule ps(2)) simp_all
qed

lemma fabric_inv_shrink:
  assumes s: "fabric_inv s" and m: "bt_ok m" "length m \<le> length (operations s)"
      "\<And>k a. map_of m k = Some a \<Longrightarrow> op_at s k = Some a"
    and ps: "distinct (map proof_controller ps)" "length ps \<le> length (proofs s)" "set ps \<subseteq> set (proofs s)"
    and s': "operations s' = m" "proofs s' = ps"
  shows "fabric_inv s'"
proof (rule fabric_inv_I [OF m(1) _ _ _ ps(1) _ s'])
  note D = fabric_inv_D [OF s]
  show "length m \<le> MAX_OPERATIONS" "length ps \<le> MAX_ACTIVATION_PROOFS" using D(2,4) m(2) ps(2) by simp_all
  fix j p assume p: "map_of m j = Some p"
  show "op_job_id p = j \<and> sorted (scope_keys (intent p)) \<and> scope_keys (intent p) \<noteq> [] \<and>
      op_pending p \<inter> proof_controller ` set ps = {}"
    using D(5,6,7,9) [OF m(3) [OF p]] ps(3) by blast
  fix k q assume "map_of m k = Some q" "j \<noteq> k"
  then show "apart p q" using D(8) [OF m(3) [OF p] m(3)] by blast
qed

lemma fabric_inv_delete:
  assumes "fabric_inv s" "distinct (map proof_controller ps)" "length ps \<le> length (proofs s)"
    "set ps \<subseteq> set (proofs s)"
  shows "fabric_inv (s\<lparr>operations := hm_del j (operations s), proofs := ps\<rparr>)"
proof (rule fabric_inv_shrink [OF assms(1) btree.ok_del _ _ assms(2-4)])
  have ok: "bt_ok (operations s)" using fabric_inv_D(1) [OF assms(1)] .
  show "bt_ok (operations s)" by (rule ok)
  show "length (hm_del j (operations s)) \<le> length (operations s)"
    using btree.length_del_le [OF ok, of j] by simp
  show "map_of (hm_del j (operations s)) k = Some a \<Longrightarrow> op_at s k = Some a" for k a
    by (simp add: btree.get_del [OF ok] split: if_splits)
qed simp_all

lemma fabric_inv_proofs:
  assumes "fabric_inv s" "distinct (map proof_controller ps)" "length ps \<le> length (proofs s)"
    "set ps \<subseteq> set (proofs s)"
  shows "fabric_inv (s\<lparr>proofs := ps\<rparr>)"
  by (rule fabric_inv_shrink [OF assms(1) fabric_inv_D(1) [OF assms(1)] _ _ assms(2-4)]) simp_all

lemma fabric_inv_add:
  assumes s: "fabric_inv s" and room: "length (operations s) < MAX_OPERATIONS" and j: "op_at s j = None"
    and p: "op_job_id p = j" "sorted (scope_keys (intent p))" "scope_keys (intent p) \<noteq> []"
    and other: "\<And>k q. op_at s k = Some q \<Longrightarrow> apart p q"
    and ps: "op_pending p \<inter> proof_controller ` set (proofs s) = {}"
  shows "fabric_inv (s\<lparr>operations := bt_put j p (operations s)\<rparr>)"
proof -
  note D = fabric_inv_D [OF s]
  have at: "map_of (bt_put j p (operations s)) = (op_at s)(j \<mapsto> p)" by (rule btree.get_put [OF D(1)])
  have len: "length (bt_put j p (operations s)) \<le> MAX_OPERATIONS"
    using btree.length_put [OF D(1), of j p] j room by simp
  have new: "apart a p \<and> apart p a" if "k \<noteq> j" "op_at s k = Some a" for k a
    using other [OF that(2)] by (simp add: apart_def Int_commute)
  have A: "apart a b" if "map_of (bt_put j p (operations s)) k = Some a" "map_of (bt_put j p (operations s)) l = Some b" "k \<noteq> l" for k l a b
    using that(1,2) unfolding at
    by (rule pairwise_put [of "op_at s" apart j p k a l b, rotated 2])
      (rule that(3), erule D(8), assumption, assumption, erule new, assumption)
  have B: "op_job_id a = k \<and> sorted (scope_keys (intent a)) \<and> scope_keys (intent a) \<noteq> [] \<and>
      op_pending a \<inter> proof_controller ` set (proofs s) = {}" if "map_of (bt_put j p (operations s)) k = Some a" for k a
  proof (cases "k = j")
    case True
    with that have "a = p" by (simp add: at)
    with True show ?thesis using p ps by simp
  next
    case False
    then show ?thesis using False that D(5,6,7,9) [of k a] by (simp add: at)
  qed
  show ?thesis
    by (rule fabric_inv_I [where m = "bt_put j p (operations s)" and ps = "proofs s"], rule btree.ok_put [OF D(1)], rule len, erule B,
        erule (2) A, rule D(3), rule D(4)) simp_all
qed


section \<open>Every operation keeps the invariant\<close>

lemma values_op_at:
  assumes "fabric_inv s"
  shows "p \<in> snd ` set (operations s) \<longleftrightarrow> op_at s (op_job_id p) = Some p"
proof
  assume "p \<in> snd ` set (operations s)"
  then obtain j where "(j, p) \<in> set (operations s)" by auto
  then have "op_at s j = Some p" using bt_distinct [OF fabric_inv_D(1) [OF assms]] by simp
  with fabric_inv_D(5) [OF assms this] show "op_at s (op_job_id p) = Some p" by simp
next
  assume "op_at s (op_job_id p) = Some p"
  from map_of_SomeD [OF this] show "p \<in> snd ` set (operations s)" by force
qed

lemma admission_overlap_iff:
  assumes "fabric_inv s" "sorted (scope_keys i)"
  shows "p \<in> set (admission_overlap i s) \<longleftrightarrow>
    op_at s (op_job_id p) = Some p \<and> op_scope p \<inter> set (scope_keys i) \<noteq> {}"
  using values_op_at [OF assms(1), of p] assms(2)
  by (auto simp: admission_overlap_def list_ex_iff op_scope_def)

lemma normalize_intent_Inr:
  "normalize_intent i = Inr i' \<Longrightarrow> sorted (scope_keys i') \<and> scope_keys i' \<noteq> [] \<and>
     set (scope_keys i') = set (scope_keys i) \<and> rule_id i' = rule_id i"
  by (auto simp: normalize_intent_def split: if_splits)

text \<open>A successful admission is fresh, with no overlapping operation, or takes over the one named.\<close>

lemma admit_pending_cases:
  assumes "admit_pending i previous ps s = Inr pending"
  obtains (fresh) "previous = None" "ps = []" "length (operations s) < MAX_OPERATIONS" "pending = []"
  | (transfer) p where "previous = Some (op_job_id p)" "ps = [p]" "scope_keys (intent p) = scope_keys i"
      "rule_id (intent p) = rule_id i" "pending = pending_controllers p"
  using assms by (cases "(i, previous, ps, s)" rule: admit_pending.cases) (auto split: if_splits)

lemma fabric_inv_fresh:
  assumes s: "fabric_inv s" and i: "sorted (scope_keys i)" "scope_keys i \<noteq> []"
    and free: "admission_overlap i s = []" "op_at s jid = None" "length (operations s) < MAX_OPERATIONS"
  shows "fabric_inv (s\<lparr>operations := bt_put jid \<lparr>op_job_id = jid, intent = i, pending_controllers = []\<rparr> (operations s)\<rparr>)"
proof (rule fabric_inv_add [OF s free(3,2)])
  fix k q assume q: "op_at s k = Some q"
  then have "op_at s (op_job_id q) = Some q" using fabric_inv_D(5) [OF s q] by simp
  with admission_overlap_iff [OF s i(1), of q] free(1)
  show "apart \<lparr>op_job_id = jid, intent = i, pending_controllers = []\<rparr> q"
    by (auto simp: apart_def op_scope_def op_pending_def)
qed (simp_all add: i op_pending_def)

lemma fabric_inv_transfer:
  assumes s: "fabric_inv s" and p: "op_at s (op_job_id p) = Some p" "scope_keys (intent p) = scope_keys i"
    and jid: "op_at s jid = None"
  shows "fabric_inv (s\<lparr>operations := bt_put jid
    \<lparr>op_job_id = jid, intent = i, pending_controllers = pending_controllers p\<rparr> (hm_del (op_job_id p) (operations s))\<rparr>)"
proof -
  note D = fabric_inv_D [OF s]
  let ?u = "s\<lparr>operations := hm_del (op_job_id p) (operations s)\<rparr>"
  let ?p = "\<lparr>op_job_id = jid, intent = i, pending_controllers = pending_controllers p\<rparr>"
  have same: "op_scope ?p = op_scope p" "op_pending ?p = op_pending p"
    using p(2) by (simp_all add: op_scope_def op_pending_def)
  have u: "fabric_inv ?u" using fabric_inv_delete [OF s D(3)] by simp
  have at: "op_at ?u = (op_at s)(op_job_id p := None)" using btree.get_del [OF D(1)] by simp
  have room: "length (operations ?u) < MAX_OPERATIONS"
    using length_bt_put_del(2) [OF D(1), of "op_job_id p"] p(1) D(2) by simp
  have "fabric_inv (?u\<lparr>operations := bt_put jid ?p (operations ?u)\<rparr>)"
  proof (rule fabric_inv_add [OF u room])
    show "op_at ?u jid = None" using jid by (simp only: at) simp
    show "apart ?p q" if "op_at ?u k = Some q" for k q
      using that D(8) [OF p(1), of k q] by (simp only: at apart_def same) (simp split: if_splits)
    show "op_pending ?p \<inter> proof_controller ` set (proofs ?u) = {}" using D(9) [OF p(1)] same by simp
  qed (use D(6,7) [OF p(1)] p(2) in simp_all)
  then show ?thesis by simp
qed

lemma fabric_inv_admit:
  assumes s: "fabric_inv s"
  shows "fabric_inv (fst (admit i jid previous s))"
proof (cases "normalize_intent i")
  case (Inr i')
  note n = normalize_intent_Inr [OF Inr]
  show ?thesis
  proof (cases "op_at s jid = None")
    case None: True
    show ?thesis
    proof (cases "admit_pending i' previous (admission_overlap i' s) s")
      case pend: (Inr pending)
      from pend show ?thesis
      proof (cases rule: admit_pending_cases)
        case fresh
        with fabric_inv_fresh [OF s _ _ fresh(2) None fresh(3)] n s pend Inr None show ?thesis
          by (simp add: admit_def locked_def fabric_lock_def Let_def)
      next
        case (transfer p)
        have "op_at s (op_job_id p) = Some p"
          using admission_overlap_iff [OF s, of i' p] n transfer(2) by simp
        from fabric_inv_transfer [OF s this transfer(3) None] s pend Inr None transfer(1,5) show ?thesis
          by (simp add: admit_def locked_def fabric_lock_def Let_def)
      qed
    qed (use s Inr None in \<open>simp add: admit_def locked_def fabric_lock_def\<close>)
  qed (use s Inr in \<open>simp add: admit_def locked_def fabric_lock_def\<close>)
qed (use s in \<open>simp add: admit_def\<close>)


lemma distinct_filter_proofs:
  "distinct (map proof_controller ps) \<Longrightarrow> distinct (map proof_controller (filter P ps))"
  by (rule distinct_map_filter)

lemma pending_elsewhere:
  assumes s: "fabric_inv s"
    and check: "\<not> list_ex (\<lambda>q. op_job_id q \<noteq> jid \<and> list_ex (\<lambda>c. c \<in> set (pending_controllers q)) cs)
      (map snd (operations s))"
    and q: "op_at s k = Some q" "k \<noteq> jid"
  shows "op_pending q \<inter> set cs = {}"
proof -
  have "op_job_id q = k" using fabric_inv_D(5) [OF s q(1)] .
  moreover have "q \<in> snd ` set (operations s)" using map_of_SomeD [OF q(1)] by force
  ultimately show ?thesis using check q(2) by (auto simp: list_ex_iff op_pending_def)
qed

lemma fabric_inv_mark:
  assumes s: "fabric_inv s" and p: "op_at s jid = Some p"
    and check: "\<not> list_ex (\<lambda>q. op_job_id q \<noteq> jid \<and> list_ex (\<lambda>c. c \<in> set (pending_controllers q)) cs)
      (map snd (operations s))"
  shows "fabric_inv (s\<lparr>operations := bt_put jid
      (p\<lparr>pending_controllers := sort_dedup (pending_controllers p @ cs)\<rparr>) (operations s),
    proofs := filter (\<lambda>e. proof_controller e \<notin> set cs) (proofs s)\<rparr>)"
proof (rule fabric_inv_replace [OF s p])
  note D = fabric_inv_D [OF s]
  let ?p = "p\<lparr>pending_controllers := sort_dedup (pending_controllers p @ cs)\<rparr>"
  let ?ps = "filter (\<lambda>e. proof_controller e \<notin> set cs) (proofs s)"
  have pend: "op_pending ?p = op_pending p \<union> set cs" by (simp add: op_pending_def)
  show "op_job_id ?p = jid" "intent ?p = intent p" using D(5) [OF p] by simp_all
  show "distinct (map proof_controller ?ps)" by (rule distinct_filter_proofs [OF D(3)])
  show "length ?ps \<le> MAX_ACTIVATION_PROOFS" using D(4) length_filter_le le_trans by blast
  show "op_pending ?p \<inter> proof_controller ` set ?ps = {}" using D(9) [OF p] by (auto simp: pend)
  fix k q assume k: "k \<noteq> jid" and q: "op_at s k = Some q"
  have "op_pending q \<inter> op_pending p = {}" using D(8) [OF q p k] by (simp add: apart_def)
  with pending_elsewhere [OF s check q k] D(9) [OF q]
  show "op_pending ?p \<inter> op_pending q = {} \<and> op_pending q \<inter> proof_controller ` set ?ps = {}"
    unfolding pend by auto
qed

lemma fabric_inv_unmark:
  assumes s: "fabric_inv s" and p: "op_at s jid = Some p"
    and ps: "distinct (map proof_controller ps)" "length ps \<le> MAX_ACTIVATION_PROOFS"
      "proof_controller ` set ps \<subseteq> insert c (proof_controller ` set (proofs s))"
    and c: "c \<in> proof_controller ` set ps \<Longrightarrow> c \<in> op_pending p \<or> c \<in> proof_controller ` set (proofs s)"
  shows "fabric_inv (s\<lparr>operations := bt_put jid
      (p\<lparr>pending_controllers := removeAll c (pending_controllers p)\<rparr>) (operations s), proofs := ps\<rparr>)"
proof (rule fabric_inv_replace [OF s p _ _ _ ps(1,2)])
  note D = fabric_inv_D [OF s]
  let ?p = "p\<lparr>pending_controllers := removeAll c (pending_controllers p)\<rparr>"
  have pend: "op_pending ?p = op_pending p - {c}" by (simp add: op_pending_def)
  show "op_job_id ?p = jid" "intent ?p = intent p" using D(5) [OF p] by simp_all
  show "op_pending ?p \<inter> proof_controller ` set ps = {}" unfolding pend using D(9) [OF p] ps(3) by blast
  fix k q assume k: "k \<noteq> jid" and q: "op_at s k = Some q"
  have pq: "op_pending p \<inter> op_pending q = {}" using D(8) [OF p q] k by (simp add: apart_def)
  then have "c \<in> proof_controller ` set ps \<Longrightarrow> c \<notin> op_pending q" using c D(9) [OF q] by blast
  then show "op_pending ?p \<inter> op_pending q = {} \<and> op_pending q \<inter> proof_controller ` set ps = {}"
    using pq D(9) [OF q] ps(3) unfolding pend by blast
qed

lemma evict_oldest_props:
  "set (evict_oldest ps) \<subseteq> set ps" "distinct (map proof_controller ps) \<Longrightarrow> distinct (map proof_controller (evict_oldest ps))"
  "length ps \<le> Suc MAX_ACTIVATION_PROOFS \<Longrightarrow> length (evict_oldest ps) \<le> MAX_ACTIVATION_PROOFS"
  by (cases ps; auto simp: evict_oldest_def)+

lemma fabric_inv_record:
  assumes s: "fabric_inv s" and p: "op_at s jid = Some p" and c: "c \<in> set (pending_controllers p)"
  shows "fabric_inv (s\<lparr>operations := bt_put jid
      (p\<lparr>pending_controllers := removeAll c (pending_controllers p)\<rparr>) (operations s),
    proofs := evict_oldest (filter (\<lambda>e. proof_controller e \<noteq> c) (proofs s) @
      [\<lparr>proof_controller = c, proof_digest = digest, proof_scope_keys = keys\<rparr>])\<rparr>)"
proof (rule fabric_inv_unmark [OF s p])
  note D = fabric_inv_D [OF s]
  let ?new = "\<lparr>proof_controller = c, proof_digest = digest, proof_scope_keys = keys\<rparr>"
  let ?ps = "filter (\<lambda>e. proof_controller e \<noteq> c) (proofs s) @ [?new]"
  have "distinct (map proof_controller ?ps)" using distinct_filter_proofs [OF D(3)] by auto
  then show "distinct (map proof_controller (evict_oldest ?ps))" by (rule evict_oldest_props(2))
  have "length ?ps \<le> Suc MAX_ACTIVATION_PROOFS"
    using le_trans [OF length_filter_le D(4)] by simp
  then show "length (evict_oldest ?ps) \<le> MAX_ACTIVATION_PROOFS" by (rule evict_oldest_props(3))
  show "proof_controller ` set (evict_oldest ?ps) \<subseteq> insert c (proof_controller ` set (proofs s))"
    using evict_oldest_props(1) [of ?ps] by auto
  show "c \<in> op_pending p \<or> c \<in> proof_controller ` set (proofs s)" using c by (simp add: op_pending_def)
qed


section \<open>The registry as a system\<close>

inductive fab_step :: "FabricState \<Rightarrow> FabricState \<Rightarrow> bool" where
  step_admit: "fab_step s (fst (admit i jid previous s))"
| step_mark: "fab_step s (fst (mark_pending jid cs s))"
| step_clear: "fab_step s (fst (clear_inactive jid c s))"
| step_record: "fab_step s (fst (record_activation jid c digest keys s))"
| step_finish: "fab_step s (fst (finish jid s))"
| step_release: "fab_step s (fst (release_failed jid s))"
| step_invalidate: "fab_step s (fst (invalidate_and_require_clear keys s))"
| step_poison: "fab_step s (s\<lparr>poisoned := True\<rparr>)"

lemmas fabric_op_defs = mark_pending_def clear_inactive_def record_activation_def finish_def release_failed_def
  invalidate_and_require_clear_def locked_def fabric_lock_def Let_def

lemma fab_step_inv:
  assumes "fab_step s t" and s: "fabric_inv s"
  shows "fabric_inv t"
  using assms(1)
proof cases
  case (step_admit i jid previous)
  then show ?thesis using fabric_inv_admit [OF s] by simp
next
  case (step_mark jid cs)
  then show ?thesis
    using s fabric_inv_mark [OF s, of jid _ cs] by (simp add: fabric_op_defs split: option.splits)
next
  case (step_clear jid c)
  have "fabric_inv (s\<lparr>operations := bt_put jid
      (p\<lparr>pending_controllers := removeAll c (pending_controllers p)\<rparr>) (operations s)\<rparr>)" if "op_at s jid = Some p" for p
    using fabric_inv_unmark [OF s that fabric_inv_D(3,4) [OF s], of c] by auto
  with step_clear show ?thesis using s by (simp add: fabric_op_defs split: option.splits)
next
  case (step_record jid c digest keys)
  then show ?thesis
    using s fabric_inv_record [OF s, of jid _ c digest "sort_dedup keys"]
    by (simp add: fabric_op_defs split: option.splits)
next
  case (step_finish jid)
  then show ?thesis
    using s fabric_inv_delete [OF s fabric_inv_D(3) [OF s], of jid] by (simp add: fabric_op_defs split: option.splits)
next
  case (step_release jid)
  then show ?thesis
    using s fabric_inv_delete [OF s distinct_filter_proofs [OF fabric_inv_D(3) [OF s]] length_filter_le]
    by (simp add: fabric_op_defs split: option.splits)
next
  case (step_invalidate keys)
  then show ?thesis
    using s fabric_inv_proofs [OF s distinct_filter_proofs [OF fabric_inv_D(3) [OF s]] length_filter_le]
    by (simp add: fabric_op_defs)
next
  case step_poison
  then show ?thesis using s by (simp add: fabric_inv_def)
qed

abbreviation fabric_init :: "FabricState \<Rightarrow> bool" where
  "fabric_init s \<equiv> s = fabric_default"

interpretation fab: safe_system fabric_init fab_step fabric_inv
proof unfold_locales
  show "fabric_init s \<Longrightarrow> fabric_inv s" for s by (simp add: fabric_default_def fabric_inv_def bt_ok_def)
  show "fabric_inv s \<Longrightarrow> fab_step s t \<Longrightarrow> fabric_inv t" for s t by (rule fab_step_inv)
qed


section \<open>Properties\<close>

text \<open>A controller prepared, activated and handed over, for the witnesses.\<close>

definition tray :: ControllerIdentity where
  "tray = ControllerIdentity ''C1'' 3"

definition sample_intent :: FabricOperationIntent where
  "sample_intent = \<lparr>scope_keys = [''sw2'', ''sw1'', ''sw2''], rule_id = ''r''\<rparr>"

definition fabric_admitted :: FabricState where
  "fabric_admitted = fst (admit sample_intent ''j1'' None fabric_default)"

definition fabric_marked :: FabricState where
  "fabric_marked = fst (mark_pending ''j1'' [tray] fabric_admitted)"

lemma reach_fabric:
  "reach fabric_init fab_step fabric_admitted" "reach fabric_init fab_step fabric_marked"
proof -
  have "reach fabric_init fab_step fabric_default" by (simp add: reach.reach_init)
  then show a: "reach fabric_init fab_step fabric_admitted"
    unfolding fabric_admitted_def by (rule reach.reach_step) (rule step_admit)
  show "reach fabric_init fab_step fabric_marked"
    unfolding fabric_marked_def using a by (rule reach.reach_step) (rule step_mark)
qed

text \<open>C8. In every history the operations of different jobs own disjoint scopes and disjoint pending
  controllers, a pending controller has no activation proof, a controller has at most one proof, and
  there are at most 256 operations and 1024 proofs.\<close>

theorem fabric_exclusive:
  assumes "reach fabric_init fab_step s"
  shows "(\<forall>j k p q. op_at s j = Some p \<and> op_at s k = Some q \<and> j \<noteq> k \<longrightarrow>
      set (scope_keys (intent p)) \<inter> set (scope_keys (intent q)) = {} \<and>
      set (pending_controllers p) \<inter> set (pending_controllers q) = {}) \<and>
    (\<forall>j p c. op_at s j = Some p \<and> c \<in> set (pending_controllers p) \<longrightarrow> c \<notin> proof_controller ` set (proofs s)) \<and>
    distinct (map proof_controller (proofs s)) \<and> length (operations s) \<le> 256 \<and> length (proofs s) \<le> 1024"
proof -
  note inv = fab.reach_inv [OF assms]
  note D = fabric_inv_D [OF inv]
  have "set (scope_keys (intent p)) \<inter> set (scope_keys (intent q)) = {} \<and>
      set (pending_controllers p) \<inter> set (pending_controllers q) = {}"
    if "op_at s j = Some p" "op_at s k = Some q" "j \<noteq> k" for j k p q
    using D(8) [OF that] by (simp add: apart_def op_scope_def op_pending_def)
  moreover have "c \<notin> proof_controller ` set (proofs s)"
    if "op_at s j = Some p" "c \<in> set (pending_controllers p)" for j p c
    using D(9) [OF that(1)] that(2) by (auto simp: op_pending_def)
  ultimately show ?thesis using D(2-4) unfolding MAX_OPERATIONS_def MAX_ACTIVATION_PROOFS_def by blast
qed

theorem fabric_exclusive_witness:
  "op_at fabric_marked ''j1'' = Some \<lparr>op_job_id = ''j1'', intent = \<lparr>scope_keys = [''sw1'', ''sw2''], rule_id = ''r''\<rparr>,
     pending_controllers = [tray]\<rparr> \<and> tray \<notin> proof_controller ` set (proofs fabric_marked)"
proof -
  have "op_at fabric_marked ''j1'' = Some \<lparr>op_job_id = ''j1'',
      intent = \<lparr>scope_keys = [''sw1'', ''sw2''], rule_id = ''r''\<rparr>, pending_controllers = [tray]\<rparr>" by code_simp
  then show ?thesis using fabric_exclusive [OF reach_fabric(2)] by fastforce
qed

text \<open>C34. A transfer of ownership keeps the scope, the rule and the pending controllers and fences the old job: the old job owns nothing
  afterwards, and each of its later mutations fails and changes nothing.\<close>

theorem transfer_fences:
  assumes reach: "reach fabric_init fab_step s" and adm: "admit i jid (Some prev) s = (s', Inr p)"
  shows "(\<exists>old. op_at s prev = Some old \<and> pending_controllers p = pending_controllers old \<and>
      intent p = intent old) \<and>
    op_at s' jid = Some p \<and> op_at s' prev = None \<and>
    mark_pending prev cs s' = (s', Inl owner_changed) \<and> clear_inactive prev c s' = (s', Inl owner_changed) \<and>
    finish prev s' = (s', Inl owner_changed) \<and> release_failed prev s' = (s', Inl owner_changed) \<and>
    (\<exists>e. record_activation prev c digest keys s' = (s', Inl e))"
proof -
  note inv = fab.reach_inv [OF reach]
  note D = fabric_inv_D [OF inv]
  obtain i' where n: "normalize_intent i = Inr i'" using adm by (cases "normalize_intent i") (simp_all add: admit_def)
  have free: "\<not> poisoned s" "op_at s jid = None"
    using adm n by (auto simp: admit_def locked_def fabric_lock_def split: if_splits)
  obtain pending where pend: "admit_pending i' (Some prev) (admission_overlap i' s) s = Inr pending"
    using adm n free by (cases "admit_pending i' (Some prev) (admission_overlap i' s) s")
      (auto simp: admit_def locked_def fabric_lock_def split: if_splits)
  then obtain old where old: "prev = op_job_id old" "admission_overlap i' s = [old]"
      "scope_keys (intent old) = scope_keys i'" "rule_id (intent old) = rule_id i'" "pending = pending_controllers old"
    by (cases rule: admit_pending_cases) auto
  have at: "op_at s prev = Some old"
    using admission_overlap_iff [OF inv, of i' old] normalize_intent_Inr [OF n] old(1,2) by simp
  have res: "s' = s\<lparr>operations := bt_put jid p (hm_del prev (operations s))\<rparr>"
      "p = \<lparr>op_job_id = jid, intent = i', pending_controllers = pending\<rparr>"
    using adm n free pend by (auto simp: admit_def locked_def fabric_lock_def Let_def split: if_splits)
  have at': "op_at s' = (op_at s)(prev := None, jid \<mapsto> p)"
    using btree.get_put [OF btree.ok_del [OF D(1)]] btree.get_del [OF D(1)] by (simp add: res(1))
  have none: "op_at s' prev = None" "op_at s' jid = Some p" using at free(2) by (auto simp: at')
  have "\<not> poisoned s'" using free(1) by (simp add: res(1))
  with none(1) have fenced: "mark_pending prev cs s' = (s', Inl owner_changed)"
      "clear_inactive prev c s' = (s', Inl owner_changed)" "finish prev s' = (s', Inl owner_changed)"
      "release_failed prev s' = (s', Inl owner_changed)"
      "\<exists>e. record_activation prev c digest keys s' = (s', Inl e)"
    by (simp_all add: fabric_op_defs)
  have "intent p = intent old" using old(3,4) by (simp add: res(2))
  with at none fenced old(5) res(2) show ?thesis by auto
qed

theorem transfer_fences_witness:
  "op_at (fst (admit sample_intent ''j2'' (Some ''j1'') fabric_marked)) ''j1'' = None \<and>
   pending_controllers (projr (snd (admit sample_intent ''j2'' (Some ''j1'') fabric_marked))) = [tray] \<and>
   finish ''j1'' (fst (admit sample_intent ''j2'' (Some ''j1'') fabric_marked)) =
     (fst (admit sample_intent ''j2'' (Some ''j1'') fabric_marked), Inl owner_changed)"
proof -
  let ?a = "admit sample_intent ''j2'' (Some ''j1'') fabric_marked"
  have ok: "isl (snd ?a) = False" and pend: "map_option pending_controllers (op_at fabric_marked ''j1'') = Some [tray]"
    by code_simp+
  have "?a = (fst ?a, Inr (projr (snd ?a)))" using ok by (cases ?a) (auto split: sum.splits simp: isl_def)
  from transfer_fences [OF reach_fabric(2) this] pend show ?thesis by auto
qed


lemma proof_at_put: "bt_ok m \<Longrightarrow> map_of (bt_put j p m) j = Some p"
  by (simp add: btree.get_put)

lemma evict_oldest_last: "last (evict_oldest (ps @ [e])) = e \<and> evict_oldest (ps @ [e]) \<noteq> []"
  by (cases ps) (simp_all add: evict_oldest_def MAX_ACTIVATION_PROOFS_def)

text \<open>Evidence round trip: once an activation is recorded, the registry confirms exactly the recorded digest
  for that controller, however full the proof table was, and the controller is no longer pending; marking
  it pending again withdraws the evidence for every digest.\<close>

theorem activation_evidence:
  assumes reach: "reach fabric_init fab_step s" and rec: "record_activation jid c digest keys s = (s', Inr u)"
  shows "has_activation_proof c d s' = Inr (d = digest) \<and>
    (\<exists>p. op_at s' jid = Some p \<and> c \<notin> set (pending_controllers p)) \<and>
    (mark_pending jid2 cs s' = (s'', Inr v) \<and> c \<in> set cs \<longrightarrow> has_activation_proof c d s'' = Inr False)"
proof -
  note D = fabric_inv_D [OF fab.reach_inv [OF reach]]
  let ?new = "\<lparr>proof_controller = c, proof_digest = digest, proof_scope_keys = sort_dedup keys\<rparr>"
  let ?ps = "filter (\<lambda>e. proof_controller e \<noteq> c) (proofs s) @ [?new]"
  obtain p where p: "op_at s jid = Some p" "\<not> poisoned s"
      "s' = s\<lparr>operations := bt_put jid (p\<lparr>pending_controllers := removeAll c (pending_controllers p)\<rparr>) (operations s),
              proofs := evict_oldest ?ps\<rparr>"
    using rec by (auto simp: record_activation_def locked_def fabric_lock_def Let_def split: if_splits option.splits)
  have "?new \<in> set (evict_oldest ?ps)" using evict_oldest_last last_in_set by metis
  moreover have "e = ?new" if "e \<in> set (evict_oldest ?ps)" "proof_controller e = c" for e
    using that evict_oldest_props(1) [of ?ps] by auto
  ultimately have "list_ex (\<lambda>e. proof_controller e = c \<and> proof_digest e = d) (evict_oldest ?ps) \<longleftrightarrow> d = digest"
    unfolding list_ex_iff by (metis ActivationProof.select_convs(1,2))
  then have "has_activation_proof c d s' = Inr (d = digest)"
    using p(2) by (simp add: has_activation_proof_def fabric_lock_def p(3))
  moreover have "op_at s' jid = Some (p\<lparr>pending_controllers := removeAll c (pending_controllers p)\<rparr>)"
    using proof_at_put [OF D(1)] by (simp add: p(3))
  moreover have "has_activation_proof c d s'' = Inr False"
    if "mark_pending jid2 cs s' = (s'', Inr v)" "c \<in> set cs"
    using that by (auto simp: mark_pending_def locked_def fabric_lock_def has_activation_proof_def list_ex_iff
        split: if_splits option.splits)
  ultimately show ?thesis by auto
qed

theorem activation_evidence_witness:
  "has_activation_proof tray ''d1'' (fst (record_activation ''j1'' tray ''d1'' [''sw1''] fabric_marked)) = Inr True \<and>
   has_activation_proof tray ''d2'' (fst (record_activation ''j1'' tray ''d1'' [''sw1''] fabric_marked)) = Inr False"
proof -
  let ?a = "record_activation ''j1'' tray ''d1'' [''sw1''] fabric_marked"
  have "snd ?a = Inr ()" by code_simp
  then have "?a = (fst ?a, Inr ())" by (cases ?a) simp
  from activation_evidence [OF reach_fabric(2) this] show ?thesis by simp
qed

text \<open>Every refused operation leaves the registry as it was, and a poisoned lock refuses each
  of them and both queries.\<close>

theorem fabric_refusal_frame:
  "(admit i jid previous s = (s', Inl e) \<longrightarrow> s' = s) \<and> (mark_pending jid cs s = (s', Inl e) \<longrightarrow> s' = s) \<and>
   (clear_inactive jid c s = (s', Inl e) \<longrightarrow> s' = s) \<and> (record_activation jid c digest keys s = (s', Inl e) \<longrightarrow> s' = s) \<and>
   (finish jid s = (s', Inl e) \<longrightarrow> s' = s) \<and> (release_failed jid s = (s', Inl e) \<longrightarrow> s' = s) \<and>
   (invalidate_and_require_clear keys s = (s', Inl e) \<longrightarrow> s' = s) \<and>
   (poisoned s \<longrightarrow> isl (snd (admit i jid previous s)) \<and> isl (snd (record_activation jid c digest keys s)) \<and>
      isl (snd (mark_pending jid cs s)) \<and> isl (snd (clear_inactive jid c s)) \<and> isl (snd (finish jid s)) \<and>
      isl (snd (release_failed jid s)) \<and> isl (snd (invalidate_and_require_clear keys s)) \<and>
      isl (has_activation_proof c digest s) \<and> isl (find_overlapping keys s))"
proof -
  have "admit i jid previous s = (s', Inl e) \<longrightarrow> s' = s"
    by (auto simp: admit_def locked_def fabric_lock_def Let_def split: sum.splits if_splits)
  moreover have "poisoned s \<longrightarrow> isl (snd (admit i jid previous s))"
    by (auto simp: admit_def locked_def fabric_lock_def split: sum.splits)
  moreover have "mark_pending jid cs s = (s', Inl e) \<longrightarrow> s' = s" "clear_inactive jid c s = (s', Inl e) \<longrightarrow> s' = s"
      "record_activation jid c digest keys s = (s', Inl e) \<longrightarrow> s' = s" "finish jid s = (s', Inl e) \<longrightarrow> s' = s"
      "release_failed jid s = (s', Inl e) \<longrightarrow> s' = s" "invalidate_and_require_clear keys s = (s', Inl e) \<longrightarrow> s' = s"
    by (auto simp: fabric_op_defs split: option.splits if_splits)
  moreover have "poisoned s \<longrightarrow> isl (snd (record_activation jid c digest keys s)) \<and> isl (snd (mark_pending jid cs s)) \<and>
      isl (snd (clear_inactive jid c s)) \<and> isl (snd (finish jid s)) \<and> isl (snd (release_failed jid s)) \<and>
      isl (snd (invalidate_and_require_clear keys s)) \<and> isl (has_activation_proof c digest s) \<and>
      isl (find_overlapping keys s)"
    by (simp add: fabric_op_defs has_activation_proof_def find_overlapping_def)
  ultimately show ?thesis by blast
qed

theorem fabric_refusal_frame_witness:
  "fst (finish ''j1'' fabric_marked) = fabric_marked"
proof -
  have "snd (finish ''j1'' fabric_marked) = Inl (rms_failed_precondition ''controller activation remains pending'')"
    by code_simp
  then have "finish ''j1'' fabric_marked = (fst (finish ''j1'' fabric_marked),
      Inl (rms_failed_precondition ''controller activation remains pending''))" by (cases "finish ''j1'' fabric_marked") simp
  with fabric_refusal_frame show ?thesis by blast
qed

end
