(* ===== verification/Stage_Timeline.thy ===== *)
theory Stage_Timeline
  imports Job_Tracker Rms_Error
begin

text \<open>
  \<open>orchestrator/stage_timeline.rs\<close>: the predefined stages of a job and the cursor that moves over them.
  An \<open>Instant\<close> is a number of nanoseconds, an \<open>i64\<close> a 64-bit word; every operation that reads the clock
  takes the reading as an argument.  \<open>debug_assert!\<close> is inactive, as in release builds.
\<close>

section \<open>Stages\<close>

datatype StageStatus = S_Queued | S_Running | S_Completed | S_Failed | S_Skipped

fun stage_status_as_str :: "StageStatus \<Rightarrow> string" where
  "stage_status_as_str S_Queued = ''queued''"
| "stage_status_as_str S_Running = ''running''"
| "stage_status_as_str S_Completed = ''completed''"
| "stage_status_as_str S_Failed = ''failed''"
| "stage_status_as_str S_Skipped = ''skipped''"

record Stage =
  st_name :: string
  st_description :: string
  st_status :: StageStatus
  st_message :: string
  st_started_at :: "nat option"
  st_finished_at :: "nat option"
  st_details :: Value

definition stage_new :: "string \<Rightarrow> string \<Rightarrow> Stage" where
  "stage_new name descr =
     \<lparr>st_name = name, st_description = descr, st_status = S_Queued, st_message = [],
      st_started_at = None, st_finished_at = None, st_details = JObject []\<rparr>"

type_synonym i64 = "64 word"

record StageTimeline =
  tl_stages :: "Stage list"
  tl_cursor :: nat
  tl_job_id :: string
  tl_node :: string
  tl_rack :: string
  tl_started_at_wall :: i64
  tl_started_at_mono :: nat

definition with_stages :: "i64 \<Rightarrow> nat \<Rightarrow> string \<Rightarrow> Stage list \<Rightarrow> StageTimeline" where
  "with_stages wall now jid stages =
     \<lparr>tl_stages = stages, tl_cursor = 0, tl_job_id = jid, tl_node = [], tl_rack = [],
      tl_started_at_wall = wall, tl_started_at_mono = now\<rparr>"

definition timeline_new :: "i64 \<Rightarrow> nat \<Rightarrow> StageTimeline" where
  "timeline_new wall now = with_stages wall now [] []"

definition with_node_rack :: "string \<Rightarrow> string \<Rightarrow> StageTimeline \<Rightarrow> StageTimeline" where
  "with_node_rack node rack tml = tml\<lparr>tl_node := node, tl_rack := rack\<rparr>"

definition current_name :: "StageTimeline \<Rightarrow> string option" where
  "current_name tml =
     (if tl_cursor tml < length (tl_stages tml) then Some (st_name (tl_stages tml ! tl_cursor tml)) else None)"


section \<open>Transitions\<close>

definition start_current :: "nat \<Rightarrow> StageTimeline \<Rightarrow> StageTimeline \<times> Stage option" where
  "start_current now tml =
     (if tl_cursor tml < length (tl_stages tml) then
        (let stage = tl_stages tml ! tl_cursor tml;
             stage = stage\<lparr>st_started_at := (case st_started_at stage of None \<Rightarrow> Some now | Some t \<Rightarrow> Some t),
                           st_status := S_Running\<rparr>
         in (tml\<lparr>tl_stages := (tl_stages tml)[tl_cursor tml := stage]\<rparr>, Some stage))
      else (tml, None))"

definition start_stage :: "nat \<Rightarrow> StageTimeline \<Rightarrow> StageTimeline \<times> (string \<times> string) result" where
  "start_stage now tml =
     (case start_current now tml of
        (tml, None) \<Rightarrow> (tml, Inl (rms_internal ''stage list exhausted''))
      | (tml, Some stage) \<Rightarrow> (tml, Inr (st_name stage, st_description stage)))"

definition finish_stage :: "nat \<Rightarrow> StageStatus \<Rightarrow> string \<Rightarrow> Value \<Rightarrow> Stage \<Rightarrow> Stage" where
  "finish_stage now status message details stage =
     stage\<lparr>st_started_at := (case st_started_at stage of None \<Rightarrow> Some now | Some t \<Rightarrow> Some t),
           st_finished_at := Some now, st_status := status,
           st_message := (if message \<noteq> [] then message else st_message stage),
           st_details := (if details \<noteq> JObject [] then details else st_details stage)\<rparr>"

definition finish_index :: "nat \<Rightarrow> nat \<Rightarrow> StageStatus \<Rightarrow> string \<Rightarrow> Value \<Rightarrow> StageTimeline \<Rightarrow> StageTimeline" where
  "finish_index now idx status message details tml =
     tml\<lparr>tl_stages := (tl_stages tml)[idx := finish_stage now status message details (tl_stages tml ! idx)]\<rparr>"

definition advance :: "StageStatus \<Rightarrow> nat \<Rightarrow> Value \<Rightarrow> StageTimeline \<Rightarrow> StageTimeline \<times> string option" where
  "advance status now details tml =
     (if length (tl_stages tml) \<le> tl_cursor tml then (tml, None)
      else
        (let tml = finish_index now (tl_cursor tml) status [] details tml;
             tml = tml\<lparr>tl_cursor := tl_cursor tml + 1\<rparr>
         in (tml, current_name tml)))"

definition complete_current :: "nat \<Rightarrow> Value \<Rightarrow> StageTimeline \<Rightarrow> StageTimeline \<times> string option" where
  "complete_current now details tml = advance S_Completed now details tml"

definition skip_current :: "nat \<Rightarrow> Value \<Rightarrow> StageTimeline \<Rightarrow> StageTimeline \<times> string option" where
  "skip_current now details tml = advance S_Skipped now details tml"

text \<open>The flag \<open>cancelled\<close> of the source only selects the log line.\<close>

definition fail_current :: "nat \<Rightarrow> string \<Rightarrow> Value \<Rightarrow> StageTimeline \<Rightarrow> StageTimeline" where
  "fail_current now message details tml =
     (if tl_cursor tml < length (tl_stages tml)
      then finish_index now (tl_cursor tml) S_Failed message details tml else tml)"

definition skip_remaining :: "StageTimeline \<Rightarrow> StageTimeline" where
  "skip_remaining tml =
     tml\<lparr>tl_stages := fold (\<lambda>idx stages.
          if st_status (stages ! idx) \<noteq> S_Queued then stages
          else stages[idx := (stages ! idx)\<lparr>st_status := S_Skipped\<rparr>])
        [tl_cursor tml..<length (tl_stages tml)] (tl_stages tml)\<rparr>"

definition millis :: "nat \<Rightarrow> i64" where
  "millis ns = word_of_nat (ns div 10 ^ 6)"

definition to_wall_ms :: "StageTimeline \<Rightarrow> nat \<Rightarrow> i64" where
  "to_wall_ms tml instant = tl_started_at_wall tml + millis (instant - tl_started_at_mono tml)"

definition stage_json :: "StageTimeline \<Rightarrow> Stage \<Rightarrow> Value" where
  "stage_json tml stage =
     (let started = (case st_started_at stage of None \<Rightarrow> 0 | Some t \<Rightarrow> to_wall_ms tml t);
          finished = (case st_finished_at stage of None \<Rightarrow> 0 | Some t \<Rightarrow> to_wall_ms tml t);
          duration = (if st_started_at stage \<noteq> None \<and> st_finished_at stage \<noteq> None then finished - started else 0)
      in JObject
        [(''name'', JString (st_name stage)), (''job_id'', JString (tl_job_id tml)),
         (''status'', JString (stage_status_as_str (st_status stage))),
         (''description'', JString (st_description stage)), (''message'', JString (st_message stage)),
         (''started_at_ms'', JInt (sint started)), (''finished_at_ms'', JInt (sint finished)),
         (''duration_ms'', JInt (sint duration)), (''details'', st_details stage)])"

fun first_running :: "Stage list \<Rightarrow> string" where
  "first_running [] = []"
| "first_running (stage # stages) =
     (if st_status stage = S_Running \<and> st_name stage \<noteq> [] then st_name stage else first_running stages)"

definition timeline_to_json :: "nat \<Rightarrow> nat \<Rightarrow> StageTimeline \<Rightarrow> Value" where
  "timeline_to_json now1 now2 tml = JObject
     [(''started_at_ms'', JInt (sint (tl_started_at_wall tml))),
      (''updated_at_ms'', JInt (sint (to_wall_ms tml now1))),
      (''total_duration_ms'', JInt (sint (millis (now2 - tl_started_at_mono tml)))),
      (''current_stage'', JString (first_running (tl_stages tml))),
      (''stage_index'', JInt (int (tl_cursor tml))), (''stage_count'', JInt (int (length (tl_stages tml)))),
      (''stages'', JArray (map (stage_json tml) (tl_stages tml)))]"

definition fail_job ::
  "JobJson \<Rightarrow> clock \<Rightarrow> nat \<Rightarrow> JobHandle \<Rightarrow> string \<Rightarrow> string \<Rightarrow> Value \<Rightarrow> (string \<Rightarrow> StageTimeline \<Rightarrow> string)
     \<Rightarrow> StageTimeline \<Rightarrow> JobRegistry \<Rightarrow> StageTimeline \<times> JobRegistry" where
  "fail_job J clk now job outcome err details build_result_json tml r =
     (let tml = skip_remaining (fail_current now err details tml);
          result_json = build_result_json outcome tml
      in (tml, handle_fail (jj_serde J) (RmsJobDomain J) clk job
            (with_result_json result_json (job_failure_new (TypedError JE_Other) err)) r))"


section \<open>Skipping, index by index\<close>

definition skip_stage :: "Stage \<Rightarrow> Stage" where
  "skip_stage stage = (if st_status stage = S_Queued then stage\<lparr>st_status := S_Skipped\<rparr> else stage)"

lemma skip_fold:
  "m + n = length stages \<Longrightarrow>
     fold (\<lambda>idx stages. if st_status (stages ! idx) \<noteq> S_Queued then stages
          else stages[idx := (stages ! idx)\<lparr>st_status := S_Skipped\<rparr>]) [m..<length stages] stages =
     take m stages @ map skip_stage (drop m stages)"
proof (induction n arbitrary: m stages)
  case (Suc n)
  let ?s = "stages[m := skip_stage (stages ! m)]"
  have m: "m < length stages" using Suc.prems by simp
  have step: "(if st_status (stages ! m) \<noteq> S_Queued then stages
      else stages[m := (stages ! m)\<lparr>st_status := S_Skipped\<rparr>]) = ?s"
    by (simp add: skip_stage_def)
  have "take (Suc m) ?s @ map skip_stage (drop (Suc m) ?s) = take m stages @ map skip_stage (drop m stages)"
    using m by (simp add: take_Suc_conv_app_nth Cons_nth_drop_Suc [symmetric])
  with Suc.IH [of "Suc m" ?s] Suc.prems m show ?case
    by (simp only: upt_conv_Cons [OF m] fold_simps(2) step length_list_update)
qed simp

lemma skip_remaining_eq:
  assumes "tl_cursor tml \<le> length (tl_stages tml)"
  shows "skip_remaining tml = tml\<lparr>tl_stages :=
    take (tl_cursor tml) (tl_stages tml) @ map skip_stage (drop (tl_cursor tml) (tl_stages tml))\<rparr>"
  using skip_fold [of "tl_cursor tml" "length (tl_stages tml) - tl_cursor tml" "tl_stages tml"] assms
  by (simp add: skip_remaining_def)


section \<open>The cursor only moves forward\<close>

text \<open>A timeline with the latest clock reading; readings never go back.\<close>

type_synonym timed = "StageTimeline \<times> nat"

inductive timeline_step :: "timed \<Rightarrow> timed \<Rightarrow> bool" where
  t_start: "t \<le> now \<Longrightarrow> timeline_step (w, t) (fst (start_current now w), now)"
| t_complete: "t \<le> now \<Longrightarrow> timeline_step (w, t) (fst (complete_current now details w), now)"
| t_skip: "t \<le> now \<Longrightarrow> timeline_step (w, t) (fst (skip_current now details w), now)"
| t_fail: "t \<le> now \<Longrightarrow> timeline_step (w, t) (fail_current now message details w, now)"
| t_rest: "timeline_step (w, t) (skip_remaining w, t)"
| t_place: "timeline_step (w, t) (with_node_rack node rack w, t)"

definition timeline_init :: "timed \<Rightarrow> bool" where
  "timeline_init x \<longleftrightarrow>
     (\<exists>wall jid specs. fst x = with_stages wall (snd x) jid (map (\<lambda>(n, d). stage_new n d) specs))"

definition times_ok :: "nat \<Rightarrow> Stage \<Rightarrow> bool" where
  "times_ok t stage \<longleftrightarrow> (\<forall>a. st_started_at stage = Some a \<longrightarrow> a \<le> t) \<and>
     (\<forall>b. st_finished_at stage = Some b \<longrightarrow> b \<le> t \<and> (\<exists>a. st_started_at stage = Some a \<and> a \<le> b))"

fun passed :: "Stage \<Rightarrow> bool" where
  "passed stage = (st_status stage = S_Completed \<or> st_status stage = S_Skipped)"

fun untouched :: "Stage \<Rightarrow> bool" where
  "untouched stage = (st_status stage = S_Queued \<or> st_status stage = S_Skipped)"

definition timeline_inv :: "timed \<Rightarrow> bool" where
  "timeline_inv x \<longleftrightarrow>
     tl_cursor (fst x) \<le> length (tl_stages (fst x)) \<and>
     list_all passed (take (tl_cursor (fst x)) (tl_stages (fst x))) \<and>
     list_all untouched (drop (Suc (tl_cursor (fst x))) (tl_stages (fst x))) \<and>
     list_all (times_ok (snd x)) (tl_stages (fst x))"

definition timeline_ord :: "timed \<Rightarrow> timed \<Rightarrow> bool" where
  "timeline_ord x y \<longleftrightarrow>
     map st_name (tl_stages (fst x)) = map st_name (tl_stages (fst y)) \<and>
     map st_description (tl_stages (fst x)) = map st_description (tl_stages (fst y)) \<and>
     tl_cursor (fst x) \<le> tl_cursor (fst y) \<and> tl_job_id (fst x) = tl_job_id (fst y) \<and>
     tl_started_at_mono (fst x) = tl_started_at_mono (fst y) \<and> tl_started_at_wall (fst x) = tl_started_at_wall (fst y)"

lemma times_ok_mono: "times_ok t stage \<Longrightarrow> t \<le> u \<Longrightarrow> times_ok u stage"
  unfolding times_ok_def using le_trans by blast

lemma times_ok_changes:
  assumes "times_ok t stage" "t \<le> now"
  shows "times_ok now (finish_stage now status message details stage)"
    "times_ok now (stage\<lparr>st_started_at := (case st_started_at stage of None \<Rightarrow> Some now | Some a \<Rightarrow> Some a),
       st_status := S_Running\<rparr>)"
  using assms by (fastforce simp: times_ok_def finish_stage_def split: option.splits)+

lemma times_ok_skip [simp]: "times_ok t (skip_stage stage) = times_ok t stage"
  by (simp add: times_ok_def skip_stage_def)

text \<open>Every clocked operation rewrites the stage at the cursor and may move the cursor past it.\<close>

lemma timeline_inv_update:
  assumes inv: "timeline_inv (w, t)" and c: "tl_cursor w < length (tl_stages w)" and "t \<le> now"
    and stage: "times_ok now stage" and w': "tl_stages w' = (tl_stages w)[tl_cursor w := stage]"
    and move: "tl_cursor w' = tl_cursor w \<or> tl_cursor w' = Suc (tl_cursor w) \<and> passed stage"
  shows "timeline_inv (w', now)"
proof -
  have times: "list_all (times_ok now) (tl_stages w)"
    using inv assms(3) times_ok_mono by (auto simp: timeline_inv_def list_all_iff)
  have upd: "list_all (times_ok now) (tl_stages w')"
    using times stage by (auto simp: w' list_all_iff dest: set_update_subset_insert [THEN subsetD])
  have "list_all passed (take (tl_cursor w') (tl_stages w'))"
    using inv c move by (auto simp: timeline_inv_def w' take_Suc_conv_app_nth)
  moreover have "set (drop (Suc (tl_cursor w')) (tl_stages w')) \<subseteq> set (drop (Suc (tl_cursor w)) (tl_stages w))"
    using move set_drop_subset_set_drop [of "Suc (tl_cursor w)" "Suc (Suc (tl_cursor w))" "tl_stages w"]
    by (auto simp: w' simp del: drop_Suc)
  then have "list_all untouched (drop (Suc (tl_cursor w')) (tl_stages w'))"
    using inv unfolding timeline_inv_def list_all_iff fst_conv by blast
  ultimately show ?thesis using upd c move by (auto simp: timeline_inv_def w')
qed


lemma timeline_inv_later: "timeline_inv (w, t) \<Longrightarrow> t \<le> now \<Longrightarrow> timeline_inv (w, now)"
  using times_ok_mono by (auto simp: timeline_inv_def list_all_iff)

lemma inv_at_cursor: "timeline_inv (w, t) \<Longrightarrow> tl_cursor w < length (tl_stages w) \<Longrightarrow> times_ok t (tl_stages w ! tl_cursor w)"
  by (simp add: timeline_inv_def list_all_length)

lemma timeline_inv_finish:
  assumes inv: "timeline_inv (w, t)" and "t \<le> now"
  shows "timeline_inv (fst (start_current now w), now)" "timeline_inv (fail_current now message details w, now)"
    "status = S_Completed \<or> status = S_Skipped \<Longrightarrow> timeline_inv (fst (advance status now details w), now)"
proof -
  note u = timeline_inv_update [OF inv _ assms(2)]
  show "timeline_inv (fst (start_current now w), now)"
  proof (cases "tl_cursor w < length (tl_stages w)")
    case True
    from u [OF True times_ok_changes(2) [OF inv_at_cursor [OF inv True] assms(2)]] True show ?thesis
      by (simp add: start_current_def Let_def)
  qed (use timeline_inv_later [OF assms] in \<open>simp add: start_current_def\<close>)
  show "timeline_inv (fail_current now message details w, now)"
  proof (cases "tl_cursor w < length (tl_stages w)")
    case True
    from u [OF True times_ok_changes(1) [OF inv_at_cursor [OF inv True] assms(2)]] True show ?thesis
      by (simp add: fail_current_def finish_index_def)
  qed (use timeline_inv_later [OF assms] in \<open>simp add: fail_current_def\<close>)
  show "timeline_inv (fst (advance status now details w), now)" if "status = S_Completed \<or> status = S_Skipped"
  proof (cases "tl_cursor w < length (tl_stages w)")
    case True
    have "passed (finish_stage now status [] details (tl_stages w ! tl_cursor w))"
      using that by (simp add: finish_stage_def)
    with u [OF True times_ok_changes(1) [OF inv_at_cursor [OF inv True] assms(2)]] True show ?thesis
      by (simp add: advance_def finish_index_def Let_def)
  qed (use timeline_inv_later [OF assms] in \<open>simp add: advance_def\<close>)
qed

lemma timeline_inv_rest:
  assumes "timeline_inv (w, t)"
  shows "timeline_inv (skip_remaining w, t)"
proof -
  have c: "tl_cursor w \<le> length (tl_stages w)" using assms by (simp add: timeline_inv_def)
  have "untouched (skip_stage x)" if "untouched x" for x using that by (auto simp: skip_stage_def)
  moreover have "list_all (times_ok t) (map skip_stage (drop (tl_cursor w) (tl_stages w)))"
    using assms by (auto simp: timeline_inv_def list_all_iff dest: in_set_dropD)
  ultimately show ?thesis
    using assms unfolding timeline_inv_def skip_remaining_eq [OF c]
    by (auto simp: list_all_iff drop_map dest: in_set_takeD)
qed

lemma update_same: "f x = f (xs ! n) \<Longrightarrow> map f (xs[n := x]) = map f xs"
  by (metis list_update_id map_update)

lemma finish_stage_names [simp]:
  "st_name (finish_stage now status message details stage) = st_name stage"
  "st_description (finish_stage now status message details stage) = st_description stage"
  "st_name (skip_stage stage) = st_name stage" "st_description (skip_stage stage) = st_description stage"
  by (simp_all add: finish_stage_def skip_stage_def)

interpretation timeline: monotone_system timeline_init timeline_step timeline_inv timeline_ord
proof unfold_locales
  fix x y z :: timed
  show "timeline_init x \<Longrightarrow> timeline_inv x"
    by (cases x) (auto simp: timeline_init_def timeline_inv_def with_stages_def stage_new_def times_ok_def list_all_iff
        dest!: in_set_dropD)
  show "timeline_inv x \<Longrightarrow> timeline_step x y \<Longrightarrow> timeline_inv y"
    by (erule timeline_step.cases)
      (auto simp: complete_current_def skip_current_def timeline_inv_finish timeline_inv_rest,
       simp add: timeline_inv_def with_node_rack_def)
  show "timeline_ord x x" by (simp add: timeline_ord_def)
  show "timeline_ord x y \<Longrightarrow> timeline_ord y z \<Longrightarrow> timeline_ord x z" by (auto simp: timeline_ord_def)
  have map_rest: "map f (take n xs) @ map f (drop n xs) = map f xs" for f :: "Stage \<Rightarrow> string" and n xs
    by (metis append_take_drop_id map_append)
  show "timeline_inv x \<Longrightarrow> timeline_step x y \<Longrightarrow> timeline_ord x y"
    by (erule timeline_step.cases)
      (auto simp: timeline_ord_def timeline_inv_def complete_current_def skip_current_def advance_def start_current_def
        fail_current_def finish_index_def with_node_rack_def skip_remaining_eq map_rest comp_def update_same Let_def)
qed


section \<open>Properties\<close>

definition sample_timeline :: StageTimeline where
  "sample_timeline = with_stages 1000 0 ''j'' (map (\<lambda>(n, d). stage_new n d)
     [(''inspect'', ''Inspect''), (''stage'', ''Stage''), (''verify'', ''Verify'')])"

definition timeline_failed :: StageTimeline where
  "timeline_failed = fail_current 9 ''disk full'' (JObject [])
     (fst (start_current 7 (fst (complete_current 5 (JObject []) (fst (start_current 3 sample_timeline))))))"

lemma reach_failed: "reach timeline_init timeline_step (timeline_failed, 9)"
proof -
  have "timeline_init (sample_timeline, 0)" unfolding timeline_init_def sample_timeline_def fst_conv snd_conv by blast
  then have "reach timeline_init timeline_step (sample_timeline, 0)" by (rule reach.reach_init)
  then have "reach timeline_init timeline_step (fst (start_current 3 sample_timeline), 3)"
    by (rule reach.reach_step) (rule t_start, simp)
  then have "reach timeline_init timeline_step (fst (complete_current 5 (JObject []) (fst (start_current 3 sample_timeline))), 5)"
    by (rule reach.reach_step) (rule t_complete, simp)
  then have "reach timeline_init timeline_step
      (fst (start_current 7 (fst (complete_current 5 (JObject []) (fst (start_current 3 sample_timeline))))), 7)"
    by (rule reach.reach_step) (rule t_start, simp)
  then show ?thesis unfolding timeline_failed_def by (rule reach.reach_step) (rule t_fail, simp)
qed

text \<open>C35. Along every history of a timeline the cursor stays within the list and never moves back, names and
  descriptions never change, every stage behind the cursor is completed or skipped, every stage beyond it
  has not run, and a recorded end is never before its start.\<close>

theorem timeline_forward:
  assumes "reach timeline_init timeline_step (w, t)" and "timeline_step\<^sup>*\<^sup>* (w, t) (w', t')"
  shows "tl_cursor w \<le> tl_cursor w' \<and> tl_cursor w' \<le> length (tl_stages w') \<and>
    map st_name (tl_stages w') = map st_name (tl_stages w) \<and>
    map st_description (tl_stages w') = map st_description (tl_stages w) \<and>
    (\<forall>i < tl_cursor w'. st_status (tl_stages w' ! i) \<in> {S_Completed, S_Skipped}) \<and>
    (\<forall>i < length (tl_stages w'). tl_cursor w' < i \<longrightarrow> st_status (tl_stages w' ! i) \<in> {S_Queued, S_Skipped}) \<and>
    (\<forall>stage \<in> set (tl_stages w'). \<forall>b. st_finished_at stage = Some b \<longrightarrow>
       (\<exists>a. st_started_at stage = Some a \<and> a \<le> b))"
proof -
  have inv: "timeline_inv (w, t)" by (rule timeline.reach_inv [OF assms(1)])
  have ord: "timeline_ord (w, t) (w', t')" by (rule timeline.run_ord [OF assms(2) inv])
  have inv': "timeline_inv (w', t')" by (rule timeline.run_inv [OF assms(2) inv])
  have c: "tl_cursor w' \<le> length (tl_stages w')" using inv' by (simp add: timeline_inv_def)
  have "st_status (tl_stages w' ! i) \<in> {S_Completed, S_Skipped}" if "i < tl_cursor w'" for i
    using inv' that c by (auto simp: timeline_inv_def list_all_length)
  moreover have "st_status (tl_stages w' ! i) \<in> {S_Queued, S_Skipped}"
    if i: "i < length (tl_stages w')" "tl_cursor w' < i" for i
  proof -
    obtain k where "i = Suc (tl_cursor w') + k" using i(2) less_iff_Suc_add by auto
    then show ?thesis using inv' i(1) by (auto simp: timeline_inv_def list_all_length)
  qed
  moreover have "\<exists>a. st_started_at stage = Some a \<and> a \<le> b"
    if "stage \<in> set (tl_stages w')" "st_finished_at stage = Some b" for stage b
    using inv' that by (auto simp: timeline_inv_def list_all_iff times_ok_def)
  ultimately show ?thesis using ord c by (simp add: timeline_ord_def)
qed

theorem timeline_forward_witness:
  "st_status (tl_stages timeline_failed ! 0) \<in> {S_Completed, S_Skipped} \<and>
   st_status (tl_stages timeline_failed ! 2) \<in> {S_Queued, S_Skipped}"
proof -
  have "tl_cursor timeline_failed = 1" "length (tl_stages timeline_failed) = 3" by code_simp+
  with timeline_forward [OF reach_failed rtranclp.rtrancl_refl] show ?thesis by simp
qed

text \<open>Skipping the remaining stages, which writes one index at a time, is the map that skips the queued stages from the
  cursor on and leaves the others alone; a second call changes nothing.\<close>

theorem skip_remaining_reference:
  assumes "tl_cursor w \<le> length (tl_stages w)"
  shows "skip_remaining w = w\<lparr>tl_stages := map (\<lambda>(i, stage).
      if tl_cursor w \<le> i \<and> st_status stage = S_Queued then stage\<lparr>st_status := S_Skipped\<rparr> else stage)
      (enumerate 0 (tl_stages w))\<rparr> \<and>
    skip_remaining (skip_remaining w) = skip_remaining w"
proof -
  have idem: "skip_stage (skip_stage x) = skip_stage x" for x by (simp add: skip_stage_def)
  have "take (tl_cursor w) (tl_stages w) @ map skip_stage (drop (tl_cursor w) (tl_stages w)) =
      map (\<lambda>(i, stage). if tl_cursor w \<le> i \<and> st_status stage = S_Queued then stage\<lparr>st_status := S_Skipped\<rparr> else stage)
        (enumerate 0 (tl_stages w))"
    using assms by (intro nth_equalityI) (auto simp: nth_append nth_enumerate_eq skip_stage_def)
  moreover have "skip_remaining (skip_remaining w) = skip_remaining w"
    using assms by (simp add: skip_remaining_eq idem comp_def)
  ultimately show ?thesis using skip_remaining_eq [OF assms] by simp
qed

theorem skip_remaining_reference_witness:
  "skip_remaining (skip_remaining timeline_failed) = skip_remaining timeline_failed"
proof -
  have "tl_cursor timeline_failed \<le> length (tl_stages timeline_failed)" by code_simp
  with skip_remaining_reference show ?thesis by blast
qed

lemma fail_skip_other:
  assumes "timeline_inv (w, t)" and "tl_cursor w < length (tl_stages w)"
    and "i < length (tl_stages w)" and "i \<noteq> tl_cursor w"
  shows "tl_stages (skip_remaining (fail_current now err details w)) ! i = skip_stage (tl_stages w ! i)"
proof -
  let ?f = "fail_current now err details w"
  have f: "tl_cursor ?f = tl_cursor w" "length (tl_stages ?f) = length (tl_stages w)"
      "tl_stages ?f ! i = tl_stages w ! i"
    using assms(2,4) by (simp_all add: fail_current_def finish_index_def)
  have behind: "st_status (tl_stages w ! i) \<noteq> S_Queued" if "i < tl_cursor w"
    using assms(1,2) that by (auto simp: timeline_inv_def list_all_length)
  have "tl_stages (skip_remaining ?f) ! i = (if i < tl_cursor w then tl_stages w ! i else skip_stage (tl_stages w ! i))"
    using assms(2,3) f by (simp add: skip_remaining_eq nth_append)
  then show ?thesis using behind by (simp add: skip_stage_def)
qed

text \<open>C36. Failing a job part way: afterwards no stage of its timeline is queued or running, the stage at the cursor is failed
  with the error text, the stages behind and beyond it are untouched except that queued ones are skipped,
  and the live job is failed with that text and the result built from the final timeline.\<close>

theorem fail_job_settles:
  assumes reach: "reach timeline_init timeline_step (w, t)" and now: "t \<le> now"
    and c: "tl_cursor w < length (tl_stages w)" and err: "err \<noteq> []"
    and job: "registry_get r (jh_job_id h) = Some job" "\<not> is_terminal (js_state job)" "jh_result_metadata h = []"
    and res: "fail_job J clk now h outcome err details build w r = (w', r')"
  shows "(\<forall>stage \<in> set (tl_stages w'). st_status stage \<noteq> S_Queued \<and> st_status stage \<noteq> S_Running) \<and>
    st_status (tl_stages w' ! tl_cursor w) = S_Failed \<and> st_message (tl_stages w' ! tl_cursor w) = err \<and>
    length (tl_stages w') = length (tl_stages w) \<and>
    (\<forall>i < length (tl_stages w). i \<noteq> tl_cursor w \<longrightarrow> tl_stages w' ! i =
       (if st_status (tl_stages w ! i) = S_Queued then (tl_stages w ! i)\<lparr>st_status := S_Skipped\<rparr> else tl_stages w ! i)) \<and>
    (\<exists>new. registry_get r' (jh_job_id h) = Some new \<and>
       js_state new = Failed ''Failed'' (TypedError JE_Other) err (build outcome w'))"
proof -
  let ?f = "fail_current now err details w"
  have inv: "timeline_inv (?f, now)" using timeline_inv_finish(2) [OF timeline.reach_inv [OF reach] now] .
  have f: "tl_cursor ?f = tl_cursor w" "length (tl_stages ?f) = length (tl_stages w)"
      "tl_stages ?f ! tl_cursor w = finish_stage now S_Failed err details (tl_stages w ! tl_cursor w)"
    using c by (simp_all add: fail_current_def finish_index_def)
  have w': "w' = skip_remaining ?f" using res by (auto simp: fail_job_def Let_def)
  have stages: "tl_stages w' = take (tl_cursor w) (tl_stages ?f) @
      map skip_stage (tl_stages ?f ! tl_cursor w # drop (Suc (tl_cursor w)) (tl_stages ?f))"
    using c f(1,2) Cons_nth_drop_Suc [of "tl_cursor w" "tl_stages ?f"] by (simp add: w' skip_remaining_eq)
  have at: "tl_stages w' ! tl_cursor w = skip_stage (tl_stages ?f ! tl_cursor w)"
    using c f(2) by (simp add: stages nth_append)
  have failed: "st_status (skip_stage (tl_stages ?f ! tl_cursor w)) = S_Failed"
      "st_message (skip_stage (tl_stages ?f ! tl_cursor w)) = err"
    using err by (simp_all add: f(3) finish_stage_def skip_stage_def)
  have "st_status x \<noteq> S_Queued \<and> st_status x \<noteq> S_Running" if "x \<in> set (tl_stages w')" for x
    using that failed(1) inv f(1) unfolding stages
    by (auto simp: timeline_inv_def list_all_iff skip_stage_def split: if_splits)
  moreover have "r' = handle_fail (jj_serde J) (RmsJobDomain J) clk h
      (with_result_json (build outcome w') (job_failure_new (TypedError JE_Other) err)) r"
    using res by (auto simp: fail_job_def Let_def)
  then have "\<exists>new. registry_get r' (jh_job_id h) = Some new \<and>
      js_state new = Failed ''Failed'' (TypedError JE_Other) err (build outcome w')"
    using job by (auto simp: handle_fail_def drop_handle_def get_marks failure_with_metadata_def failed_state_def
        with_result_json_def job_failure_new_def)
  moreover have "tl_stages w' ! i = skip_stage (tl_stages w ! i)" if i: "i < length (tl_stages w)" "i \<noteq> tl_cursor w" for i
    unfolding w' by (rule fail_skip_other [OF timeline.reach_inv [OF reach] c i])
  moreover have "length (tl_stages w') = length (tl_stages w)" using c f(2) by (simp add: stages)
  ultimately show ?thesis using at failed by (simp add: skip_stage_def)
qed

theorem fail_job_settles_witness:
  "\<exists>new. registry_get (snd (fail_job \<lparr>jj_serde = sample_serde, jj_to_string = Some \<circ> show_value sample_serde,
       jj_from_status = (\<lambda>_. None), jj_from_child = (\<lambda>_. None)\<rparr> \<lparr>utc_now = 2, instant_now = 2\<rparr> 12 (handle_of sample_job)
       ''failed'' ''no route'' (JObject []) (\<lambda>status w. status) timeline_failed sample_registry)) (JobId ''a'') = Some new \<and>
     js_state new = Failed ''Failed'' (TypedError JE_Other) ''no route'' ''failed''"
proof -
  have facts: "tl_cursor timeline_failed < length (tl_stages timeline_failed)"
    "registry_get sample_registry (JobId ''a'') = Some sample_job" "\<not> is_terminal (js_state sample_job)"
    "jh_job_id (handle_of sample_job) = JobId ''a''" "jh_result_metadata (handle_of sample_job) = []"
    by code_simp+
  show ?thesis
    using fail_job_settles [OF reach_failed _ facts(1) _ facts(2) [folded facts(4)] facts(3,5) prod.collapse [symmetric],
        of 12 "''no route''" _ _ "''failed''" _ "\<lambda>status w. status"] unfolding facts(4) by simp
qed

lemma sint_word_of_int:
  assumes "- (2 ^ 63) \<le> x" "x < 2 ^ 63"
  shows "sint (word_of_int x :: i64) = x"
  using assms by (simp add: sint_sbintrunc' signed_take_bit_int_eq_self)

text \<open>For a timeline created after the epoch and while the projected time fits a signed 64-bit number, the displayed times follow the monotonic clock: they are the
  creation time plus the whole milliseconds elapsed, in the order of the instants, so a stage that ended no
  earlier than it started shows a duration that is not negative.\<close>

theorem wall_times_monotone:
  assumes "a \<le> b" and "0 \<le> sint (tl_started_at_wall w)"
    and "sint (tl_started_at_wall w) + int ((b - tl_started_at_mono w) div 10 ^ 6) < 2 ^ 63"
  shows "sint (to_wall_ms w a) = sint (tl_started_at_wall w) + int ((a - tl_started_at_mono w) div 10 ^ 6) \<and>
    sint (to_wall_ms w a) \<le> sint (to_wall_ms w b) \<and>
    0 \<le> sint (to_wall_ms w b - to_wall_ms w a)"
proof -
  let ?s = "sint (tl_started_at_wall w)" and ?m = "\<lambda>i. int ((i - tl_started_at_mono w) div 10 ^ 6)"
  have word: "to_wall_ms w i = word_of_int (?s + ?m i)" for i
    by (simp add: to_wall_ms_def millis_def)
  have le: "?m a \<le> ?m b" using assms(1) by (simp add: div_le_mono diff_le_mono)
  have a: "sint (to_wall_ms w a) = ?s + ?m a"
    unfolding word by (rule sint_word_of_int) (use assms(2,3) le in linarith)+
  have b: "sint (to_wall_ms w b) = ?s + ?m b"
    unfolding word by (rule sint_word_of_int) (use assms(2,3) in linarith)+
  have diff: "to_wall_ms w b - to_wall_ms w a = word_of_int (?m b - ?m a)" by (simp add: word)
  have "sint (to_wall_ms w b - to_wall_ms w a) = ?m b - ?m a"
    unfolding diff by (rule sint_word_of_int) (use assms(2,3) le in linarith)+
  with a b le show ?thesis by simp
qed


theorem wall_times_monotone_witness:
  "sint (to_wall_ms sample_timeline 2500000) = 1002 \<and>
   sint (to_wall_ms sample_timeline 2500000) \<le> sint (to_wall_ms sample_timeline 9000000)"
  using wall_times_monotone [of 2500000 9000000 sample_timeline] by (simp add: sample_timeline_def with_stages_def)

end
