(* ===== verification/Firmware_Store.thy ===== *)
theory Firmware_Store
  imports Json Rms_Error
begin

text \<open>
  \<open>persistence/firmware_object.rs\<close> and \<open>persistence/memory/firmware_object.rs\<close>: the firmware catalogue
  with its default bundle per hardware type, and the apply history.  Each method runs under its locks, so
  it is one step on the pair of catalogue and history; a poisoned lock is recovered and has no effect.
  Time stamps are integers, and a method that reads the clock takes the reading.
\<close>

section \<open>Data\<close>

record FirmwareObject =
  fw_id :: string
  fw_hw :: string
  fw_available :: bool
  fw_is_default :: bool
  fw_config :: Value
  fw_parsed_components :: "Value option"
  fw_created :: int
  fw_updated :: int

record FirmwareObjectSearchFilter =
  only_available :: bool
  filter_hw :: "string option"

record StoredApply =
  sa_object_id :: string
  sa_rack_id :: string
  sa_firmware_type :: string
  sa_hw :: string
  sa_node_ids :: "string list"
  sa_applied_at :: int

record FirmwareObjectApplyHistoryRecord =
  hr_object_id :: string
  hr_rack_id :: string
  hr_firmware_type :: string
  hr_hw :: string
  hr_node_ids :: "string list"
  hr_applied_at :: int
  hr_firmware_available :: bool

record MemoryFirmwareObjectStore =
  catalog :: "(string, FirmwareObject) hmap"
  history :: "StoredApply list"

definition memory_store_new :: MemoryFirmwareObjectStore where
  "memory_store_new = \<lparr>catalog = [], history = []\<rparr>"

definition object_not_found :: "string \<Rightarrow> RmsError" where
  "object_not_found id' = rms_not_found (''firmware object '' @ id' @ '' not found'')"

definition incarnation_not_found :: "string \<Rightarrow> RmsError" where
  "incarnation_not_found id' = rms_not_found (''firmware object incarnation '' @ id' @ '' not found'')"


section \<open>Operations\<close>

type_synonym 'a store_result = "MemoryFirmwareObjectStore \<times> 'a result"

definition fw_create ::
  "int \<Rightarrow> string \<Rightarrow> string \<Rightarrow> Value \<Rightarrow> Value option \<Rightarrow> MemoryFirmwareObjectStore \<Rightarrow> FirmwareObject store_result" where
  "fw_create now id' hw config parsed s =
     (if hm_get (catalog s) id' \<noteq> None
      then (s, Inl (rms_already_exists (''firmware object '' @ id' @ '' already exists'')))
      else
        (let fw = \<lparr>fw_id = id', fw_hw = hw, fw_available = False, fw_is_default = False, fw_config = config,
                   fw_parsed_components = parsed, fw_created = now, fw_updated = now\<rparr>
         in (s\<lparr>catalog := hm_put id' fw (catalog s)\<rparr>, Inr fw)))"

definition find_by_id :: "string \<Rightarrow> MemoryFirmwareObjectStore \<Rightarrow> FirmwareObject result" where
  "find_by_id id' s = (case hm_get (catalog s) id' of Some fw \<Rightarrow> Inr fw | None \<Rightarrow> Inl (object_not_found id'))"

text \<open>\<open>sort_by_key\<close> is stable, and \<open>Reverse\<close> orders the newest first.\<close>

definition fw_list :: "FirmwareObjectSearchFilter \<Rightarrow> MemoryFirmwareObjectStore \<Rightarrow> FirmwareObject list" where
  "fw_list flt s =
     sort_key (\<lambda>fw. - fw_created fw)
       (filter (\<lambda>fw. case filter_hw flt of None \<Rightarrow> True | Some hw \<Rightarrow> fw_hw fw = hw)
         (filter (\<lambda>fw. \<not> only_available flt \<or> fw_available fw) (map snd (catalog s))))"

text \<open>The methods that look an entry up and change it in place.\<close>

definition update_entry ::
  "string \<Rightarrow> (FirmwareObject \<Rightarrow> FirmwareObject) \<Rightarrow> MemoryFirmwareObjectStore \<Rightarrow> FirmwareObject store_result" where
  "update_entry id' f s =
     (case hm_get (catalog s) id' of
        None \<Rightarrow> (s, Inl (object_not_found id'))
      | Some fw \<Rightarrow> (s\<lparr>catalog := hm_put id' (f fw) (catalog s)\<rparr>, Inr (f fw)))"

definition update_config :: "int \<Rightarrow> string \<Rightarrow> Value \<Rightarrow> MemoryFirmwareObjectStore \<Rightarrow> FirmwareObject store_result" where
  "update_config now id' config s = update_entry id' (\<lambda>fw. fw\<lparr>fw_config := config, fw_updated := now\<rparr>) s"

definition set_available :: "int \<Rightarrow> string \<Rightarrow> bool \<Rightarrow> MemoryFirmwareObjectStore \<Rightarrow> FirmwareObject store_result" where
  "set_available now id' flag s = update_entry id' (\<lambda>fw. fw\<lparr>fw_available := flag, fw_updated := now\<rparr>) s"

definition set_parsed_components_available ::
  "int \<Rightarrow> string \<Rightarrow> Value \<Rightarrow> MemoryFirmwareObjectStore \<Rightarrow> FirmwareObject store_result" where
  "set_parsed_components_available now id' parsed s = update_entry id'
     (\<lambda>fw. fw\<lparr>fw_parsed_components := Some parsed, fw_available := True, fw_updated := now\<rparr>) s"

definition finish_preparation ::
  "int \<Rightarrow> string \<Rightarrow> int \<Rightarrow> Value \<Rightarrow> bool \<Rightarrow> MemoryFirmwareObjectStore \<Rightarrow> FirmwareObject store_result" where
  "finish_preparation now id' created' metadata flag s =
     (case hm_get (catalog s) id' of
        None \<Rightarrow> (s, Inl (incarnation_not_found id'))
      | Some fw \<Rightarrow>
          if fw_created fw \<noteq> created' then (s, Inl (incarnation_not_found id'))
          else update_entry id'
            (\<lambda>fw. fw\<lparr>fw_parsed_components := Some metadata, fw_available := flag, fw_updated := now\<rparr>) s)"

definition clear_default :: "int \<Rightarrow> string \<Rightarrow> string \<Rightarrow> FirmwareObject \<Rightarrow> FirmwareObject" where
  "clear_default now id' hw fw =
     (if fw_id fw \<noteq> id' \<and> fw_hw fw = hw \<and> fw_is_default fw
      then fw\<lparr>fw_is_default := False, fw_updated := now\<rparr> else fw)"

definition set_default :: "int \<Rightarrow> string \<Rightarrow> MemoryFirmwareObjectStore \<Rightarrow> FirmwareObject store_result" where
  "set_default now id' s =
     (case hm_get (catalog s) id' of
        None \<Rightarrow> (s, Inl (object_not_found id'))
      | Some target \<Rightarrow> update_entry id' (\<lambda>fw. fw\<lparr>fw_is_default := True, fw_updated := now\<rparr>)
          (s\<lparr>catalog := map (\<lambda>(k, fw). (k, clear_default now id' (fw_hw target) fw)) (catalog s)\<rparr>))"

definition has_default :: "string \<Rightarrow> MemoryFirmwareObjectStore \<Rightarrow> bool" where
  "has_default hw s = list_ex (\<lambda>fw. fw_hw fw = hw \<and> fw_is_default fw) (map snd (catalog s))"

definition set_default_if_none :: "int \<Rightarrow> string \<Rightarrow> MemoryFirmwareObjectStore \<Rightarrow> FirmwareObject store_result" where
  "set_default_if_none now id' s =
     (case hm_get (catalog s) id' of
        None \<Rightarrow> (s, Inl (object_not_found id'))
      | Some target \<Rightarrow>
          if has_default (fw_hw target) s then (s, Inr target)
          else update_entry id' (\<lambda>fw. fw\<lparr>fw_is_default := True, fw_updated := now\<rparr>) s)"

text \<open>\<open>max_by_key\<close> returns the last of the greatest elements.\<close>

fun max_by_created :: "FirmwareObject list \<Rightarrow> FirmwareObject option" where
  "max_by_created [] = None"
| "max_by_created (fw # fws) =
     (case max_by_created fws of
        None \<Rightarrow> Some fw
      | Some best \<Rightarrow> if fw_created best < fw_created fw then Some fw else Some best)"

definition find_default_by_hw_type :: "string \<Rightarrow> MemoryFirmwareObjectStore \<Rightarrow> FirmwareObject result" where
  "find_default_by_hw_type hw s =
     (case max_by_created (filter (\<lambda>fw. fw_hw fw = hw \<and> fw_is_default fw) (map snd (catalog s))) of
        Some fw \<Rightarrow> Inr fw
      | None \<Rightarrow> Inl (rms_not_found (''default firmware object for '' @ hw @ '' not found'')))"

definition fw_delete :: "string \<Rightarrow> MemoryFirmwareObjectStore \<Rightarrow> unit store_result" where
  "fw_delete id' s =
     (case hm_get (catalog s) id' of
        None \<Rightarrow> (s, Inl (object_not_found id'))
      | Some _ \<Rightarrow> (s\<lparr>catalog := hm_del id' (catalog s)\<rparr>, Inr ()))"

definition record_apply ::
  "int \<Rightarrow> string \<Rightarrow> string \<Rightarrow> string \<Rightarrow> string \<Rightarrow> string list \<Rightarrow> MemoryFirmwareObjectStore \<Rightarrow> unit store_result" where
  "record_apply now id' rack ty hw nodes s =
     (s\<lparr>history := history s @ [\<lparr>sa_object_id = id', sa_rack_id = rack, sa_firmware_type = ty, sa_hw = hw,
        sa_node_ids = nodes, sa_applied_at = now\<rparr>]\<rparr>, Inr ())"

definition record_apply_for_incarnation ::
  "int \<Rightarrow> string \<Rightarrow> int \<Rightarrow> string \<Rightarrow> string \<Rightarrow> string \<Rightarrow> string list \<Rightarrow> MemoryFirmwareObjectStore \<Rightarrow> unit store_result" where
  "record_apply_for_incarnation now id' created' rack ty hw nodes s =
     (if (case hm_get (catalog s) id' of None \<Rightarrow> True | Some fw \<Rightarrow> fw_created fw \<noteq> created')
      then (s, Inl (incarnation_not_found id'))
      else record_apply now id' rack ty hw nodes s)"

definition history_row :: "MemoryFirmwareObjectStore \<Rightarrow> StoredApply \<Rightarrow> FirmwareObjectApplyHistoryRecord" where
  "history_row s h =
     \<lparr>hr_object_id = sa_object_id h, hr_rack_id = sa_rack_id h, hr_firmware_type = sa_firmware_type h,
      hr_hw = sa_hw h, hr_node_ids = sa_node_ids h, hr_applied_at = sa_applied_at h,
      hr_firmware_available =
        (case hm_get (catalog s) (sa_object_id h) of Some fw \<Rightarrow> fw_available fw | None \<Rightarrow> False)\<rparr>"

definition list_apply_history ::
  "string option \<Rightarrow> string list \<Rightarrow> MemoryFirmwareObjectStore \<Rightarrow> FirmwareObjectApplyHistoryRecord list" where
  "list_apply_history object rack_ids s =
     sort_key (\<lambda>row. - hr_applied_at row) (map (history_row s)
       (filter (\<lambda>h. rack_ids = [] \<or> sa_rack_id h \<in> set rack_ids)
         (filter (\<lambda>h. case object of None \<Rightarrow> True | Some id' \<Rightarrow> sa_object_id h = id') (history s))))"


section \<open>The contract of a store\<close>

text \<open>
  What the documentation of the trait promises about defaults, for any store.  Its clients rely on it when
  they add firmware: a first bundle takes the slot and later ones leave it alone.
\<close>

locale default_slots =
  fixes inv :: "'s \<Rightarrow> bool"
    and find :: "string \<Rightarrow> 's \<Rightarrow> FirmwareObject option"
    and pick :: "int \<Rightarrow> string \<Rightarrow> 's \<Rightarrow> 's"
    and pick_if_none :: "int \<Rightarrow> string \<Rightarrow> 's \<Rightarrow> 's"
  assumes pick_inv: "inv s \<Longrightarrow> inv (pick now i s)"
    and pick_sets: "inv s \<Longrightarrow> find i s = Some fw \<Longrightarrow>
      \<exists>row. find i (pick now i s) = Some row \<and> fw_is_default row \<and> fw_hw row = fw_hw fw"
    and pick_clears: "inv s \<Longrightarrow> find i s = Some fw \<Longrightarrow> j \<noteq> i \<Longrightarrow> find j (pick now i s) = Some row \<Longrightarrow>
      fw_hw row = fw_hw fw \<Longrightarrow> \<not> fw_is_default row"
    and pick_keeps: "inv s \<Longrightarrow> find j s = Some row \<Longrightarrow> \<exists>row'. find j (pick now i s) = Some row' \<and> fw_hw row' = fw_hw row"
    and if_none_kept: "inv s \<Longrightarrow> find i s = Some fw \<Longrightarrow> fw_is_default fw \<Longrightarrow> find j s = Some other \<Longrightarrow>
      fw_hw other = fw_hw fw \<Longrightarrow> pick_if_none now j s = s"
begin

lemma choice_survives_adds:
  assumes s: "inv s" and i: "find i s = Some fw" and j: "find j s = Some other" "fw_hw other = fw_hw fw"
  shows "pick_if_none now' j (pick now i s) = pick now i s \<and>
    (\<exists>row. find i (pick now i s) = Some row \<and> fw_is_default row)"
proof -
  obtain row where row: "find i (pick now i s) = Some row" "fw_is_default row" "fw_hw row = fw_hw fw"
    using pick_sets [OF s i] by blast
  obtain row' where "find j (pick now i s) = Some row'" "fw_hw row' = fw_hw other"
    using pick_keeps [OF s j(1)] by blast
  then show ?thesis using if_none_kept [OF pick_inv [OF s] row(1,2)] row j(2) by simp
qed

end


section \<open>One default per hardware type\<close>

definition store_ok :: "MemoryFirmwareObjectStore \<Rightarrow> bool" where
  "store_ok s \<longleftrightarrow> hm_ok (catalog s) \<and>
     (\<forall>i fw. hm_get (catalog s) i = Some fw \<longrightarrow> fw_id fw = i) \<and>
     (\<forall>i j fw gw. hm_get (catalog s) i = Some fw \<and> hm_get (catalog s) j = Some gw \<and> fw_hw fw = fw_hw gw \<and>
        fw_is_default fw \<and> fw_is_default gw \<longrightarrow> i = j)"

lemma store_ok_D:
  assumes "store_ok s"
  shows "hm_ok (catalog s)" "hm_get (catalog s) i = Some fw \<Longrightarrow> fw_id fw = i"
    "hm_get (catalog s) i = Some fw \<Longrightarrow> hm_get (catalog s) j = Some gw \<Longrightarrow> fw_hw fw = fw_hw gw \<Longrightarrow>
       fw_is_default fw \<Longrightarrow> fw_is_default gw \<Longrightarrow> i = j"
  using assms unfolding store_ok_def by blast+

lemma store_ok_I:
  assumes "hm_ok (catalog s)" "\<And>i fw. hm_get (catalog s) i = Some fw \<Longrightarrow> fw_id fw = i"
    "\<And>i j fw gw. hm_get (catalog s) i = Some fw \<Longrightarrow> hm_get (catalog s) j = Some gw \<Longrightarrow> fw_hw fw = fw_hw gw \<Longrightarrow>
       fw_is_default fw \<Longrightarrow> fw_is_default gw \<Longrightarrow> i = j"
  shows "store_ok s"
  using assms unfolding store_ok_def by blast

text \<open>Writing an entry keeps the invariant when the new entry is a default only if no other entry of its
  hardware type is.\<close>

lemma store_ok_put:
  assumes s: "store_ok s" and fw: "fw_id fw = i"
    and free: "\<And>j gw. fw_is_default fw \<Longrightarrow> j \<noteq> i \<Longrightarrow> hm_get (catalog s) j = Some gw \<Longrightarrow> fw_hw gw = fw_hw fw \<Longrightarrow>
      \<not> fw_is_default gw"
  shows "store_ok (s\<lparr>catalog := hm_put i fw (catalog s)\<rparr>)"
proof (rule store_ok_I)
  note D = store_ok_D [OF s]
  show "hm_ok (catalog (s\<lparr>catalog := hm_put i fw (catalog s)\<rparr>))" using hash.ok_put [OF D(1)] by simp
  show "fw_id a = k" if "hm_get (catalog (s\<lparr>catalog := hm_put i fw (catalog s)\<rparr>)) k = Some a" for k a
    using that fw D(2) [of k a] by (simp add: hm_get_put split: if_splits)
  have at: "hm_get (catalog (s\<lparr>catalog := hm_put i fw (catalog s)\<rparr>)) k = (if k = i then Some fw else hm_get (catalog s) k)" for k
    by (simp add: hm_get_put)
  show "k = l" if ab: "hm_get (catalog (s\<lparr>catalog := hm_put i fw (catalog s)\<rparr>)) k = Some a"
      "hm_get (catalog (s\<lparr>catalog := hm_put i fw (catalog s)\<rparr>)) l = Some b"
      "fw_hw a = fw_hw b" "fw_is_default a" "fw_is_default b" for k l a b
  proof (rule ccontr)
    assume kl: "k \<noteq> l"
    consider "k = i" "l \<noteq> i" | "l = i" "k \<noteq> i" | "k \<noteq> i" "l \<noteq> i" using kl by blast
    then show False
    proof cases
      case 1
      then have "a = fw" "hm_get (catalog s) l = Some b" using ab(1,2) unfolding at by simp_all
      with 1 ab free [of l b] show False by simp
    next
      case 2
      then have "b = fw" "hm_get (catalog s) k = Some a" using ab(1,2) unfolding at by simp_all
      with 2 ab free [of k a] show False by simp
    next
      case 3
      then have "hm_get (catalog s) k = Some a" "hm_get (catalog s) l = Some b" using ab(1,2) unfolding at by simp_all
      from D(3) [OF this ab(3-5)] kl show False by simp
    qed
  qed
qed

lemma store_ok_update:
  assumes s: "store_ok s"
    and f: "\<And>fw. fw_id (f fw) = fw_id fw" "\<And>fw. fw_hw (f fw) = fw_hw fw" "\<And>fw. fw_is_default (f fw) = fw_is_default fw"
  shows "store_ok (fst (update_entry i f s))"
proof (cases "hm_get (catalog s) i")
  case (Some fw)
  have "store_ok (s\<lparr>catalog := hm_put i (f fw) (catalog s)\<rparr>)"
  proof (rule store_ok_put [OF s])
    show "fw_id (f fw) = i" using store_ok_D(2) [OF s Some] f(1) by simp
    show "\<not> fw_is_default gw" if "fw_is_default (f fw)" "j \<noteq> i" "hm_get (catalog s) j = Some gw" "fw_hw gw = fw_hw (f fw)" for j gw
      using store_ok_D(3) [OF s that(3) Some] that f(2,3) by auto
  qed
  with Some show ?thesis by (simp add: update_entry_def)
qed (simp add: update_entry_def s)

lemma get_clear:
  "hm_get (map (\<lambda>(k, fw). (k, clear_default now i hw fw)) m) j = map_option (clear_default now i hw) (hm_get m j)"
  by (induction m) auto

lemma clear_default_sel [simp]:
  "fw_id (clear_default now i hw fw) = fw_id fw" "fw_hw (clear_default now i hw fw) = fw_hw fw"
  "fw_is_default (clear_default now i hw fw) \<longleftrightarrow> fw_is_default fw \<and> \<not> (fw_id fw \<noteq> i \<and> fw_hw fw = hw)"
  by (auto simp: clear_default_def)

text \<open>The catalogue after choosing a default.\<close>

lemma get_set_default:
  assumes "hm_get (catalog s) i = Some target"
  shows "hm_get (catalog (fst (set_default now i s))) j =
    (if j = i then Some ((clear_default now i (fw_hw target) target)\<lparr>fw_is_default := True, fw_updated := now\<rparr>)
     else map_option (clear_default now i (fw_hw target)) (hm_get (catalog s) j))"
  using assms by (simp add: set_default_def update_entry_def get_clear hm_get_put)

lemma store_ok_set_default:
  assumes s: "store_ok s"
  shows "store_ok (fst (set_default now i s))"
proof (cases "hm_get (catalog s) i")
  case (Some target)
  note D = store_ok_D [OF s]
  let ?c = "s\<lparr>catalog := map (\<lambda>(k, fw). (k, clear_default now i (fw_hw target) fw)) (catalog s)\<rparr>"
  have c: "store_ok ?c"
  proof (rule store_ok_I)
    show "hm_ok (catalog ?c)" using D(1) by (simp add: hm_ok_def case_prod_beta comp_def)
    show "fw_id a = k" if "hm_get (catalog ?c) k = Some a" for k a
      using that D(2) [of k] by (auto simp: get_clear)
    show "k = l" if ab: "hm_get (catalog ?c) k = Some a" "hm_get (catalog ?c) l = Some b" "fw_hw a = fw_hw b"
      "fw_is_default a" "fw_is_default b" for k l a b
    proof -
      obtain a' b' where o: "hm_get (catalog s) k = Some a'" "hm_get (catalog s) l = Some b'"
          "a = clear_default now i (fw_hw target) a'" "b = clear_default now i (fw_hw target) b'"
        using ab(1,2) by (auto simp: get_clear)
      from D(3) [OF o(1,2)] ab(3-5) show ?thesis by (simp add: o(3,4))
    qed
  qed
  let ?t = "(clear_default now i (fw_hw target) target)\<lparr>fw_is_default := True, fw_updated := now\<rparr>"
  have "store_ok (?c\<lparr>catalog := hm_put i ?t (catalog ?c)\<rparr>)"
  proof (rule store_ok_put [OF c])
    show "fw_id ?t = i" using D(2) [OF Some] by simp
    show "\<not> fw_is_default gw" if "j \<noteq> i" "hm_get (catalog ?c) j = Some gw" "fw_hw gw = fw_hw ?t" for j gw
      using that D(2) [of j] by (auto simp: get_clear)
  qed
  then show ?thesis using Some by (simp add: set_default_def update_entry_def get_clear)
qed (simp add: set_default_def s)

lemma has_default_iff:
  "store_ok s \<Longrightarrow> has_default hw s \<longleftrightarrow> (\<exists>i fw. hm_get (catalog s) i = Some fw \<and> fw_hw fw = hw \<and> fw_is_default fw)"
  using hm_ok_get [of "catalog s"] store_ok_D(1) [of s] by (force simp: has_default_def list_ex_iff)

lemma store_ok_set_default_if_none:
  assumes s: "store_ok s"
  shows "store_ok (fst (set_default_if_none now i s))"
proof (cases "hm_get (catalog s) i")
  case (Some target)
  have "store_ok (s\<lparr>catalog := hm_put i (target\<lparr>fw_is_default := True, fw_updated := now\<rparr>) (catalog s)\<rparr>)"
    if "\<not> has_default (fw_hw target) s"
    using that has_default_iff [OF s] store_ok_D(2) [OF s Some] by (intro store_ok_put [OF s]) auto
  with s Some show ?thesis by (simp add: set_default_if_none_def update_entry_def)
qed (simp add: set_default_if_none_def s)


interpretation memory: default_slots store_ok "\<lambda>i s. hm_get (catalog s) i" "\<lambda>now i s. fst (set_default now i s)"
  "\<lambda>now i s. fst (set_default_if_none now i s)"
proof unfold_locales
  fix s :: MemoryFirmwareObjectStore and i j :: string and fw row other :: FirmwareObject and now :: int
  show "store_ok s \<Longrightarrow> store_ok (fst (set_default now i s))" by (rule store_ok_set_default)
  show "\<exists>row. hm_get (catalog (fst (set_default now i s))) i = Some row \<and> fw_is_default row \<and> fw_hw row = fw_hw fw"
    if "hm_get (catalog s) i = Some fw" using that by (simp add: get_set_default)
  show "\<not> fw_is_default row" if "store_ok s" "hm_get (catalog s) i = Some fw" "j \<noteq> i"
    "hm_get (catalog (fst (set_default now i s))) j = Some row" "fw_hw row = fw_hw fw"
    using that store_ok_D(2) [OF that(1), of j] by (auto simp: get_set_default)
  show "\<exists>row'. hm_get (catalog (fst (set_default now i s))) j = Some row' \<and> fw_hw row' = fw_hw row"
    if "hm_get (catalog s) j = Some row"
    using that by (cases "hm_get (catalog s) i") (auto simp: get_set_default, simp add: set_default_def)
  show "fst (set_default_if_none now j s) = s"
    if "store_ok s" "hm_get (catalog s) i = Some fw" "fw_is_default fw" "hm_get (catalog s) j = Some other"
      "fw_hw other = fw_hw fw"
  proof -
    have "has_default (fw_hw other) s" unfolding has_default_iff [OF that(1)] using that(2,3,5) by force
    then show ?thesis using that(4) by (simp add: set_default_if_none_def)
  qed
qed

inductive fw_step :: "MemoryFirmwareObjectStore \<Rightarrow> MemoryFirmwareObjectStore \<Rightarrow> bool" where
  "fw_step s (fst (fw_create now i hw config parsed s))"
| "fw_step s (fst (update_config now i config s))"
| "fw_step s (fst (set_available now i flag s))"
| "fw_step s (fst (set_parsed_components_available now i parsed s))"
| "fw_step s (fst (finish_preparation now i created' metadata flag s))"
| "fw_step s (fst (set_default now i s))"
| "fw_step s (fst (set_default_if_none now i s))"
| "fw_step s (fst (fw_delete i s))"
| "fw_step s (fst (record_apply now i rack ty hw nodes s))"
| "fw_step s (fst (record_apply_for_incarnation now i created' rack ty hw nodes s))"

lemma store_ok_history: "store_ok (s\<lparr>history := h\<rparr>) = store_ok s"
  by (simp add: store_ok_def)

lemma store_ok_delete:
  assumes "store_ok s"
  shows "store_ok (s\<lparr>catalog := hm_del i (catalog s)\<rparr>)"
  using store_ok_D(2,3) [OF assms] hash.ok_del [OF store_ok_D(1) [OF assms]]
  by (intro store_ok_I) (auto simp: hm_get_del split: if_splits)

lemma store_ok_create:
  assumes "store_ok s"
  shows "store_ok (fst (fw_create now i hw config parsed s))"
  using assms by (auto simp: fw_create_def Let_def intro!: store_ok_put)

lemma fw_step_ok: "fw_step s t \<Longrightarrow> store_ok s \<Longrightarrow> store_ok t"
  by (induction rule: fw_step.induct)
    (auto simp: update_config_def set_available_def set_parsed_components_available_def finish_preparation_def
      fw_delete_def record_apply_def record_apply_for_incarnation_def store_ok_history
      intro: store_ok_update store_ok_create store_ok_delete store_ok_set_default store_ok_set_default_if_none
      split: option.splits)

abbreviation fw_init :: "MemoryFirmwareObjectStore \<Rightarrow> bool" where
  "fw_init s \<equiv> s = memory_store_new"

interpretation fw: safe_system fw_init fw_step store_ok
proof unfold_locales
  show "fw_init s \<Longrightarrow> store_ok s" for s by (simp add: memory_store_new_def store_ok_def)
  show "store_ok s \<Longrightarrow> fw_step s t \<Longrightarrow> store_ok t" for s t by (rule fw_step_ok)
qed


section \<open>Properties\<close>

text \<open>Two bundles of one hardware type, the first of them the default.\<close>

definition sample_store :: MemoryFirmwareObjectStore where
  "sample_store = fst (fw_create 2 ''b2'' ''gb200'' (JObject []) None
     (fst (set_default_if_none 1 ''b1'' (fst (fw_create 1 ''b1'' ''gb200'' (JObject []) None memory_store_new)))))"

lemma reach_sample_store: "reach fw_init fw_step sample_store"
proof -
  have "reach fw_init fw_step memory_store_new" by (simp add: reach.reach_init)
  then have "reach fw_init fw_step (fst (fw_create 1 ''b1'' ''gb200'' (JObject []) None memory_store_new))"
    by (rule reach.reach_step) (rule fw_step.intros)
  then have "reach fw_init fw_step (fst (set_default_if_none 1 ''b1''
      (fst (fw_create 1 ''b1'' ''gb200'' (JObject []) None memory_store_new))))"
    by (rule reach.reach_step) (rule fw_step.intros)
  then show ?thesis unfolding sample_store_def by (rule reach.reach_step) (rule fw_step.intros)
qed

lemma max_by_created_None [simp]: "max_by_created fws = None \<longleftrightarrow> fws = []"
  by (cases fws) (auto split: option.splits)

lemma max_by_created_in: "max_by_created fws = Some fw \<Longrightarrow> fw \<in> set fws"
  by (induction fws arbitrary: fw) (auto split: option.splits if_splits)

lemma default_entry:
  assumes "store_ok s"
  shows "fw \<in> set (filter (\<lambda>fw. fw_hw fw = hw \<and> fw_is_default fw) (map snd (catalog s))) \<longleftrightarrow>
    hm_get (catalog s) (fw_id fw) = Some fw \<and> fw_hw fw = hw \<and> fw_is_default fw"
proof -
  have "fw \<in> snd ` set (catalog s) \<longleftrightarrow> hm_get (catalog s) (fw_id fw) = Some fw"
  proof
    assume "fw \<in> snd ` set (catalog s)"
    then obtain i where "(i, fw) \<in> set (catalog s)" by auto
    then have "hm_get (catalog s) i = Some fw" by (simp only: hm_ok_get [OF store_ok_D(1) [OF assms]])
    with store_ok_D(2) [OF assms this] show "hm_get (catalog s) (fw_id fw) = Some fw" by simp
  next
    assume "hm_get (catalog s) (fw_id fw) = Some fw"
    from hm_get_in [OF this] show "fw \<in> snd ` set (catalog s)" by force
  qed
  then show ?thesis by simp
qed

text \<open>C37. In every history of the store a hardware type has at most one default bundle, and the lookup by
  hardware type returns exactly it: it succeeds when there is a default and fails when there is none.\<close>

theorem single_default:
  assumes reach: "reach fw_init fw_step s"
  shows "(\<forall>i j fw gw. hm_get (catalog s) i = Some fw \<and> hm_get (catalog s) j = Some gw \<and> fw_hw fw = fw_hw gw \<and>
      fw_is_default fw \<and> fw_is_default gw \<longrightarrow> i = j) \<and>
    (find_default_by_hw_type hw s = Inr fw \<longleftrightarrow>
      hm_get (catalog s) (fw_id fw) = Some fw \<and> fw_hw fw = hw \<and> fw_is_default fw) \<and>
    (isl (find_default_by_hw_type hw s) \<longleftrightarrow> \<not> has_default hw s)"
proof -
  note s = fw.reach_inv [OF reach]
  let ?l = "filter (\<lambda>fw. fw_hw fw = hw \<and> fw_is_default fw) (map snd (catalog s))"
  note entry = default_entry [OF s, of _ hw]
  have same: "a = b" if "a \<in> set ?l" "b \<in> set ?l" for a b
  proof -
    have ab: "hm_get (catalog s) (fw_id a) = Some a" "hm_get (catalog s) (fw_id b) = Some b" "fw_hw a = fw_hw b"
        "fw_is_default a" "fw_is_default b"
      using entry [of a, THEN iffD1, OF that(1)] entry [of b, THEN iffD1, OF that(2)] by argo+
    have "fw_id a = fw_id b" by (rule store_ok_D(3) [OF s ab])
    then show ?thesis using ab(1,2) by (metis option.inject)
  qed
  have "find_default_by_hw_type hw s = Inr fw \<longleftrightarrow> fw \<in> set ?l"
  proof (cases "max_by_created ?l")
    case (Some best)
    have "fw \<in> set ?l \<longleftrightarrow> best = fw"
      using same [OF max_by_created_in [OF Some], of fw] max_by_created_in [OF Some] by metis
    with Some show ?thesis by (simp only: find_default_by_hw_type_def) simp
  qed (simp add: find_default_by_hw_type_def)
  moreover have "isl (find_default_by_hw_type hw s) \<longleftrightarrow> ?l = []"
    by (cases "max_by_created ?l") (auto simp: find_default_by_hw_type_def)
  moreover have "?l = [] \<longleftrightarrow> \<not> has_default hw s"
    by (auto simp: has_default_def list_ex_iff filter_empty_conv)
  ultimately have lookup: "(find_default_by_hw_type hw s = Inr fw \<longleftrightarrow>
      hm_get (catalog s) (fw_id fw) = Some fw \<and> fw_hw fw = hw \<and> fw_is_default fw) \<and>
    (isl (find_default_by_hw_type hw s) \<longleftrightarrow> \<not> has_default hw s)" using entry [of fw] by argo
  have "\<forall>i j fw gw. hm_get (catalog s) i = Some fw \<and> hm_get (catalog s) j = Some gw \<and> fw_hw fw = fw_hw gw \<and>
      fw_is_default fw \<and> fw_is_default gw \<longrightarrow> i = j" 
    using s [unfolded store_ok_def, THEN conjunct2, THEN conjunct2] .
  with lookup show ?thesis by (rule conjI [rotated])
qed

theorem single_default_witness:
  "\<exists>fw. find_default_by_hw_type ''gb200'' sample_store = Inr fw \<and> fw_id fw = ''b1''"
proof -
  have "map_option fw_id (hm_get (catalog sample_store) ''b1'') = Some ''b1'' \<and>
      map_option fw_hw (hm_get (catalog sample_store) ''b1'') = Some ''gb200'' \<and>
      map_option fw_is_default (hm_get (catalog sample_store) ''b1'') = Some True" by code_simp
  then obtain fw where "hm_get (catalog sample_store) ''b1'' = Some fw" "fw_id fw = ''b1''" "fw_hw fw = ''gb200''"
      "fw_is_default fw" by auto
  then show ?thesis using single_default [OF reach_sample_store, of "''gb200''" fw] by auto
qed

text \<open>A chosen default survives later additions: choosing a bundle makes it the only default of its hardware
  type, whatever was the default before, and offering any bundle of that type the free slot afterwards
  changes nothing.\<close>

theorem default_survives_adds:
  assumes "reach fw_init fw_step s" and "hm_get (catalog s) i = Some fw"
    and "hm_get (catalog s) j = Some other" and "fw_hw other = fw_hw fw"
  shows "fst (set_default_if_none now' j (fst (set_default now i s))) = fst (set_default now i s) \<and>
    (\<exists>row. hm_get (catalog (fst (set_default now i s))) i = Some row \<and> fw_is_default row) \<and>
    (\<forall>k row. k \<noteq> i \<and> hm_get (catalog (fst (set_default now i s))) k = Some row \<and> fw_hw row = fw_hw fw \<longrightarrow>
       \<not> fw_is_default row)"
  using memory.choice_survives_adds [OF fw.reach_inv [OF assms(1)] assms(2-4)]
    memory.pick_clears [OF fw.reach_inv [OF assms(1)] assms(2)] by blast

theorem default_survives_adds_witness:
  "fst (set_default_if_none 9 ''b1'' (fst (set_default 8 ''b2'' sample_store))) = fst (set_default 8 ''b2'' sample_store)"
proof -
  have "map_option fw_hw (hm_get (catalog sample_store) ''b2'') = Some ''gb200'' \<and>
      map_option fw_hw (hm_get (catalog sample_store) ''b1'') = Some ''gb200''" by code_simp
  then obtain fw other where "hm_get (catalog sample_store) ''b2'' = Some fw"
      "hm_get (catalog sample_store) ''b1'' = Some other" "fw_hw other = fw_hw fw" by auto
  with default_survives_adds [OF reach_sample_store] show ?thesis by blast
qed

text \<open>C38. The availability shown in the apply history is the availability flag of the bundle that has the
  identifier now, so a bundle that is in the catalogue but not available is shown as unavailable; a
  deleted one is shown as unavailable too, and deleting a bundle keeps all its history.\<close>

theorem history_shows_availability:
  assumes "row \<in> set (list_apply_history object racks s)"
  shows "(hr_firmware_available row \<longleftrightarrow>
      (\<exists>fw. hm_get (catalog s) (hr_object_id row) = Some fw \<and> fw_available fw)) \<and>
    (\<forall>fw. hm_get (catalog s) (hr_object_id row) = Some fw \<and> \<not> fw_available fw \<longrightarrow> \<not> hr_firmware_available row) \<and>
    (\<exists>row' \<in> set (list_apply_history object racks (fst (fw_delete (hr_object_id row) s))).
       row' = row\<lparr>hr_firmware_available := False\<rparr>)"
proof -
  obtain h where h: "h \<in> set (filter (\<lambda>h. racks = [] \<or> sa_rack_id h \<in> set racks)
      (filter (\<lambda>h. case object of None \<Rightarrow> True | Some id' \<Rightarrow> sa_object_id h = id') (history s)))" "row = history_row s h"
    using assms by (auto simp: list_apply_history_def)
  have o: "hr_object_id row = sa_object_id h" by (simp add: h(2) history_row_def)
  let ?d = "fst (fw_delete (sa_object_id h) s)"
  have d: "history ?d = history s" "hm_get (catalog ?d) (sa_object_id h) = None"
    by (auto simp: fw_delete_def hm_get_del split: option.splits)
  have "history_row ?d h = row\<lparr>hr_firmware_available := False\<rparr>" by (simp add: history_row_def h(2) d(2))
  moreover have "history_row ?d h \<in> set (list_apply_history object racks ?d)"
    using h(1) by (simp add: list_apply_history_def d(1))
  ultimately have "\<exists>row' \<in> set (list_apply_history object racks ?d). row' = row\<lparr>hr_firmware_available := False\<rparr>" by blast
  moreover have "hr_firmware_available row \<longleftrightarrow> (\<exists>fw. hm_get (catalog s) (sa_object_id h) = Some fw \<and> fw_available fw)"
    by (simp add: h(2) history_row_def split: option.splits)
  ultimately show ?thesis unfolding o by simp
qed

theorem history_shows_availability_witness:
  "hm_get (catalog sample_store) ''b1'' \<noteq> None \<and>
   (\<exists>row \<in> set (list_apply_history None [] (fst (record_apply 5 ''b1'' ''R'' ''bmc'' ''gb200'' [] sample_store))).
      hr_object_id row = ''b1'' \<and> \<not> hr_firmware_available row)"
proof -
  let ?s = "fst (record_apply 5 ''b1'' ''R'' ''bmc'' ''gb200'' [] sample_store)"
  let ?r = "hd (list_apply_history None [] ?s)"
  have f: "hm_get (catalog sample_store) ''b1'' \<noteq> None" "hr_object_id ?r = ''b1''" "list_apply_history None [] ?s \<noteq> []"
    "map_option fw_available (hm_get (catalog ?s) ''b1'') = Some False" by code_simp+
  have "?r \<in> set (list_apply_history None [] ?s)" using f(3) by (rule hd_in_set)
  with history_shows_availability [OF this] f show ?thesis by auto
qed

end
