(* ===== verification/Special_Ip.thy ===== *)
theory Special_Ip
  imports Ip_Addr
begin

text \<open>
  The table of special-purpose address blocks (\<open>utilities/special_purpose_ip.rs\<close>) that guards artifact
  downloads and switch targets.  A block is tested with a prefix mask on the machine word; the lemmas show
  that the mask tests exactly an interval of addresses, because every block of the tables is aligned.
\<close>

unbundle bit_operations_syntax

section \<open>The tables\<close>

datatype PrivateUse = Allowed | Disallowed

record V4Block =
  v4_network :: Ipv4Addr
  v4_prefix :: "8 word"
  v4_private_use :: bool

record V6Block =
  v6_network :: Ipv6Addr
  v6_prefix :: "8 word"
  v6_private_use :: bool

definition V4_BLOCKS :: "V4Block list" where
  "V4_BLOCKS =
     [\<lparr>v4_network = ipv4_of [0, 0, 0, 0], v4_prefix = 8, v4_private_use = False\<rparr>,
      \<lparr>v4_network = ipv4_of [10, 0, 0, 0], v4_prefix = 8, v4_private_use = True\<rparr>,
      \<lparr>v4_network = ipv4_of [100, 64, 0, 0], v4_prefix = 10, v4_private_use = False\<rparr>,
      \<lparr>v4_network = ipv4_of [127, 0, 0, 0], v4_prefix = 8, v4_private_use = False\<rparr>,
      \<lparr>v4_network = ipv4_of [169, 254, 0, 0], v4_prefix = 16, v4_private_use = False\<rparr>,
      \<lparr>v4_network = ipv4_of [172, 16, 0, 0], v4_prefix = 12, v4_private_use = True\<rparr>,
      \<lparr>v4_network = ipv4_of [192, 0, 0, 0], v4_prefix = 24, v4_private_use = False\<rparr>,
      \<lparr>v4_network = ipv4_of [192, 0, 2, 0], v4_prefix = 24, v4_private_use = False\<rparr>,
      \<lparr>v4_network = ipv4_of [192, 31, 196, 0], v4_prefix = 24, v4_private_use = False\<rparr>,
      \<lparr>v4_network = ipv4_of [192, 52, 193, 0], v4_prefix = 24, v4_private_use = False\<rparr>,
      \<lparr>v4_network = ipv4_of [192, 88, 99, 0], v4_prefix = 24, v4_private_use = False\<rparr>,
      \<lparr>v4_network = ipv4_of [192, 168, 0, 0], v4_prefix = 16, v4_private_use = True\<rparr>,
      \<lparr>v4_network = ipv4_of [192, 175, 48, 0], v4_prefix = 24, v4_private_use = False\<rparr>,
      \<lparr>v4_network = ipv4_of [198, 18, 0, 0], v4_prefix = 15, v4_private_use = False\<rparr>,
      \<lparr>v4_network = ipv4_of [198, 51, 100, 0], v4_prefix = 24, v4_private_use = False\<rparr>,
      \<lparr>v4_network = ipv4_of [203, 0, 113, 0], v4_prefix = 24, v4_private_use = False\<rparr>,
      \<lparr>v4_network = ipv4_of [224, 0, 0, 0], v4_prefix = 4, v4_private_use = False\<rparr>,
      \<lparr>v4_network = ipv4_of [240, 0, 0, 0], v4_prefix = 4, v4_private_use = False\<rparr>]"

definition V6_BLOCKS :: "V6Block list" where
  "V6_BLOCKS =
     [\<lparr>v6_network = ipv6_of [0, 0, 0, 0, 0, 0, 0, 0], v6_prefix = 128, v6_private_use = False\<rparr>,
      \<lparr>v6_network = ipv6_of [0, 0, 0, 0, 0, 0, 0, 1], v6_prefix = 128, v6_private_use = False\<rparr>,
      \<lparr>v6_network = ipv6_of [0x64, 0xff9b, 0, 0, 0, 0, 0, 0], v6_prefix = 96, v6_private_use = False\<rparr>,
      \<lparr>v6_network = ipv6_of [0x64, 0xff9b, 1, 0, 0, 0, 0, 0], v6_prefix = 48, v6_private_use = False\<rparr>,
      \<lparr>v6_network = ipv6_of [0x0100, 0, 0, 0, 0, 0, 0, 0], v6_prefix = 64, v6_private_use = False\<rparr>,
      \<lparr>v6_network = ipv6_of [0x2001, 0, 0, 0, 0, 0, 0, 0], v6_prefix = 23, v6_private_use = False\<rparr>,
      \<lparr>v6_network = ipv6_of [0x2001, 0xdb8, 0, 0, 0, 0, 0, 0], v6_prefix = 32, v6_private_use = False\<rparr>,
      \<lparr>v6_network = ipv6_of [0x2002, 0, 0, 0, 0, 0, 0, 0], v6_prefix = 16, v6_private_use = False\<rparr>,
      \<lparr>v6_network = ipv6_of [0x3fff, 0, 0, 0, 0, 0, 0, 0], v6_prefix = 20, v6_private_use = False\<rparr>,
      \<lparr>v6_network = ipv6_of [0xfc00, 0, 0, 0, 0, 0, 0, 0], v6_prefix = 7, v6_private_use = True\<rparr>,
      \<lparr>v6_network = ipv6_of [0xfe80, 0, 0, 0, 0, 0, 0, 0], v6_prefix = 10, v6_private_use = False\<rparr>,
      \<lparr>v6_network = ipv6_of [0xff00, 0, 0, 0, 0, 0, 0, 0], v6_prefix = 8, v6_private_use = False\<rparr>]"


section \<open>The test\<close>

definition ipv4_contains :: "Ipv4Addr \<Rightarrow> V4Block \<Rightarrow> bool" where
  "ipv4_contains ip block =
     (let shift = (32 :: 32 word) - ucast (v4_prefix block);
          mask = (if v4_prefix block = 0 then 0 else push_bit (unat shift) (- 1))
      in (ip AND mask) = (v4_network block AND mask))"

definition ipv6_contains :: "Ipv6Addr \<Rightarrow> V6Block \<Rightarrow> bool" where
  "ipv6_contains ip block =
     (let shift = (128 :: 32 word) - ucast (v6_prefix block);
          mask = (if v6_prefix block = 0 then 0 else push_bit (unat shift) (- 1))
      in (ip AND mask) = (v6_network block AND mask))"

definition v4_blocks :: "PrivateUse \<Rightarrow> V4Block list" where
  "v4_blocks private_use = filter (\<lambda>block. private_use = Disallowed \<or> \<not> v4_private_use block) V4_BLOCKS"

definition v6_blocks :: "PrivateUse \<Rightarrow> V6Block list" where
  "v6_blocks private_use = filter (\<lambda>block. private_use = Disallowed \<or> \<not> v6_private_use block) V6_BLOCKS"

definition unwrap_ipv4_mapped :: "IpAddr \<Rightarrow> IpAddr" where
  "unwrap_ipv4_mapped ip =
     (case ip of
        V6 ip \<Rightarrow> (case to_ipv4_mapped ip of Some ip4 \<Rightarrow> V4 ip4 | None \<Rightarrow> V6 ip)
      | V4 ip \<Rightarrow> V4 ip)"

definition is_special_purpose_ip :: "IpAddr \<Rightarrow> PrivateUse \<Rightarrow> bool" where
  "is_special_purpose_ip ip private_use =
     (case unwrap_ipv4_mapped ip of
        V4 ip \<Rightarrow> list_ex (ipv4_contains ip) (v4_blocks private_use)
      | V6 ip \<Rightarrow> list_ex (ipv6_contains ip) (v6_blocks private_use))"


section \<open>A prefix mask tests an interval\<close>

lemma and_prefix_mask: "ip AND push_bit n (- 1) = push_bit n (drop_bit n ip)" for ip :: "'a::len word"
  by (rule bit_word_eqI) (auto simp: bit_simps)

lemma drop_push_drop: "drop_bit n (push_bit n (drop_bit n ip)) = drop_bit n ip" for ip :: "'a::len word"
  by (rule bit_word_eqI) (auto simp: bit_simps dest: bit_imp_le_length)

lemma div_eq_interval:
  fixes a b m :: nat
  assumes "0 < m" and "b mod m = 0"
  shows "a div m = b div m \<longleftrightarrow> b \<le> a \<and> a < b + m"
proof -
  obtain q where q: "b = m * q" using assms(2) by (auto elim: dvdE simp: mod_eq_0_iff_dvd)
  have "m * q \<le> a \<and> a < m * Suc q" if "a div m = q"
    using that assms(1) times_div_less_eq_dividend [of m a] dividend_less_times_div [of m a] by auto
  then have "a div m = q \<longleftrightarrow> m * q \<le> a \<and> a < m * Suc q" by (auto intro: div_nat_eqI)
  then show ?thesis using assms(1) by (simp add: q add.commute)
qed

lemma prefix_interval:
  fixes ip net :: "'a::len word"
  assumes "take_bit n net = 0"
  shows "ip AND push_bit n (- 1) = net AND push_bit n (- 1) \<longleftrightarrow> unat net \<le> unat ip \<and> unat ip < unat net + 2 ^ n"
proof -
  have "ip AND push_bit n (- 1) = net AND push_bit n (- 1) \<longleftrightarrow> drop_bit n ip = drop_bit n net"
    by (metis and_prefix_mask drop_push_drop)
  also have "\<dots> \<longleftrightarrow> unat ip div 2 ^ n = unat net div 2 ^ n"
    by (simp only: word_unat_eq_iff unat_drop_bit_eq drop_bit_eq_div [where ?'a = nat])
  finally have mask: "ip AND push_bit n (- 1) = net AND push_bit n (- 1) \<longleftrightarrow> unat ip div 2 ^ n = unat net div 2 ^ n" .
  have "unat (take_bit n net) = 0" using assms by simp
  then have "unat net mod 2 ^ n = 0" by (simp only: unsigned_take_bit_eq take_bit_eq_mod [where ?'a = nat])
  with div_eq_interval [of "2 ^ n" "unat net" "unat ip"] mask show ?thesis by simp
qed

lemma of_nat_of_be_digits: "of_nat (of_be_digits b ds) = foldl (\<lambda>acc d. acc * of_nat b + of_nat d) (0 :: 'a::len word) ds"
proof (induction ds rule: rev_induct)
  case Nil
  then show ?case by (simp add: of_be_digits_def)
qed simp

lemma ipv4_of_code [code]: "ipv4_of ds = foldl (\<lambda>acc d. acc * 256 + of_nat d) 0 ds"
  by (simp add: ipv4_of_def of_nat_of_be_digits)

lemma ipv6_of_code [code]: "ipv6_of ds = foldl (\<lambda>acc d. acc * 65536 + of_nat d) 0 ds"
  by (simp add: ipv6_of_def of_nat_of_be_digits)

lemma v4_aligned:
  "list_all (\<lambda>b. v4_prefix b \<noteq> 0 \<and> take_bit (unat (32 - ucast (v4_prefix b) :: 32 word)) (v4_network b) = 0 \<and>
     unat (32 - ucast (v4_prefix b) :: 32 word) = 32 - unat (v4_prefix b)) V4_BLOCKS"
  by (simp add: V4_BLOCKS_def ipv4_of_code take_bit_eq_mod)

lemma v6_aligned:
  "list_all (\<lambda>b. v6_prefix b \<noteq> 0 \<and> take_bit (unat (128 - ucast (v6_prefix b) :: 32 word)) (v6_network b) = 0 \<and>
     unat (128 - ucast (v6_prefix b) :: 32 word) = 128 - unat (v6_prefix b)) V6_BLOCKS"
  by (simp add: V6_BLOCKS_def ipv6_of_code take_bit_eq_mod)

lemma ipv4_contains_iff:
  assumes "b \<in> set V4_BLOCKS"
  shows "ipv4_contains ip b \<longleftrightarrow> unat (v4_network b) \<le> unat ip \<and> unat ip < unat (v4_network b) + 2 ^ (32 - unat (v4_prefix b))"
proof -
  let ?n = "unat (32 - ucast (v4_prefix b) :: 32 word)"
  have b: "v4_prefix b \<noteq> 0" "take_bit ?n (v4_network b) = 0" "?n = 32 - unat (v4_prefix b)"
    using v4_aligned assms by (auto simp: list_all_iff)
  show ?thesis using prefix_interval [OF b(2), of ip] b(1,3) by (simp add: ipv4_contains_def Let_def)
qed

lemma ipv6_contains_iff:
  assumes "b \<in> set V6_BLOCKS"
  shows "ipv6_contains ip b \<longleftrightarrow> unat (v6_network b) \<le> unat ip \<and> unat ip < unat (v6_network b) + 2 ^ (128 - unat (v6_prefix b))"
proof -
  let ?n = "unat (128 - ucast (v6_prefix b) :: 32 word)"
  have b: "v6_prefix b \<noteq> 0" "take_bit ?n (v6_network b) = 0" "?n = 128 - unat (v6_prefix b)"
    using v6_aligned assms by (auto simp: list_all_iff)
  show ?thesis using prefix_interval [OF b(2), of ip] b(1,3) by (simp add: ipv6_contains_def Let_def)
qed

lemma unwrap_canonical: "unwrap_ipv4_mapped ip = to_canonical ip"
  by (simp add: unwrap_ipv4_mapped_def to_canonical_def split: IpAddr.split)

lemma v4_private:
  "list_ex (ipv4_contains ip) (filter v4_private_use V4_BLOCKS) \<longleftrightarrow>
     unat ip \<in> {0x0A000000 ..< 0x0B000000} \<union> {0xAC100000 ..< 0xAC200000} \<union> {0xC0A80000 ..< 0xC0A90000}"
proof -
  have "list_ex (ipv4_contains ip) (filter v4_private_use V4_BLOCKS) \<longleftrightarrow>
      list_ex (\<lambda>b. unat (v4_network b) \<le> unat ip \<and> unat ip < unat (v4_network b) + 2 ^ (32 - unat (v4_prefix b)))
        (filter v4_private_use V4_BLOCKS)"
    by (auto simp: list_ex_iff ipv4_contains_iff)
  then show ?thesis by (auto simp: V4_BLOCKS_def ipv4_of_code)
qed

lemma v6_private:
  "list_ex (ipv6_contains ip) (filter v6_private_use V6_BLOCKS) \<longleftrightarrow> unat ip \<in> {0xFC * 2 ^ 120 ..< 0xFE * 2 ^ 120}"
proof -
  have "list_ex (ipv6_contains ip) (filter v6_private_use V6_BLOCKS) \<longleftrightarrow>
      list_ex (\<lambda>b. unat (v6_network b) \<le> unat ip \<and> unat ip < unat (v6_network b) + 2 ^ (128 - unat (v6_prefix b)))
        (filter v6_private_use V6_BLOCKS)"
    by (auto simp: list_ex_iff ipv6_contains_iff)
  then show ?thesis by (auto simp: V6_BLOCKS_def ipv6_of_code)
qed

lemma blocks_split:
  "list_ex P (v4_blocks Disallowed) \<longleftrightarrow> list_ex P (v4_blocks Allowed) \<or> list_ex P (filter v4_private_use V4_BLOCKS)"
  "list_ex Q (v6_blocks Disallowed) \<longleftrightarrow> list_ex Q (v6_blocks Allowed) \<or> list_ex Q (filter v6_private_use V6_BLOCKS)"
  by (auto simp: v4_blocks_def v6_blocks_def list_ex_iff)

lemma special_private:
  "is_special_purpose_ip ip Disallowed \<longleftrightarrow> is_special_purpose_ip ip Allowed \<or>
     (case to_canonical ip of
        V4 a \<Rightarrow> unat a \<in> {0x0A000000 ..< 0x0B000000} \<union> {0xAC100000 ..< 0xAC200000} \<union> {0xC0A80000 ..< 0xC0A90000}
      | V6 a \<Rightarrow> unat a \<in> {0xFC * 2 ^ 120 ..< 0xFE * 2 ^ 120})"
proof (cases "to_canonical ip")
  case (V4 a)
  then show ?thesis using blocks_split(1) [of "ipv4_contains a"] v4_private [of a]
    by (simp add: is_special_purpose_ip_def unwrap_canonical)
next
  case (V6 a)
  then show ?thesis using blocks_split(2) [of "ipv6_contains a"] v6_private [of a]
    by (simp add: is_special_purpose_ip_def unwrap_canonical)
qed

text \<open>C40. An address is special purpose exactly when it, or the IPv4 address it maps, lies in the interval of
  addresses that one of the selected blocks spans; forbidding private use adds exactly the three private
  IPv4 ranges (10/8, 172.16/12 and 192.168/16) and the unique-local IPv6 range (fc00::/7) to what is
  rejected when private use is allowed.\<close>

theorem special_ip_ranges:
  "(is_special_purpose_ip ip private_use \<longleftrightarrow>
     (case to_canonical ip of
        V4 a \<Rightarrow> list_ex (\<lambda>b. unat (v4_network b) \<le> unat a \<and> unat a < unat (v4_network b) + 2 ^ (32 - unat (v4_prefix b)))
                  (v4_blocks private_use)
      | V6 a \<Rightarrow> list_ex (\<lambda>b. unat (v6_network b) \<le> unat a \<and> unat a < unat (v6_network b) + 2 ^ (128 - unat (v6_prefix b)))
                  (v6_blocks private_use))) \<and>
   (is_special_purpose_ip ip Disallowed \<longleftrightarrow> is_special_purpose_ip ip Allowed \<or>
     (case to_canonical ip of
        V4 a \<Rightarrow> unat a \<in> {0x0A000000 ..< 0x0B000000} \<union> {0xAC100000 ..< 0xAC200000} \<union> {0xC0A80000 ..< 0xC0A90000}
      | V6 a \<Rightarrow> unat a \<in> {0xFC * 2 ^ 120 ..< 0xFE * 2 ^ 120}))"
proof (rule conjI [OF _ special_private])
  have "list_ex (ipv4_contains a) (v4_blocks private_use) \<longleftrightarrow>
      list_ex (\<lambda>b. unat (v4_network b) \<le> unat a \<and> unat a < unat (v4_network b) + 2 ^ (32 - unat (v4_prefix b)))
        (v4_blocks private_use)" for a
    by (auto simp: v4_blocks_def list_ex_iff ipv4_contains_iff)
  moreover have "list_ex (ipv6_contains a) (v6_blocks private_use) \<longleftrightarrow>
      list_ex (\<lambda>b. unat (v6_network b) \<le> unat a \<and> unat a < unat (v6_network b) + 2 ^ (128 - unat (v6_prefix b)))
        (v6_blocks private_use)" for a
    by (auto simp: v6_blocks_def list_ex_iff ipv6_contains_iff)
  ultimately show "is_special_purpose_ip ip private_use \<longleftrightarrow>
     (case to_canonical ip of
        V4 a \<Rightarrow> list_ex (\<lambda>b. unat (v4_network b) \<le> unat a \<and> unat a < unat (v4_network b) + 2 ^ (32 - unat (v4_prefix b)))
                  (v4_blocks private_use)
      | V6 a \<Rightarrow> list_ex (\<lambda>b. unat (v6_network b) \<le> unat a \<and> unat a < unat (v6_network b) + 2 ^ (128 - unat (v6_prefix b)))
                  (v6_blocks private_use))"
    by (simp add: is_special_purpose_ip_def unwrap_canonical split: IpAddr.split)
qed

end
