(* ===== verification/Artifact_Error.thy ===== *)
theory Artifact_Error
  imports Job_Types Ip_Addr
begin

text \<open>
  Typed failures of artifact preparation (\<open>api/grpc/artifact_download/error.rs\<close>): their display text, the
  job code each maps to and whether a retry can help.  An I/O error is its kind and its text.  A transport
  error of the HTTP library is the chain of its causes; of each cause the code reads the text, whether it is
  an incomplete HTTP message and, when it is an I/O error, its kind.  Dropping the URL from such an error and
  printing a status code belong to the HTTP library and are arguments.
\<close>

datatype IoErrorKind =
    IK_NotFound | IK_ConnectionRefused | IK_ConnectionReset | IK_ConnectionAborted | IK_NotConnected
  | IK_BrokenPipe | IK_TimedOut | IK_UnexpectedEof | IK_Interrupted | IK_WouldBlock | IK_Other

record IoError =
  io_kind :: IoErrorKind
  io_text :: string

record ErrorCause =
  cause_text :: string
  cause_incomplete_message :: bool
  cause_io_kind :: "IoErrorKind option"

record ReqwestError =
  re_is_timeout :: bool
  re_causes :: "ErrorCause list"

datatype ArtifactError =
    AE_InvalidArgument string
  | AE_Cache string
  | AE_RedirectPolicy string
  | AE_Io string IoError
  | AE_Transport JobError string ReqwestError
  | AE_HttpStatus nat string
  | AE_Integrity string
  | AE_Cancelled
  | AE_Context string ArtifactError
  | AE_Multiple "ArtifactError list"

definition retryable_io_kind :: "IoErrorKind \<Rightarrow> bool" where
  "retryable_io_kind kind \<longleftrightarrow> kind \<in>
     {IK_ConnectionRefused, IK_ConnectionReset, IK_ConnectionAborted, IK_NotConnected, IK_BrokenPipe,
      IK_TimedOut, IK_UnexpectedEof, IK_Interrupted, IK_WouldBlock}"

fun retryable_causes :: "ErrorCause list \<Rightarrow> bool" where
  "retryable_causes [] = False"
| "retryable_causes (source # causes) =
     (if cause_incomplete_message source then True
      else if (case cause_io_kind source of None \<Rightarrow> False | Some kind \<Rightarrow> retryable_io_kind kind) then True
      else retryable_causes causes)"

definition retryable_transport_error :: "ReqwestError \<Rightarrow> bool" where
  "retryable_transport_error error = retryable_causes (re_causes error)"

fun chain_parts :: "string list \<Rightarrow> ErrorCause list \<Rightarrow> string list" where
  "chain_parts parts [] = parts"
| "chain_parts parts (err # causes) =
     chain_parts (if parts = [] \<or> last parts \<noteq> cause_text err then parts @ [cause_text err] else parts) causes"

definition format_error_chain :: "ReqwestError \<Rightarrow> string" where
  "format_error_chain error = join '': '' (chain_parts [] (re_causes error))"

definition transport_text :: "ReqwestError \<Rightarrow> string" where
  "transport_text error = (case re_causes error of [] \<Rightarrow> [] | err # _ \<Rightarrow> cause_text err)"

definition artifact_error_of_reqwest :: "(ReqwestError \<Rightarrow> ReqwestError) \<Rightarrow> ReqwestError \<Rightarrow> ArtifactError" where
  "artifact_error_of_reqwest without_url source =
     (let source = without_url source;
          code = (if re_is_timeout source then JE_Timeout
                  else if retryable_transport_error source then JE_ServerError
                  else JE_ClientError)
      in AE_Transport code (''artifact transport failed: '' @ format_error_chain source) source)"

definition artifact_error_of_io :: "IoError \<Rightarrow> ArtifactError" where
  "artifact_error_of_io source = AE_Io ''artifact I/O failed'' source"

definition error_context :: "string \<Rightarrow> ArtifactError \<Rightarrow> ArtifactError" where
  "error_context context e = AE_Context context e"

definition transport_error :: "(ReqwestError \<Rightarrow> ReqwestError) \<Rightarrow> string \<Rightarrow> ReqwestError \<Rightarrow> ArtifactError" where
  "transport_error without_url context source = error_context context (artifact_error_of_reqwest without_url source)"

definition status_job_error :: "nat \<Rightarrow> JobError" where
  "status_job_error status =
     (if status = 401 \<or> status = 403 then JE_Unauthenticated
      else if status = 404 then JE_FileNotFound
      else if status = 408 then JE_Timeout
      else if status = 429 \<or> (500 \<le> status \<and> status \<le> 599) then JE_ServerError
      else JE_ClientError)"

definition transient_code :: "JobError \<Rightarrow> bool" where
  "transient_code code \<longleftrightarrow> code = JE_ServerError \<or> code = JE_Timeout"

fun job_error :: "ArtifactError \<Rightarrow> JobError" where
  "job_error (AE_InvalidArgument _) = JE_InvalidArgument"
| "job_error (AE_Cache _) = JE_FailedPrecondition"
| "job_error (AE_RedirectPolicy _) = JE_FailedPrecondition"
| "job_error (AE_Integrity _) = JE_FailedPrecondition"
| "job_error AE_Cancelled = JE_FailedPrecondition"
| "job_error (AE_Io _ source) = (if io_kind source = IK_NotFound then JE_FileNotFound else JE_FailedPrecondition)"
| "job_error (AE_Transport code _ _) = code"
| "job_error (AE_HttpStatus status _) = status_job_error status"
| "job_error (AE_Context _ source) = job_error source"
| "job_error (AE_Multiple errors) =
     (let codes = map job_error errors
      in (case find (\<lambda>code. \<not> transient_code code) codes of
            Some code \<Rightarrow> code
          | None \<Rightarrow> (case codes of code # _ \<Rightarrow> code | [] \<Rightarrow> JE_Internal)))"

definition is_transient :: "ArtifactError \<Rightarrow> bool" where
  "is_transient e = transient_code (job_error e)"

fun show_artifact_error :: "(nat \<Rightarrow> string) \<Rightarrow> ArtifactError \<Rightarrow> string" where
  "show_artifact_error st (AE_InvalidArgument m) = m"
| "show_artifact_error st (AE_Cache m) = m"
| "show_artifact_error st (AE_RedirectPolicy m) = m"
| "show_artifact_error st (AE_Io context source) = context @ '': '' @ io_text source"
| "show_artifact_error st (AE_Transport _ context source) = context @ '': '' @ transport_text source"
| "show_artifact_error st (AE_HttpStatus status url) = ''download failed with status '' @ st status @ '': '' @ url"
| "show_artifact_error st (AE_Integrity m) = m"
| "show_artifact_error st AE_Cancelled = ''artifact preparation cancelled''"
| "show_artifact_error st (AE_Context context source) = context @ '': '' @ show_artifact_error st source"
| "show_artifact_error st (AE_Multiple errors) =
     ''artifact preparation failed: '' @ join ''; '' (map (show_artifact_error st) errors)"

text \<open>Context never changes the category of a failure, and a batch is transient only when all of it is.\<close>

lemma is_transient_context [simp]: "is_transient (error_context c e) = is_transient e"
  by (simp add: is_transient_def error_context_def)

lemma is_transient_Multiple:
  "is_transient (AE_Multiple errors) \<longleftrightarrow> errors \<noteq> [] \<and> list_all is_transient errors"
proof (cases "find (\<lambda>code. \<not> transient_code code) (map job_error errors)")
  case None
  then have all: "list_all is_transient errors" by (auto simp: find_None_iff list_all_iff is_transient_def)
  show ?thesis
  proof (cases errors)
    case Nil
    then show ?thesis by (simp add: is_transient_def transient_code_def)
  next
    case (Cons e es)
    with None all show ?thesis by (simp add: is_transient_def)
  qed
next
  case (Some code)
  then obtain e where "e \<in> set errors" "\<not> transient_code code" "code = job_error e"
    by (auto simp: find_Some_iff) (metis nth_mem)
  with Some show ?thesis by (auto simp: is_transient_def list_all_iff)
qed

end
