(* ===== verification/Artifact_Policy.thy ===== *)
theory Artifact_Policy
  imports Special_Ip Artifact_Error Rms_Error
begin

text \<open>
  The host policy of firmware artifact downloads (\<open>api/grpc/artifact_download_policy.rs\<close>) and the redaction
  of locations (\<open>firmware_artifact_paths.rs\<close>).  URLs belong to the HTTP library: the model is parametric in
  their type and takes the operations the code calls as a record.  Name resolution is the argument
  \<open>lookup\<close>, which answers with the addresses or with the text of an error.
\<close>

datatype UrlHost = HostDomain string | HostIpv4 Ipv4Addr | HostIpv6 Ipv6Addr

record 'u url_lib =
  url_parse :: "string \<Rightarrow> 'u option"
  url_scheme :: "'u \<Rightarrow> string"
  url_host_str :: "'u \<Rightarrow> string option"
  url_same_origin :: "'u \<Rightarrow> 'u \<Rightarrow> bool"
  url_join :: "'u \<Rightarrow> string \<Rightarrow> 'u option"
  url_to_file_path :: "'u \<Rightarrow> string option"
  url_set_username :: "string \<Rightarrow> 'u \<Rightarrow> 'u"
  url_set_password :: "string option \<Rightarrow> 'u \<Rightarrow> 'u"
  url_set_query :: "string option \<Rightarrow> 'u \<Rightarrow> 'u"
  url_set_fragment :: "string option \<Rightarrow> 'u \<Rightarrow> 'u"
  url_to_string :: "'u \<Rightarrow> string"
  host_parse :: "string \<Rightarrow> UrlHost option"
  without_url :: "ReqwestError \<Rightarrow> ReqwestError"
  show_status :: "nat \<Rightarrow> string"

record SocketAddr =
  sa_ip :: IpAddr
  sa_port :: u16

record ArtifactDownloadPolicy =
  allowed_hosts :: "string list"
  allow_private_targets :: bool

definition policy_default :: ArtifactDownloadPolicy where
  "policy_default = \<lparr>allowed_hosts = [], allow_private_targets = True\<rparr>"

definition strip_prefix :: "string \<Rightarrow> string \<Rightarrow> string option" where
  "strip_prefix p s = (if take (length p) s = p then Some (drop (length p) s) else None)"

definition strip_suffix :: "string \<Rightarrow> string \<Rightarrow> string option" where
  "strip_suffix p s = map_option rev (strip_prefix (rev p) (rev s))"

definition ends_with :: "string \<Rightarrow> string \<Rightarrow> bool" where
  "ends_with p s \<longleftrightarrow> strip_suffix p s \<noteq> None"

definition redact_location_for_logging :: "'u url_lib \<Rightarrow> string \<Rightarrow> string" where
  "redact_location_for_logging lib location =
     (case url_parse lib location of
        None \<Rightarrow> takeWhile (\<lambda>c. c \<noteq> CHR ''?'' \<and> c \<noteq> CHR ''#'') location
      | Some url \<Rightarrow> url_to_string lib (url_set_fragment lib None (url_set_query lib None
          (url_set_password lib None (url_set_username lib [] url)))))"

definition trim_dots :: "string \<Rightarrow> string" where
  "trim_dots s = trim_end_matches (\<lambda>c. c = CHR ''.'') s"

definition canonical_host :: "'u url_lib \<Rightarrow> string \<Rightarrow> string option" where
  "canonical_host lib host =
     (case host_parse lib host of
        None \<Rightarrow> None
      | Some (HostDomain domain) \<Rightarrow> Some (trim_dots domain)
      | Some (HostIpv4 ip) \<Rightarrow> Some (show_ipv4 ip)
      | Some (HostIpv6 ip) \<Rightarrow> Some (show_ipv6 ip))"

definition normalize_host :: "'u url_lib \<Rightarrow> string \<Rightarrow> string" where
  "normalize_host lib host =
     (let host = trim host
      in (case canonical_host lib host of Some h \<Rightarrow> h | None \<Rightarrow> map to_ascii_lowercase (trim_dots host)))"

definition parse_allow_list_entry :: "'u url_lib \<Rightarrow> string \<Rightarrow> string result" where
  "parse_allow_list_entry lib entry =
     (let trimmed = trim entry
      in if trimmed = [] then Inl (rms_invalid_argument ''workflows.artifact_https_hosts entries must not be empty'')
         else (case canonical_host lib trimmed of
                 Some host \<Rightarrow> Inr host
               | None \<Rightarrow> Inl (rms_invalid_argument
                   (''workflows.artifact_https_hosts entry '' @ [CHR 0x27] @ trimmed @ [CHR 0x27] @ '' is not a valid host''))))"

definition from_workflows :: "'u url_lib \<Rightarrow> string list \<Rightarrow> bool \<Rightarrow> ArtifactDownloadPolicy result" where
  "from_workflows lib artifact_https_hosts artifact_allow_private_targets =
     bind_result
       (fold_result (\<lambda>host hosts. bind_result (parse_allow_list_entry lib host) (\<lambda>h. Inr (hosts @ [h])))
          artifact_https_hosts [])
       (\<lambda>hosts. Inr \<lparr>allowed_hosts = hosts, allow_private_targets = artifact_allow_private_targets\<rparr>)"

definition host_matches :: "string \<Rightarrow> string \<Rightarrow> bool" where
  "host_matches host pattern =
     (case strip_prefix ''*.'' pattern of
        Some suffix \<Rightarrow> host = suffix \<or> ends_with (''.'' @ suffix) host
      | None \<Rightarrow> host = pattern)"

definition host_allowed :: "'u url_lib \<Rightarrow> string \<Rightarrow> string list \<Rightarrow> bool" where
  "host_allowed lib host hosts =
     (if hosts = [] then True
      else (let host = normalize_host lib host in list_ex (host_matches host) hosts))"

definition parse_artifact_ip_literal :: "string \<Rightarrow> IpAddr option" where
  "parse_artifact_ip_literal host =
     (let host = (case Option.bind (strip_prefix ''['' host) (strip_suffix '']'') of Some h \<Rightarrow> h | None \<Rightarrow> host)
      in parse_ip host)"

definition disallowed_address_error :: "string \<Rightarrow> ArtifactError" where
  "disallowed_address_error host = AE_InvalidArgument
     (''firmware artifact host '' @ [CHR 0x27] @ host @ [CHR 0x27] @ '' resolves to a disallowed address'')"

definition validate_artifact_http_url ::
  "'u url_lib \<Rightarrow> 'u \<Rightarrow> ArtifactDownloadPolicy \<Rightarrow> ArtifactError + unit" where
  "validate_artifact_http_url lib url policy =
     (if url_scheme lib url \<notin> {''http'', ''https''}
      then Inl (AE_InvalidArgument (''firmware artifact redirect or URL must use http or https, not '' @ [CHR 0x27] @
             url_scheme lib url @ [CHR 0x27]))
      else (case url_host_str lib url of
          None \<Rightarrow> Inl (AE_InvalidArgument (''firmware artifact URL is missing a host: '' @
                   redact_location_for_logging lib (url_to_string lib url)))
        | Some host \<Rightarrow>
            if host = []
            then Inl (AE_InvalidArgument (''firmware artifact URL is missing a host: '' @
                   redact_location_for_logging lib (url_to_string lib url)))
            else if \<not> host_allowed lib host (allowed_hosts policy)
            then Inl (AE_InvalidArgument (''firmware artifact host '' @ [CHR 0x27] @ host @ [CHR 0x27] @
                   '' is not on the artifact host allow-list''))
            else if allow_private_targets policy then Inr ()
            else (case parse_artifact_ip_literal host of
                Some ip \<Rightarrow> if is_special_purpose_ip ip Disallowed then Inl (disallowed_address_error host) else Inr ()
              | None \<Rightarrow> Inr ())))"

definition lookup_artifact_host ::
  "(string \<Rightarrow> string + SocketAddr list) \<Rightarrow> string \<Rightarrow> ArtifactError + SocketAddr list" where
  "lookup_artifact_host lookup host =
     (case lookup host of
        Inl error \<Rightarrow> Inl (AE_InvalidArgument (''firmware artifact host '' @ [CHR 0x27] @ host @ [CHR 0x27] @
          '' could not be resolved: '' @ error))
      | Inr addrs \<Rightarrow>
          if addrs = [] then Inl (AE_InvalidArgument (''firmware artifact host '' @ [CHR 0x27] @ host @ [CHR 0x27] @
            '' could not be resolved''))
          else Inr addrs)"

definition resolve_validated_artifact_addrs ::
  "(string \<Rightarrow> string + SocketAddr list) \<Rightarrow> string \<Rightarrow> ArtifactDownloadPolicy \<Rightarrow> ArtifactError + SocketAddr list" where
  "resolve_validated_artifact_addrs lookup host policy =
     bind_result
       (case parse_artifact_ip_literal host of
          Some ip \<Rightarrow> Inr [\<lparr>sa_ip = ip, sa_port = 0\<rparr>]
        | None \<Rightarrow> lookup_artifact_host lookup host)
       (\<lambda>addrs.
          if allow_private_targets policy then Inr addrs
          else if list_ex (\<lambda>addr. is_special_purpose_ip (sa_ip addr) Disallowed) addrs
          then Inl (disallowed_address_error host)
          else Inr addrs)"

text \<open>The resolver given to the HTTP client; \<open>joined\<close> is the outcome of the blocking task that runs the lookup.\<close>

definition policy_resolve ::
  "'u url_lib \<Rightarrow> (string \<Rightarrow> string + SocketAddr list) \<Rightarrow> ArtifactDownloadPolicy \<Rightarrow> string option \<Rightarrow> string \<Rightarrow>
   string + SocketAddr list" where
  "policy_resolve lib lookup policy joined name =
     (case joined of
        Some error \<Rightarrow> Inl (''firmware artifact host lookup failed: '' @ error)
      | None \<Rightarrow> (case resolve_validated_artifact_addrs lookup (trim_dots name) policy of
            Inl error \<Rightarrow> Inl (show_artifact_error (show_status lib) error)
          | Inr addrs \<Rightarrow> Inr addrs))"

definition validate_switch_target_host :: "string \<Rightarrow> IpAddr result" where
  "validate_switch_target_host host =
     (case parse_ip host of
        None \<Rightarrow> Inl (rms_invalid_argument (''switch target host must be a valid IP address: '' @ host))
      | Some ip \<Rightarrow>
          if is_special_purpose_ip ip Allowed
          then Inl (rms_invalid_argument (''switch target host is not allowed: '' @ show_ip ip))
          else Inr ip)"


section \<open>What passes the policy\<close>

lemma strip_prefix_Some: "strip_prefix p s = Some t \<longleftrightarrow> s = p @ t"
  by (auto simp: strip_prefix_def) (metis append_take_drop_id)

lemma strip_suffix_Some: "strip_suffix p s = Some t \<longleftrightarrow> s = t @ p"
  by (auto simp: strip_suffix_def strip_prefix_Some) (metis rev_append rev_rev_ident)+

lemma ends_with_iff: "ends_with p s \<longleftrightarrow> (\<exists>t. s = t @ p)"
  unfolding ends_with_def by (metis not_None_eq strip_suffix_Some)

lemma host_matches_wildcard: "host_matches host (''*.'' @ suffix) \<longleftrightarrow> host = suffix \<or> (\<exists>t. host = t @ ''.'' @ suffix)"
  by (simp add: host_matches_def strip_prefix_def ends_with_iff)

lemma validate_url_Inr:
  assumes "validate_artifact_http_url lib url policy = Inr u"
  shows "url_scheme lib url \<in> {''http'', ''https''} \<and>
    (\<exists>host. url_host_str lib url = Some host \<and> host \<noteq> [] \<and> host_allowed lib host (allowed_hosts policy) \<and>
       (\<not> allow_private_targets policy \<longrightarrow>
          (\<forall>ip. parse_artifact_ip_literal host = Some ip \<longrightarrow> \<not> is_special_purpose_ip ip Disallowed)))"
  using assms by (auto simp: validate_artifact_http_url_def split: if_splits option.splits)

lemma validate_url_Inl:
  "validate_artifact_http_url lib url policy = Inl e \<Longrightarrow> \<exists>m. e = AE_InvalidArgument m"
  by (auto simp: validate_artifact_http_url_def disallowed_address_error_def split: if_splits option.splits)

lemma resolved_addrs:
  assumes "resolve_validated_artifact_addrs lookup host policy = Inr addrs" and "\<not> allow_private_targets policy"
  shows "addrs \<noteq> [] \<and> list_all (\<lambda>addr. \<not> is_special_purpose_ip (sa_ip addr) Disallowed) addrs"
  using assms by (auto simp: resolve_validated_artifact_addrs_def lookup_artifact_host_def bind_result_Inr_iff
      list_ex_iff list_all_iff split: if_splits option.splits sum.splits)

end
