(* ===== verification/Artifact_Download.thy ===== *)
theory Artifact_Download
  imports Artifact_Policy
begin

text \<open>
  The artifact downloader (\<open>api/grpc/artifact_download.rs\<close>): where a location is fetched from, the redirect
  loop, the cache checks, streaming into a temporary file, publication and retries.  Servers are arbitrary:
  a server answers each request, knowing all earlier ones, with a response or a transport error, after some
  time.  Every file operation may fail: a call counter in the world selects the fault, if any.  The world
  keeps the requests sent, the time and the files; a temporary file is the list of bytes written to it until
  it is renamed to its destination or dropped.  Directories the downloader creates are not
  recorded, and a block-wise read or copy is one call.  Log lines and the byte counts only they show are left out.
  The digest of the hash library is the argument \<open>sha\<close> of the bytes fed to the hasher.
\<close>

section \<open>Data\<close>

type_synonym path = string
type_synonym bytes = "u8 list"

definition MAX_ARTIFACT_REDIRECTS :: nat where "MAX_ARTIFACT_REDIRECTS = 10"
definition ARTIFACT_DOWNLOAD_ATTEMPTS :: nat where "ARTIFACT_DOWNLOAD_ATTEMPTS = 3"
definition SHA256_HEX_LEN :: nat where "SHA256_HEX_LEN = 64"

datatype Method = GET | HEAD

datatype ArtifactLocationKind = HttpFileServer | Artifactory | LocalFile

datatype ArtifactHttpAuth = AuthNone | ArtifactoryApiKey string

datatype ArtifactDownloadSource = SourceHttp string ArtifactHttpAuth | SourceFile path

record ArtifactSha256 =
  sha_expected :: "string option"
  sha_required :: bool

record ArtifactHttpClient =
  client_policy :: ArtifactDownloadPolicy
  download_budget :: nat
  retry_backoff :: nat

record ArtifactDownloadRequest =
  dl_location :: string
  dl_location_type :: string
  dl_access_token :: "string option"
  dl_sha256 :: ArtifactSha256

record 'u HttpRequest =
  rq_method :: Method
  rq_url :: 'u
  rq_timeout :: nat
  rq_api_key :: "string option"

text \<open>A \<open>Location\<close> header may be absent or not be text.\<close>

record HttpResponse =
  rs_status :: nat
  rs_location :: "string option option"
  rs_content_length :: "nat option"
  rs_chunks :: "(ReqwestError + bytes) list"

datatype FileEntry = RegularFile bytes | Directory

record 'u world =
  w_sent :: "'u HttpRequest list"
  w_now :: nat
  w_io :: nat
  w_files :: "(path, FileEntry) hmap"

record 'u env =
  env_server :: "'u HttpRequest list \<Rightarrow> 'u HttpRequest \<Rightarrow> nat \<times> (ReqwestError + HttpResponse)"
  env_fault :: "nat \<Rightarrow> IoError option"
  env_temp_path :: "nat \<Rightarrow> path"

type_synonym ('u, 'a) action = "'u world \<Rightarrow> 'u world \<times> (ArtifactError + 'a)"

text \<open>Sequencing with \<open>?\<close>.\<close>

definition and_then :: "('u, 'a) action \<Rightarrow> ('a \<Rightarrow> ('u, 'b) action) \<Rightarrow> ('u, 'b) action" where
  "and_then m f w = (case m w of (w, Inl e) \<Rightarrow> (w, Inl e) | (w, Inr x) \<Rightarrow> f x w)"

definition give :: "ArtifactError + 'a \<Rightarrow> ('u, 'a) action" where
  "give r w = (w, r)"


section \<open>Digests and sizes\<close>

definition sha256_default :: ArtifactSha256 where
  "sha256_default = \<lparr>sha_expected = None, sha_required = False\<rparr>"

definition sha256_optional :: "string \<Rightarrow> ArtifactSha256" where
  "sha256_optional digest = \<lparr>sha_expected = Some digest, sha_required = False\<rparr>"

definition sha256_required :: "string option \<Rightarrow> ArtifactSha256" where
  "sha256_required digest = \<lparr>sha_expected = digest, sha_required = True\<rparr>"

definition from_catalog :: "string option \<Rightarrow> bool \<Rightarrow> ArtifactSha256" where
  "from_catalog digest require =
     (if require then sha256_required digest
      else (case digest of Some d \<Rightarrow> sha256_optional d | None \<Rightarrow> sha256_default))"

definition missing_required_digest :: "ArtifactSha256 \<Rightarrow> bool" where
  "missing_required_digest s \<longleftrightarrow> sha_required s \<and> sha_expected s = None"

definition is_valid_sha256_hex :: "string \<Rightarrow> bool" where
  "is_valid_sha256_hex v \<longleftrightarrow> length v = SHA256_HEX_LEN \<and> list_all (\<lambda>c. to_digit 16 c \<noteq> None) v"

definition sha256_matches :: "string \<Rightarrow> string \<Rightarrow> bool" where
  "sha256_matches expected actual \<longleftrightarrow> map to_ascii_lowercase expected = map to_ascii_lowercase actual"

definition validate_download_size ::
  "'u url_lib \<Rightarrow> string \<Rightarrow> nat option \<Rightarrow> nat \<Rightarrow> ArtifactError + unit" where
  "validate_download_size lib url expected_len actual_len =
     (if actual_len = 0
      then Inl (AE_Integrity (''download returned zero bytes: '' @ redact_location_for_logging lib url))
      else (case expected_len of
          Some expected_len \<Rightarrow>
            if expected_len \<noteq> actual_len
            then Inl (AE_Integrity (''download size mismatch for '' @ redact_location_for_logging lib url @ '': expected '' @
                   show_nat expected_len @ '' bytes, got '' @ show_nat actual_len))
            else Inr ()
        | None \<Rightarrow> Inr ()))"

definition check_digest :: "(bytes \<Rightarrow> string) \<Rightarrow> string \<Rightarrow> string option \<Rightarrow> bytes \<Rightarrow> ArtifactError + unit" where
  "check_digest sha label expected_sha256 written =
     (case expected_sha256 of
        None \<Rightarrow> Inr ()
      | Some expected \<Rightarrow>
          if sha256_matches expected (sha written) then Inr ()
          else Inl (AE_Integrity (''sha256 mismatch for '' @ label @ '': expected '' @ expected @ '', got '' @ sha written)))"


section \<open>Where a location is fetched from\<close>

definition artifact_location_kind :: "string \<Rightarrow> string + ArtifactLocationKind" where
  "artifact_location_kind location_type =
     (let t = map to_ascii_lowercase (trim location_type)
      in if t = ''artifactory'' \<or> t = ''jfrog'' then Inr Artifactory
         else if t = ''file'' then Inr LocalFile
         else if t = ''http'' \<or> t = ''https'' then Inr HttpFileServer
         else Inl (''unsupported firmware artifact LocationType '' @ [CHR 0x27] @ location_type @ [CHR 0x27]))"

fun validate_location_type_matches_source ::
  "string \<Rightarrow> ArtifactLocationKind \<Rightarrow> ArtifactDownloadSource \<Rightarrow> string + unit" where
  "validate_location_type_matches_source t LocalFile (SourceFile _) = Inr ()"
| "validate_location_type_matches_source t LocalFile (SourceHttp _ _) =
     Inl (''LocationType '' @ [CHR 0x27] @ t @ [CHR 0x27] @ '' requires a local file path, not an HTTP(S) URL'')"
| "validate_location_type_matches_source t kind (SourceHttp _ _) = Inr ()"
| "validate_location_type_matches_source t kind (SourceFile _) =
     Inl (''LocationType '' @ [CHR 0x27] @ t @ [CHR 0x27] @ '' requires an HTTP(S) URL, not a local file path'')"

definition optional_access_token :: "string option \<Rightarrow> string option" where
  "optional_access_token access_token =
     (case access_token of Some token \<Rightarrow> if trim token = [] then None else Some token | None \<Rightarrow> None)"

definition http_auth_for_location :: "ArtifactLocationKind \<Rightarrow> string option \<Rightarrow> ArtifactHttpAuth" where
  "http_auth_for_location kind access_token =
     (case kind of
        Artifactory \<Rightarrow> (case access_token of Some token \<Rightarrow> ArtifactoryApiKey token | None \<Rightarrow> AuthNone)
      | _ \<Rightarrow> AuthNone)"

fun str_contains :: "string \<Rightarrow> string \<Rightarrow> bool" where
  "str_contains p [] = (p = [])"
| "str_contains p (c # s) = (take (length p) (c # s) = p \<or> str_contains p s)"

definition source_of_url ::
  "'u url_lib \<Rightarrow> string \<Rightarrow> ArtifactLocationKind \<Rightarrow> string option \<Rightarrow> 'u \<Rightarrow> string + ArtifactDownloadSource" where
  "source_of_url lib location kind access_token url =
     (let scheme = url_scheme lib url
      in if scheme = ''http'' \<and> kind = Artifactory \<and> access_token \<noteq> None
         then Inl ''authenticated Artifactory downloads require HTTPS''
         else if scheme = ''http'' \<or> scheme = ''https''
         then Inr (SourceHttp location (http_auth_for_location kind access_token))
         else if scheme = ''file''
         then (case url_to_file_path lib url of
             Some p \<Rightarrow> Inr (SourceFile p)
           | None \<Rightarrow> Inl (''file artifact location must be a valid file URL: '' @ redact_location_for_logging lib location))
         else Inl (''unsupported firmware artifact location scheme '' @ [CHR 0x27] @ scheme @ [CHR 0x27] @ '': '' @
                redact_location_for_logging lib location))"

definition resolve_artifact_download_with_policy ::
  "'u url_lib \<Rightarrow> string \<Rightarrow> string \<Rightarrow> string option \<Rightarrow> string + ArtifactDownloadSource" where
  "resolve_artifact_download_with_policy lib location location_type access_token =
     (let access_token = optional_access_token access_token
      in bind_result (artifact_location_kind location_type) (\<lambda>kind.
         bind_result
           (case url_parse lib location of
              Some url \<Rightarrow> source_of_url lib location kind access_token url
            | None \<Rightarrow>
                if kind = LocalFile \<or> \<not> str_contains ''://'' location then Inr (SourceFile location)
                else Inl ''invalid firmware artifact location URL'')
           (\<lambda>source. bind_result (validate_location_type_matches_source location_type kind source) (\<lambda>_. Inr source))))"


section \<open>The redirect loop\<close>

definition api_key :: "ArtifactHttpAuth \<Rightarrow> string option" where
  "api_key auth = (case auth of AuthNone \<Rightarrow> None | ArtifactoryApiKey token \<Rightarrow> Some token)"

definition http_send ::
  "'u env \<Rightarrow> 'u url_lib \<Rightarrow> Method \<Rightarrow> 'u \<Rightarrow> ArtifactHttpAuth \<Rightarrow> nat \<Rightarrow> ('u, HttpResponse) action" where
  "http_send env lib meth current auth deadline w =
     (let request = \<lparr>rq_method = meth, rq_url = current, rq_timeout = deadline - w_now w, rq_api_key = api_key auth\<rparr>;
          (elapsed, answer) = env_server env (w_sent w) request;
          w = w\<lparr>w_sent := w_sent w @ [request], w_now := w_now w + elapsed\<rparr>
      in (w, (case answer of
            Inl error \<Rightarrow> Inl (transport_error (without_url lib)
              (''artifact request failed for '' @ redact_location_for_logging lib (url_to_string lib current)) error)
          | Inr response \<Rightarrow> Inr response)))"

definition redirect_allowed :: "'u url_lib \<Rightarrow> ArtifactHttpAuth \<Rightarrow> 'u \<Rightarrow> 'u \<Rightarrow> bool" where
  "redirect_allowed lib auth origin current \<longleftrightarrow>
     url_scheme lib current \<in> {''http'', ''https''} \<and>
     \<not> (api_key auth \<noteq> None \<and> (url_scheme lib current \<noteq> ''https'' \<or> \<not> url_same_origin lib current origin))"

definition check_hop ::
  "'u url_lib \<Rightarrow> ArtifactDownloadPolicy \<Rightarrow> ArtifactHttpAuth \<Rightarrow> 'u \<Rightarrow> nat \<Rightarrow> 'u \<Rightarrow> ArtifactError + unit" where
  "check_hop lib policy auth origin redirects current =
     (if \<not> redirect_allowed lib auth origin current
      then Inl (AE_RedirectPolicy ''authenticated artifact requests and redirects require the original HTTPS origin'')
      else (case validate_artifact_http_url lib current policy of
          Inl error \<Rightarrow> Inl (if redirects = 0 then error else AE_RedirectPolicy (show_artifact_error (show_status lib) error))
        | Inr _ \<Rightarrow> Inr ()))"

text \<open>One answer: the final response, or the next location.\<close>

definition next_location :: "'u url_lib \<Rightarrow> 'u \<Rightarrow> string option \<Rightarrow> ArtifactError + 'u" where
  "next_location lib current location =
     (case Option.bind location (url_join lib current) of
        Some url \<Rightarrow> Inr url
      | None \<Rightarrow> Inl (AE_RedirectPolicy ''invalid artifact redirect location''))"

text \<open>The loop over \<open>0..=MAX_ARTIFACT_REDIRECTS\<close>; the last pass never goes on, so it has no successor.\<close>

function send_hops ::
  "'u env \<Rightarrow> 'u url_lib \<Rightarrow> ArtifactHttpClient \<Rightarrow> Method \<Rightarrow> ArtifactHttpAuth \<Rightarrow> nat \<Rightarrow> 'u \<Rightarrow> nat \<Rightarrow> 'u \<Rightarrow>
   ('u, HttpResponse) action" where
  "send_hops env lib client meth auth deadline origin redirects current w =
     (case check_hop lib (client_policy client) auth origin redirects current of
        Inl e \<Rightarrow> (w, Inl e)
      | Inr _ \<Rightarrow> (case http_send env lib meth current auth deadline w of
          (w, Inl e) \<Rightarrow> (w, Inl e)
        | (w, Inr response) \<Rightarrow>
            if rs_status response \<notin> {301, 302, 303, 307, 308} then (w, Inr response)
            else (case rs_location response of
                None \<Rightarrow> (w, Inr response)
              | Some location \<Rightarrow>
                  if MAX_ARTIFACT_REDIRECTS \<le> redirects
                  then (w, Inl (AE_RedirectPolicy ''artifact redirect limit exceeded''))
                  else (case next_location lib current location of
                      Inl e \<Rightarrow> (w, Inl e)
                    | Inr url \<Rightarrow> send_hops env lib client meth auth deadline origin (redirects + 1) url w))))"
  by pat_completeness auto
termination
  by (relation "measure (\<lambda>(env, lib, client, meth, auth, deadline, origin, redirects, current, w).
        MAX_ARTIFACT_REDIRECTS - redirects)") auto

declare send_hops.simps [simp del]

definition send_artifact_request ::
  "'u env \<Rightarrow> 'u url_lib \<Rightarrow> ArtifactHttpClient \<Rightarrow> Method \<Rightarrow> string \<Rightarrow> ArtifactHttpAuth \<Rightarrow> nat \<Rightarrow> ('u, HttpResponse) action" where
  "send_artifact_request env lib client meth url auth deadline w =
     (case url_parse lib url of
        None \<Rightarrow> (w, Inl (AE_InvalidArgument ''invalid artifact URL''))
      | Some origin \<Rightarrow> send_hops env lib client meth auth deadline origin 0 origin w)"

definition is_success :: "nat \<Rightarrow> bool" where
  "is_success status \<longleftrightarrow> 200 \<le> status \<and> status < 300"

definition remote_content_length ::
  "'u env \<Rightarrow> 'u url_lib \<Rightarrow> ArtifactHttpClient \<Rightarrow> string \<Rightarrow> ArtifactHttpAuth \<Rightarrow> nat \<Rightarrow> ('u, nat option) action" where
  "remote_content_length env lib client url auth deadline =
     and_then (send_artifact_request env lib client HEAD url auth deadline) (\<lambda>response.
       if \<not> is_success (rs_status response)
       then give (Inl (AE_HttpStatus (rs_status response) (redact_location_for_logging lib url)))
       else give (Inr (rs_content_length response)))"


section \<open>Files\<close>

text \<open>Every file operation is one call that may fail.\<close>

definition io_call :: "'u env \<Rightarrow> (IoError \<Rightarrow> ArtifactError) \<Rightarrow> ('u, unit) action" where
  "io_call env err w =
     (w\<lparr>w_io := w_io w + 1\<rparr>, (case env_fault env (w_io w) of Some e \<Rightarrow> Inl (err e) | None \<Rightarrow> Inr ()))"

definition not_found :: IoError where
  "not_found = \<lparr>io_kind = IK_NotFound, io_text = ''No such file or directory (os error 2)''\<rparr>"

abbreviation file_at :: "'u world \<Rightarrow> path \<Rightarrow> FileEntry option" where
  "file_at w \<equiv> hm_get (w_files w)"

definition metadata :: "'u env \<Rightarrow> path \<Rightarrow> 'u world \<Rightarrow> 'u world \<times> (IoError + FileEntry)" where
  "metadata env p w =
     (w\<lparr>w_io := w_io w + 1\<rparr>,
      (case env_fault env (w_io w) of
         Some e \<Rightarrow> Inl e
       | None \<Rightarrow> (case file_at w p of Some entry \<Rightarrow> Inr entry | None \<Rightarrow> Inl not_found)))"

definition read_all :: "'u env \<Rightarrow> (IoError \<Rightarrow> ArtifactError) \<Rightarrow> (IoError \<Rightarrow> ArtifactError) \<Rightarrow> path \<Rightarrow> ('u, bytes) action" where
  "read_all env open_err read_err p =
     and_then (io_call env open_err) (\<lambda>_ w.
       (case file_at w p of
          Some (RegularFile bs) \<Rightarrow> and_then (io_call env read_err) (\<lambda>_. give (Inr bs)) w
        | Some Directory \<Rightarrow> (w, Inl (read_err \<lparr>io_kind = IK_Other, io_text = ''Is a directory (os error 21)''\<rparr>))
        | None \<Rightarrow> (w, Inl (open_err not_found))))"

definition file_sha256 :: "'u env \<Rightarrow> (bytes \<Rightarrow> string) \<Rightarrow> path \<Rightarrow> ('u, string) action" where
  "file_sha256 env sha p =
     and_then (read_all env (AE_Io (''failed to open '' @ p @ '' for hashing''))
        (AE_Io (''failed to read '' @ p @ '' for hashing'')) p) (\<lambda>bs. give (Inr (sha bs)))"

definition remove_invalid_cached_file :: "'u env \<Rightarrow> path \<Rightarrow> ('u, unit) action" where
  "remove_invalid_cached_file env p =
     and_then (io_call env (AE_Io (''failed to remove invalid cache file '' @ p))) (\<lambda>_ w.
       (w\<lparr>w_files := hm_del p (w_files w)\<rparr>, Inr ()))"

text \<open>\<open>Path::file_name\<close> and \<open>Path::parent\<close>, on the reversed text without trailing separators.\<close>

fun strip_end :: "string \<Rightarrow> string" where
  "strip_end [] = []"
| "strip_end [c] = [c]"
| "strip_end (c # d # s) =
     (if c = CHR ''/'' then strip_end (d # s)
      else if c = CHR ''.'' \<and> d = CHR ''/'' then strip_end (d # s)
      else c # d # s)"

definition path_file_name :: "path \<Rightarrow> string option" where
  "path_file_name p =
     (let name = rev (takeWhile (\<lambda>c. c \<noteq> CHR ''/'') (strip_end (rev p)))
      in if name \<in> {[], ''.'', ''..''} then None else Some name)"

definition path_parent :: "path \<Rightarrow> path option" where
  "path_parent p =
     (let r = strip_end (rev p)
      in if r = [] \<or> r = ''/'' then None else Some (rev (strip_end (dropWhile (\<lambda>c. c \<noteq> CHR ''/'') r))))"

definition firmware_temp_file :: "'u env \<Rightarrow> path \<Rightarrow> ('u, path) action" where
  "firmware_temp_file env dest_path =
     (case path_parent dest_path of
        None \<Rightarrow> give (Inl (AE_Cache (''cache path has no parent directory: '' @ dest_path)))
      | Some dest_dir \<Rightarrow>
          and_then (io_call env (\<lambda>e. AE_Cache (''failed to create firmware temp file in '' @ dest_dir @ '': '' @ io_text e)))
            (\<lambda>_ w. (w, Inr (env_temp_path env (w_io w)))))"

text \<open>Renaming the temporary file over its destination; when that fails the temporary file is removed.\<close>

definition persist :: "'u env \<Rightarrow> (IoError \<Rightarrow> ArtifactError) \<Rightarrow> bytes \<Rightarrow> path \<Rightarrow> ('u, unit) action" where
  "persist env err written dest_path w =
     (case io_call env err w of
        (w, Inl e) \<Rightarrow> (fst (io_call env err w), Inl e)
      | (w, Inr _) \<Rightarrow> (w\<lparr>w_files := hm_put dest_path (RegularFile written) (w_files w)\<rparr>, Inr ()))"


section \<open>Download over HTTP\<close>

fun stream_chunks ::
  "'u env \<Rightarrow> 'u url_lib \<Rightarrow> path \<Rightarrow> (ReqwestError + bytes) list \<Rightarrow> bytes \<Rightarrow> ('u, bytes) action" where
  "stream_chunks env lib temp_path [] written = give (Inr written)"
| "stream_chunks env lib temp_path (Inl e # chunks) written =
     give (Inl (transport_error (without_url lib) ''failed to read artifact response body'' e))"
| "stream_chunks env lib temp_path (Inr chunk # chunks) written =
     (if chunk = [] then stream_chunks env lib temp_path chunks written
      else and_then (io_call env (AE_Io (''failed to write '' @ temp_path)))
        (\<lambda>_. stream_chunks env lib temp_path chunks (written @ chunk)))"

definition stream_response_to_temp_file ::
  "'u env \<Rightarrow> 'u url_lib \<Rightarrow> (bytes \<Rightarrow> string) \<Rightarrow> HttpResponse \<Rightarrow> path \<Rightarrow> string \<Rightarrow> string option \<Rightarrow> ('u, bytes) action" where
  "stream_response_to_temp_file env lib sha response temp_path url expected_sha256 =
     and_then (stream_chunks env lib temp_path (rs_chunks response) []) (\<lambda>written.
     and_then (io_call env (AE_Io (''failed to flush '' @ temp_path))) (\<lambda>_.
     and_then (give (validate_download_size lib url (rs_content_length response) (length written))) (\<lambda>_.
     and_then (give (check_digest sha (redact_location_for_logging lib url) expected_sha256 written)) (\<lambda>_.
     give (Inr written)))))"

text \<open>The part of the cache check that has no digest to go by and asks the server for the size.\<close>

definition cached_size_valid ::
  "'u env \<Rightarrow> 'u url_lib \<Rightarrow> ArtifactHttpClient \<Rightarrow> string \<Rightarrow> ArtifactHttpAuth \<Rightarrow> path \<Rightarrow> nat \<Rightarrow> nat \<Rightarrow> ('u, bool) action" where
  "cached_size_valid env lib client url auth dest_path len deadline w =
     (case remote_content_length env lib client url auth deadline w of
        (w, Inr (Some expected)) \<Rightarrow>
          if expected = len then (w, Inr True)
          else and_then (remove_invalid_cached_file env dest_path) (\<lambda>_. give (Inr False)) w
      | (w, Inr None) \<Rightarrow> (w, Inr True)
      | (w, Inl e) \<Rightarrow>
          if str_contains ''disallowed address'' (show_artifact_error (show_status lib) e) then (w, Inr True)
          else if is_transient e then (w, Inr True)
          else and_then (remove_invalid_cached_file env dest_path) (\<lambda>_. give (Inr False)) w)"

definition cached_firmware_file_valid ::
  "'u env \<Rightarrow> 'u url_lib \<Rightarrow> (bytes \<Rightarrow> string) \<Rightarrow> ArtifactHttpClient \<Rightarrow> string \<Rightarrow> ArtifactHttpAuth \<Rightarrow> path \<Rightarrow>
   string option \<Rightarrow> nat \<Rightarrow> ('u, bool) action" where
  "cached_firmware_file_valid env lib sha client url auth dest_path expected_sha256 deadline w =
     (case metadata env dest_path w of
        (w, Inl e) \<Rightarrow>
          if io_kind e = IK_NotFound then (w, Inr False)
          else (w, Inl (AE_Io (''failed to stat '' @ dest_path) e))
      | (w, Inr Directory) \<Rightarrow> (w, Inl (AE_Cache (''cached path is not a file: '' @ dest_path)))
      | (w, Inr (RegularFile bs)) \<Rightarrow>
          if length bs = 0 then and_then (remove_invalid_cached_file env dest_path) (\<lambda>_. give (Inr False)) w
          else (case expected_sha256 of
              Some expected \<Rightarrow>
                and_then (file_sha256 env sha dest_path) (\<lambda>actual.
                  if sha256_matches expected actual then give (Inr True)
                  else and_then (remove_invalid_cached_file env dest_path) (\<lambda>_. give (Inr False))) w
            | None \<Rightarrow>
                if (case url_parse lib url of
                      Some parsed \<Rightarrow> isl (validate_artifact_http_url lib parsed (client_policy client))
                    | None \<Rightarrow> False)
                then (w, Inr True)
                else cached_size_valid env lib client url auth dest_path (length bs) deadline w))"

definition download_http_file ::
  "'u env \<Rightarrow> 'u url_lib \<Rightarrow> (bytes \<Rightarrow> string) \<Rightarrow> ArtifactHttpClient \<Rightarrow> string \<Rightarrow> string option \<Rightarrow> ArtifactHttpAuth \<Rightarrow> path \<Rightarrow>
   nat \<Rightarrow> ('u, unit) action" where
  "download_http_file env lib sha client url expected_sha256 auth dest_path deadline =
     and_then (cached_firmware_file_valid env lib sha client url auth dest_path expected_sha256 deadline) (\<lambda>valid.
       if valid then give (Inr ())
       else
         and_then (send_artifact_request env lib client GET url auth deadline) (\<lambda>response.
         if \<not> is_success (rs_status response)
         then give (Inl (AE_HttpStatus (rs_status response) (redact_location_for_logging lib url)))
         else
           and_then (firmware_temp_file env dest_path) (\<lambda>temp_path.
           and_then (stream_response_to_temp_file env lib sha response temp_path url expected_sha256) (\<lambda>written.
           persist env (\<lambda>e. AE_Cache (''failed to move '' @ temp_path @ '' to '' @ dest_path @ '': '' @ io_text e))
             written dest_path))))"

definition retry_delay :: "ArtifactHttpClient \<Rightarrow> nat \<Rightarrow> nat" where
  "retry_delay client attempt = retry_backoff client * 2 ^ (attempt - 1)"

function download_attempts ::
  "'u env \<Rightarrow> 'u url_lib \<Rightarrow> (bytes \<Rightarrow> string) \<Rightarrow> ArtifactHttpClient \<Rightarrow> string \<Rightarrow> string option \<Rightarrow> ArtifactHttpAuth \<Rightarrow> path \<Rightarrow>
   nat \<Rightarrow> nat \<Rightarrow> string option \<Rightarrow> ('u, unit) action" where
  "download_attempts env lib sha client url expected_sha256 auth dest_path deadline attempt first_failure w =
     (case download_http_file env lib sha client url expected_sha256 auth dest_path deadline w of
        (w, Inr _) \<Rightarrow> (w, Inr ())
      | (w, Inl error) \<Rightarrow>
          if is_transient error \<and> attempt < ARTIFACT_DOWNLOAD_ATTEMPTS \<and> w_now w + retry_delay client attempt < deadline
          then download_attempts env lib sha client url expected_sha256 auth dest_path deadline (attempt + 1)
                 (case first_failure of Some f \<Rightarrow> Some f | None \<Rightarrow> Some (show_artifact_error (show_status lib) error))
                 (w\<lparr>w_now := w_now w + retry_delay client attempt\<rparr>)
          else (w, Inl (case first_failure of
              Some first \<Rightarrow> error_context (''after '' @ show_nat attempt @ '' attempts (first failure: '' @ first @ '')'') error
            | None \<Rightarrow> error)))"
  by pat_completeness auto
termination
  by (relation "measure (\<lambda>(env, lib, sha, client, url, d, auth, p, deadline, attempt, first, w).
        ARTIFACT_DOWNLOAD_ATTEMPTS - attempt)") auto

declare download_attempts.simps [simp del]

definition download_http_file_with_backoff ::
  "'u env \<Rightarrow> 'u url_lib \<Rightarrow> (bytes \<Rightarrow> string) \<Rightarrow> ArtifactHttpClient \<Rightarrow> string \<Rightarrow> string option \<Rightarrow> ArtifactHttpAuth \<Rightarrow> path \<Rightarrow>
   ('u, unit) action" where
  "download_http_file_with_backoff env lib sha client url expected_sha256 auth dest_path w =
     download_attempts env lib sha client url expected_sha256 auth dest_path (w_now w + download_budget client) 1 None w"


section \<open>Local copies\<close>

definition cached_local_file_valid ::
  "'u env \<Rightarrow> (bytes \<Rightarrow> string) \<Rightarrow> nat \<Rightarrow> path \<Rightarrow> string option \<Rightarrow> ('u, bool) action" where
  "cached_local_file_valid env sha source_len dest_path expected_sha256 w =
     (case metadata env dest_path w of
        (w, Inl e) \<Rightarrow>
          if io_kind e = IK_NotFound then (w, Inr False)
          else (w, Inl (AE_Io (''failed to stat '' @ dest_path) e))
      | (w, Inr Directory) \<Rightarrow> (w, Inl (AE_Cache (''cached path is not a file: '' @ dest_path)))
      | (w, Inr (RegularFile bs)) \<Rightarrow>
          (case expected_sha256 of
             Some expected \<Rightarrow>
               if 0 < length bs
               then and_then (file_sha256 env sha dest_path) (\<lambda>actual.
                   if sha256_matches expected actual then give (Inr True)
                   else and_then (remove_invalid_cached_file env dest_path) (\<lambda>_. give (Inr False))) w
               else and_then (remove_invalid_cached_file env dest_path) (\<lambda>_. give (Inr False)) w
           | None \<Rightarrow>
               if length bs = source_len \<and> 0 < length bs then (w, Inr True)
               else and_then (remove_invalid_cached_file env dest_path) (\<lambda>_. give (Inr False)) w))"

text \<open>The copy reads the source in blocks and writes each one; a failing read or write ends it.\<close>

definition copy_bytes :: "'u env \<Rightarrow> path \<Rightarrow> ('u, bytes) action" where
  "copy_bytes env source_path =
     and_then (read_all env (AE_Io (''failed to open local artifact '' @ source_path))
         (\<lambda>e. error_context (''failed to read local artifact '' @ source_path) (artifact_error_of_io e)) source_path) (\<lambda>bs.
     and_then (io_call env (\<lambda>e. error_context ''failed to write local artifact'' (artifact_error_of_io e))) (\<lambda>_.
     give (Inr bs)))"

definition copy_local_file_to_cache ::
  "'u env \<Rightarrow> 'u url_lib \<Rightarrow> (bytes \<Rightarrow> string) \<Rightarrow> path \<Rightarrow> string \<Rightarrow> string option \<Rightarrow> path \<Rightarrow> ('u, unit) action" where
  "copy_local_file_to_cache env lib sha source_path source_label expected_sha256 dest_path w =
     (case metadata env source_path w of
        (w, Inl e) \<Rightarrow> (w, Inl (AE_Io (''failed to stat local artifact '' @ source_path) e))
      | (w, Inr Directory) \<Rightarrow> (w, Inl (AE_InvalidArgument (''local artifact is not a file: '' @ source_path)))
      | (w, Inr (RegularFile source)) \<Rightarrow>
          and_then (give (validate_download_size lib source_label (Some (length source)) (length source))) (\<lambda>_.
          and_then (cached_local_file_valid env sha (length source) dest_path expected_sha256) (\<lambda>valid.
            if valid then give (Inr ())
            else
              and_then (firmware_temp_file env dest_path) (\<lambda>_.
              and_then (copy_bytes env source_path) (\<lambda>copied.
              and_then (io_call env (AE_Io ''failed to flush local artifact'')) (\<lambda>_.
              and_then (give (validate_download_size lib source_label (Some (length source)) (length copied))) (\<lambda>_.
              and_then (give (check_digest sha source_label expected_sha256 copied)) (\<lambda>_.
              persist env (\<lambda>e. AE_Cache (''failed to publish local artifact '' @ dest_path @ '': '' @ io_text e))
                copied dest_path))))))) w)"

definition download_artifact ::
  "'u env \<Rightarrow> 'u url_lib \<Rightarrow> (bytes \<Rightarrow> string) \<Rightarrow> ArtifactDownloadRequest \<Rightarrow> path \<Rightarrow> ArtifactHttpClient \<Rightarrow> ('u, unit) action" where
  "download_artifact env lib sha request destination client w =
     (case path_file_name destination of
        None \<Rightarrow> (w, Inl (AE_InvalidArgument ''artifact destination must have a filename''))
      | Some filename \<Rightarrow>
          if (case sha_expected (dl_sha256 request) of Some d \<Rightarrow> \<not> is_valid_sha256_hex d | None \<Rightarrow> False)
          then (w, Inl (AE_InvalidArgument (''invalid expected sha256 for '' @ filename @ '': expected 64 hex characters'')))
          else (case resolve_artifact_download_with_policy lib (dl_location request) (dl_location_type request)
                       (dl_access_token request) of
              Inl m \<Rightarrow> (w, Inl (AE_InvalidArgument m))
            | Inr source \<Rightarrow>
                if missing_required_digest (dl_sha256 request) \<and> (case source of SourceHttp _ _ \<Rightarrow> True | SourceFile _ \<Rightarrow> False)
                then (w, Inl (AE_InvalidArgument (''firmware artifact '' @
                       redact_location_for_logging lib (dl_location request) @ '' is missing a required Sha256 digest'')))
                else (case path_parent destination of
                    None \<Rightarrow> (w, Inl (AE_InvalidArgument ''artifact destination must have a parent''))
                  | Some dest_dir \<Rightarrow>
                      and_then (io_call env (AE_Io (''failed to create cache directory '' @ dest_dir))) (\<lambda>_.
                        (case source of
                           SourceHttp url auth \<Rightarrow> download_http_file_with_backoff env lib sha client url
                             (sha_expected (dl_sha256 request)) auth destination
                         | SourceFile source_path \<Rightarrow> copy_local_file_to_cache env lib sha source_path (dl_location request)
                             (sha_expected (dl_sha256 request)) destination)) w)))"

end
