(* ===== verification/Artifact_Properties.thy ===== *)
theory Artifact_Properties
  imports Artifact_Download
begin

text \<open>
  What the downloader promises.  A preorder on worlds that every primitive step respects is respected by
  whole downloads.  The locale \<open>quiet_order\<close> proves this for the steps that send nothing, \<open>file_order\<close>
  for publication, \<open>download_order\<close> for requests and \<open>publishing_order\<close> for both.  The interpretations are the requests sent (each passes the policy and keeps the
  credentials at home), the files other than the destination, and the destination until publication.
\<close>

section \<open>Actions that respect an order\<close>

definition keeps :: "('u world \<Rightarrow> 'u world \<Rightarrow> bool) \<Rightarrow> ('u, 'a) action \<Rightarrow> bool" where
  "keeps ord m \<longleftrightarrow> (\<forall>w. ord w (fst (m w)))"

definition keeps_failing :: "('u world \<Rightarrow> 'u world \<Rightarrow> bool) \<Rightarrow> ('u, 'a) action \<Rightarrow> bool" where
  "keeps_failing ord m \<longleftrightarrow> (\<forall>w w' e. m w = (w', Inl e) \<longrightarrow> ord w w')"

definition request_ok ::
  "'u url_lib \<Rightarrow> ArtifactDownloadPolicy \<Rightarrow> ArtifactHttpAuth \<Rightarrow> string \<Rightarrow> 'u HttpRequest \<Rightarrow> bool" where
  "request_ok lib policy auth url rq \<longleftrightarrow>
     \<not> isl (validate_artifact_http_url lib (rq_url rq) policy) \<and> rq_api_key rq = api_key auth \<and>
     (api_key auth = None \<or> url_scheme lib (rq_url rq) = ''https'' \<and>
        (case url_parse lib url of Some origin \<Rightarrow> url_same_origin lib (rq_url rq) origin | None \<Rightarrow> False))"

locale quiet_order =
  fixes ord :: "'u world \<Rightarrow> 'u world \<Rightarrow> bool" and dest :: path
  assumes refl: "ord w w"
    and trans: "ord w1 w2 \<Longrightarrow> ord w2 w3 \<Longrightarrow> ord w1 w3"
    and io: "ord w (w\<lparr>w_io := n\<rparr>)"
    and wait: "ord w (w\<lparr>w_now := t\<rparr>)"
    and del: "ord w (w\<lparr>w_files := hm_del dest (w_files w)\<rparr>)"
begin

lemma keepsD: "keeps ord m \<Longrightarrow> m w = (w', r) \<Longrightarrow> ord w w'"
  unfolding keeps_def by (metis fst_conv)

lemma keepsI: "(\<And>w w' r. m w = (w', r) \<Longrightarrow> ord w w') \<Longrightarrow> keeps ord m"
  unfolding keeps_def by (metis prod.collapse)

lemma keeps_give: "keeps ord (give r)"
  by (simp add: keeps_def give_def refl)

lemma keeps_and_then:
  assumes "keeps ord m" and "\<And>x. keeps ord (f x)"
  shows "keeps ord (and_then m f)"
proof (rule keepsI)
  fix w w' r assume run: "and_then m f w = (w', r)"
  obtain v q where m: "m w = (v, q)" by (cases "m w")
  show "ord w w'"
  proof (cases q)
    case (Inl e)
    then show ?thesis using keepsD [OF assms(1) m] run m by (simp add: and_then_def)
  next
    case (Inr x)
    then have "f x v = (w', r)" using run m by (simp add: and_then_def)
    then show ?thesis using keepsD [OF assms(1) m] keepsD [OF assms(2)] trans by blast
  qed
qed

lemma failing_and_then:
  assumes "keeps ord m" and "\<And>x. keeps_failing ord (f x)"
  shows "keeps_failing ord (and_then m f)"
  unfolding keeps_failing_def
proof (intro allI impI)
  fix w w' e assume run: "and_then m f w = (w', Inl e)"
  obtain v q where m: "m w = (v, q)" by (cases "m w")
  show "ord w w'"
  proof (cases q)
    case (Inl e')
    then show ?thesis using keepsD [OF assms(1) m] run m by (simp add: and_then_def)
  next
    case (Inr x)
    then have "f x v = (w', Inl e)" using run m by (simp add: and_then_def)
    then have "ord v w'" using assms(2) unfolding keeps_failing_def by blast
    then show ?thesis using keepsD [OF assms(1) m] trans by blast
  qed
qed

lemma keeps_if: "keeps ord m \<Longrightarrow> keeps ord n \<Longrightarrow> keeps ord (if b then m else n)"
  by simp

lemma failing_if: "keeps_failing ord m \<Longrightarrow> keeps_failing ord n \<Longrightarrow> keeps_failing ord (if b then m else n)"
  by simp

lemma keeps_imp_failing: "keeps ord m \<Longrightarrow> keeps_failing ord m"
  using keepsD unfolding keeps_failing_def by blast

lemma keeps_io: "keeps ord (io_call env err)"
  by (simp add: keeps_def io_call_def io)

lemma keeps_metadata: "ord w (fst (metadata env p w))"
  by (simp add: metadata_def io)

lemma keeps_remove: "keeps ord (remove_invalid_cached_file env dest)"
  unfolding remove_invalid_cached_file_def
  by (rule keeps_and_then [OF keeps_io]) (simp add: keeps_def del)

lemma keeps_read_all: "keeps ord (read_all env e1 e2 p)"
  unfolding read_all_def
proof (rule keeps_and_then [OF keeps_io])
  have "keeps ord (and_then (io_call env e2) (\<lambda>_. give (Inr bs)))" for bs :: bytes
    by (rule keeps_and_then [OF keeps_io keeps_give])
  then show "keeps ord (\<lambda>w. case file_at w p of
      Some (RegularFile bs) \<Rightarrow> and_then (io_call env e2) (\<lambda>_. give (Inr bs)) w
    | Some Directory \<Rightarrow> (w, Inl (e2 \<lparr>io_kind = IK_Other, io_text = ''Is a directory (os error 21)''\<rparr>))
    | None \<Rightarrow> (w, Inl (e1 not_found)))" for x :: unit
    by (simp add: keeps_def refl split: option.split FileEntry.split)
qed

lemma keeps_sha: "keeps ord (file_sha256 env sha p)"
  unfolding file_sha256_def by (rule keeps_and_then [OF keeps_read_all keeps_give])

lemma keeps_temp: "keeps ord (firmware_temp_file env p)"
proof (cases "path_parent p")
  case None
  then show ?thesis by (simp add: firmware_temp_file_def keeps_give)
next
  case (Some d)
  have "keeps ord (\<lambda>w. (w, Inr (env_temp_path env (w_io w))))" by (simp add: keeps_def refl)
  then show ?thesis using Some by (auto simp: firmware_temp_file_def intro: keeps_and_then [OF keeps_io])
qed

lemma keeps_chunks: "keeps ord (stream_chunks env l tp chunks written)"
proof (induction chunks arbitrary: written)
  case (Cons c chunks)
  then show ?case by (cases c) (auto intro: keeps_and_then keeps_io keeps_give)
qed (simp add: keeps_give)

lemma keeps_stream: "keeps ord (stream_response_to_temp_file env l sha rs tp u d)"
  unfolding stream_response_to_temp_file_def
  by (intro keeps_and_then keeps_chunks keeps_io keeps_give)

lemma failing_persist: "keeps_failing ord (persist env err bs p)"
proof -
  have "ord w (fst (io_call env err (fst (io_call env err w))))" for w
    using keeps_io [of env err] trans unfolding keeps_def by blast
  then show ?thesis unfolding keeps_failing_def persist_def
    by (auto split: prod.splits sum.splits) (metis fst_conv)
qed

lemma keeps_drop: "keeps ord (and_then (remove_invalid_cached_file env dest) (\<lambda>_. give r))"
  by (rule keeps_and_then [OF keeps_remove keeps_give])

lemma keeps_sha_check:
  "keeps ord (and_then (file_sha256 env sha dest) (\<lambda>actual.
     if P actual then give (Inr True) else and_then (remove_invalid_cached_file env dest) (\<lambda>_. give (Inr False))))"
  by (rule keeps_and_then [OF keeps_sha]) (simp add: keeps_give keeps_drop)

lemma keeps_cached_local: "keeps ord (cached_local_file_valid env sha len dest d)"
proof (rule keepsI)
  fix w w' r assume run: "cached_local_file_valid env sha len dest d w = (w', r)"
  obtain v q where stat: "metadata env dest w = (v, q)" by (cases "metadata env dest w")
  have v: "ord w v" using keeps_metadata [of w env dest] stat by simp
  have "v = w' \<or> and_then (remove_invalid_cached_file env dest) (\<lambda>_. give (Inr False)) v = (w', r) \<or>
      (\<exists>P. and_then (file_sha256 env sha dest) (\<lambda>actual.
        if P actual then give (Inr True) else and_then (remove_invalid_cached_file env dest) (\<lambda>_. give (Inr False))) v = (w', r))"
    using run stat by (auto simp: cached_local_file_valid_def split: sum.splits option.splits if_splits FileEntry.splits)
  then have "ord v w'" using refl keepsD [OF keeps_drop] keepsD [OF keeps_sha_check] by blast
  with v show "ord w w'" by (rule trans)
qed

lemma keeps_copy: "keeps ord (copy_bytes env p)"
  unfolding copy_bytes_def by (intro keeps_and_then keeps_read_all keeps_io keeps_give)

lemma failing_local: "keeps_failing ord (copy_local_file_to_cache env l sha src label d dest)"
  unfolding keeps_failing_def
proof (intro allI impI)
  fix w w' e assume run: "copy_local_file_to_cache env l sha src label d dest w = (w', Inl e)"
  let ?body = "\<lambda>n. and_then (give (validate_download_size l label (Some n) n)) (\<lambda>_.
    and_then (cached_local_file_valid env sha n dest d) (\<lambda>valid. if valid then give (Inr ()) else
      and_then (firmware_temp_file env dest) (\<lambda>_. and_then (copy_bytes env src) (\<lambda>copied.
      and_then (io_call env (AE_Io ''failed to flush local artifact'')) (\<lambda>_.
      and_then (give (validate_download_size l label (Some n) (length copied))) (\<lambda>_.
      and_then (give (check_digest sha label d copied)) (\<lambda>_.
      persist env (\<lambda>e. AE_Cache (''failed to publish local artifact '' @ dest @ '': '' @ io_text e)) copied dest)))))))"
  have body: "keeps_failing ord (?body n)" for n
    by (intro failing_and_then keeps_give keeps_cached_local)
      (auto intro!: failing_and_then keeps_temp keeps_copy keeps_io keeps_give failing_persist
        intro: keeps_imp_failing [OF keeps_give])
  obtain v q where stat: "metadata env src w = (v, q)" by (cases "metadata env src w")
  have v: "ord w v" using keeps_metadata [of w env src] stat by simp
  have "v = w' \<or> (\<exists>n. ?body n v = (w', Inl e))"
    using run stat by (auto simp: copy_local_file_to_cache_def split: sum.splits FileEntry.splits)
  then have "ord v w'" using refl body unfolding keeps_failing_def by blast
  with v show "ord w w'" by (rule trans)
qed

end

locale file_order = quiet_order +
  assumes put: "ord w (w\<lparr>w_files := hm_put dest x (w_files w)\<rparr>)"
begin

lemma keeps_persist: "keeps ord (persist env err bs dest)"
proof (rule keepsI)
  fix w w' r assume run: "persist env err bs dest w = (w', r)"
  show "ord w w'"
  proof (cases r)
    case (Inl e)
    then show ?thesis using failing_persist run unfolding keeps_failing_def by blast
  next
    case (Inr u)
    obtain v q where c: "io_call env err w = (v, q)" by (cases "io_call env err w")
    have "w' = v\<lparr>w_files := hm_put dest (RegularFile bs) (w_files v)\<rparr>"
      using run c Inr by (auto simp: persist_def split: sum.splits)
    then show ?thesis using keepsD [OF keeps_io c] put trans by blast
  qed
qed

lemma keeps_local: "keeps ord (copy_local_file_to_cache env l sha src label d dest)"
proof (rule keepsI)
  fix w w' r assume run: "copy_local_file_to_cache env l sha src label d dest w = (w', r)"
  obtain v q where stat: "metadata env src w = (v, q)" by (cases "metadata env src w")
  have v: "ord w v" using keeps_metadata [of w env src] stat by simp
  show "ord w w'"
  proof (cases q)
    case (Inl e)
    then show ?thesis using run stat v by (simp add: copy_local_file_to_cache_def)
  next
    case (Inr entry)
    then have "v = w' \<or> (\<exists>m. m v = (w', r) \<and> keeps ord m)"
      using run stat by (cases entry) (auto simp: copy_local_file_to_cache_def
          intro!: exI keeps_and_then keeps_give keeps_cached_local keeps_temp keeps_copy keeps_io keeps_persist)
    then show ?thesis using v keepsD trans by blast
  qed
qed

end

locale download_order = quiet_order +
  fixes lib :: "'a url_lib" and policy :: ArtifactDownloadPolicy and auth :: ArtifactHttpAuth and url :: string
  assumes send: "request_ok lib policy auth url rq \<Longrightarrow> ord w (w\<lparr>w_sent := w_sent w @ [rq], w_now := t\<rparr>)"
begin

lemma check_hop_request_ok:
  assumes "check_hop lib policy auth origin redirects current = Inr u" and "url_parse lib url = Some origin"
    and "rq_url rq = current" and "rq_api_key rq = api_key auth"
  shows "request_ok lib policy auth url rq"
  using assms by (auto simp: check_hop_def redirect_allowed_def request_ok_def split: if_splits sum.splits)

lemma send_hop:
  assumes "check_hop lib policy auth origin redirects current = Inr u" and "url_parse lib url = Some origin"
    and "http_send env lib meth current auth deadline w = (w', r)"
  shows "ord w w'"
proof -
  let ?rq = "\<lparr>rq_method = meth, rq_url = current, rq_timeout = deadline - w_now w, rq_api_key = api_key auth\<rparr>"
  have "request_ok lib policy auth url ?rq" by (rule check_hop_request_ok [OF assms(1,2)]) simp_all
  from send [OF this] show ?thesis
    using assms(3) by (auto simp: http_send_def Let_def split: prod.splits)
qed

lemma keeps_hops:
  assumes "client_policy client = policy" and "url_parse lib url = Some origin"
  shows "ord w (fst (send_hops env lib client meth auth deadline origin redirects current w))"
proof (induction "MAX_ARTIFACT_REDIRECTS - redirects" arbitrary: redirects current w rule: less_induct)
  case less
  let ?next = "send_hops env lib client meth auth deadline origin (redirects + 1)"
  show ?case
  proof (cases "check_hop lib policy auth origin redirects current")
    case (Inl e)
    then show ?thesis using assms(1) by (subst send_hops.simps) (simp add: refl)
  next
    case (Inr u)
    obtain v q where sent: "http_send env lib meth current auth deadline w = (v, q)"
      by (cases "http_send env lib meth current auth deadline w")
    have v: "ord w v" by (rule send_hop [OF Inr assms(2) sent])
    have "ord w (fst (?next url' v))" if "\<not> MAX_ARTIFACT_REDIRECTS \<le> redirects" for url'
      using trans [OF v less [of "redirects + 1" v url']] that by simp
    then show ?thesis using v assms(1) Inr sent
      by (subst send_hops.simps) (simp split: sum.split option.split)
  qed
qed

lemma keeps_request:
  assumes "client_policy client = policy"
  shows "keeps ord (send_artifact_request env lib client meth url auth deadline)"
  using keeps_hops [OF assms] by (simp add: keeps_def send_artifact_request_def refl split: option.split)

lemma keeps_length:
  assumes "client_policy client = policy"
  shows "keeps ord (remote_content_length env lib client url auth deadline)"
  unfolding remote_content_length_def by (rule keeps_and_then [OF keeps_request [OF assms]]) (simp add: keeps_give)

lemma keeps_cached_size:
  assumes "client_policy client = policy"
  shows "keeps ord (cached_size_valid env lib client url auth dest len deadline)"
proof (rule keepsI)
  fix w w' r assume run: "cached_size_valid env lib client url auth dest len deadline w = (w', r)"
  obtain v q where head: "remote_content_length env lib client url auth deadline w = (v, q)"
    by (cases "remote_content_length env lib client url auth deadline w")
  have v: "ord w v" by (rule keepsD [OF keeps_length [OF assms] head])
  have "v = w' \<or> and_then (remove_invalid_cached_file env dest) (\<lambda>_. give (Inr False)) v = (w', r)"
    using run head by (auto simp: cached_size_valid_def split: sum.splits option.splits if_splits)
  then show "ord w w'" using v keepsD [OF keeps_drop] trans by blast
qed

lemma keeps_cached:
  assumes "client_policy client = policy"
  shows "keeps ord (cached_firmware_file_valid env lib sha client url auth dest d deadline)"
proof (rule keepsI)
  fix w w' r assume run: "cached_firmware_file_valid env lib sha client url auth dest d deadline w = (w', r)"
  obtain v q where stat: "metadata env dest w = (v, q)" by (cases "metadata env dest w")
  have v: "ord w v" using keeps_metadata [of w env dest] stat by simp
  have "v = w' \<or> and_then (remove_invalid_cached_file env dest) (\<lambda>_. give (Inr False)) v = (w', r) \<or>
      (\<exists>P. and_then (file_sha256 env sha dest) (\<lambda>actual.
        if P actual then give (Inr True) else and_then (remove_invalid_cached_file env dest) (\<lambda>_. give (Inr False))) v = (w', r)) \<or>
      (\<exists>len. cached_size_valid env lib client url auth dest len deadline v = (w', r))"
    using run stat by (auto simp: cached_firmware_file_valid_def split: sum.splits option.splits if_splits FileEntry.splits)
  then have "ord v w'"
    using refl keepsD [OF keeps_drop] keepsD [OF keeps_sha_check] keepsD [OF keeps_cached_size [OF assms]] by blast
  with v show "ord w w'" by (rule trans)
qed

lemma failing_http:
  assumes "client_policy client = policy"
  shows "keeps_failing ord (download_http_file env lib sha client url d auth dest deadline)"
  unfolding download_http_file_def
  by (intro failing_and_then failing_if keeps_cached [OF assms] keeps_request [OF assms] keeps_temp keeps_stream
      failing_persist keeps_imp_failing [OF keeps_give])

lemma failing_attempts:
  assumes "client_policy client = policy"
    and "download_attempts env lib sha client url d auth dest deadline attempt first w = (w', Inl e)"
  shows "ord w w'"
  using assms(2)
proof (induction "ARTIFACT_DOWNLOAD_ATTEMPTS - attempt" arbitrary: attempt first w rule: less_induct)
  case less
  obtain v error where run: "download_http_file env lib sha client url d auth dest deadline w = (v, Inl error)"
    using less.prems by (subst (asm) download_attempts.simps) (auto split: prod.splits sum.splits)
  have v: "ord w v" using failing_http [OF assms(1)] run unfolding keeps_failing_def by blast
  show ?case
  proof (cases "is_transient error \<and> attempt < ARTIFACT_DOWNLOAD_ATTEMPTS \<and> w_now v + retry_delay client attempt < deadline")
    case True
    have "ord (v\<lparr>w_now := w_now v + retry_delay client attempt\<rparr>) w'"
      using less.prems run True by (subst (asm) download_attempts.simps) (auto intro: less.hyps [rotated])
    then show ?thesis using v wait trans by blast
  next
    case False
    then have "w' = v" using less.prems run by (subst (asm) download_attempts.simps) (simp split: if_splits)
    then show ?thesis using v by simp
  qed
qed

end

locale publishing_order = download_order + file_order
begin

lemma keeps_http:
  assumes "client_policy client = policy"
  shows "keeps ord (download_http_file env lib sha client url d auth dest deadline)"
  unfolding download_http_file_def
  by (intro keeps_and_then keeps_if keeps_cached [OF assms] keeps_request [OF assms] keeps_temp keeps_stream
      keeps_persist keeps_give)

lemma keeps_attempts:
  assumes "client_policy client = policy"
  shows "ord w (fst (download_attempts env lib sha client url d auth dest deadline attempt first w))"
proof (induction "ARTIFACT_DOWNLOAD_ATTEMPTS - attempt" arbitrary: attempt first w rule: less_induct)
  case less
  obtain v q where run: "download_http_file env lib sha client url d auth dest deadline w = (v, q)"
    by (cases "download_http_file env lib sha client url d auth dest deadline w")
  have v: "ord w v" by (rule keepsD [OF keeps_http [OF assms] run])
  have "ord w (fst (download_attempts env lib sha client url d auth dest deadline (attempt + 1) f
      (v\<lparr>w_now := w_now v + retry_delay client attempt\<rparr>)))" if "attempt < ARTIFACT_DOWNLOAD_ATTEMPTS" for f
    using trans [OF trans [OF v wait] less] that by simp
  then show ?case using v run by (subst download_attempts.simps) (simp split: sum.split)
qed

end


section \<open>The orders of the downloader\<close>

definition sent_ord ::
  "'u url_lib \<Rightarrow> ArtifactDownloadPolicy \<Rightarrow> ArtifactHttpAuth \<Rightarrow> string \<Rightarrow> 'u world \<Rightarrow> 'u world \<Rightarrow> bool" where
  "sent_ord lib policy auth url w w' \<longleftrightarrow>
     (\<exists>new. w_sent w' = w_sent w @ new \<and> list_all (request_ok lib policy auth url) new)"

definition others_ord :: "path \<Rightarrow> 'u world \<Rightarrow> 'u world \<Rightarrow> bool" where
  "others_ord dest w w' \<longleftrightarrow> (\<forall>p. p \<noteq> dest \<longrightarrow> file_at w' p = file_at w p)"

definition cache_ord :: "path \<Rightarrow> 'u world \<Rightarrow> 'u world \<Rightarrow> bool" where
  "cache_ord dest w w' \<longleftrightarrow> others_ord dest w w' \<and> (file_at w' dest = file_at w dest \<or> file_at w' dest = None)"

definition silent :: "'u world \<Rightarrow> 'u world \<Rightarrow> bool" where
  "silent w w' \<longleftrightarrow> w_sent w' = w_sent w"

lemma file_at_put: "hm_get (hm_put p x fs) q = (if q = p then Some x else hm_get fs q)"
  by (simp add: hm_put_def AList.update_conv')

lemma file_at_del: "hm_get (hm_del p fs) q = (if q = p then None else hm_get fs q)"
  by (simp add: hm_del_def AList.delete_conv')

interpretation quiet: file_order silent dest for dest
  by unfold_locales (auto simp: silent_def)

interpretation sent: publishing_order "sent_ord lib policy auth url" dest lib policy auth url for dest lib policy auth url
proof unfold_locales
  show "sent_ord lib policy auth url w1 w3"
    if "sent_ord lib policy auth url w1 w2" "sent_ord lib policy auth url w2 w3" for w1 w2 w3
    using that unfolding sent_ord_def by (metis append.assoc list_all_append)
qed (auto simp: sent_ord_def)

interpretation others: publishing_order "others_ord dest" dest lib policy auth url for dest lib policy auth url
  by unfold_locales (auto simp: others_ord_def file_at_put file_at_del)

interpretation cached: download_order "cache_ord dest" dest lib policy auth url for dest lib policy auth url
  by unfold_locales (auto simp: cache_ord_def others_ord_def file_at_del)


section \<open>How many requests\<close>

definition sends_at_most :: "nat \<Rightarrow> ('u, 'a) action \<Rightarrow> bool" where
  "sends_at_most n m \<longleftrightarrow> (\<forall>w. length (w_sent (fst (m w))) \<le> length (w_sent w) + n)"

lemma sends_quiet: "keeps silent m \<Longrightarrow> sends_at_most n m"
  by (simp add: keeps_def silent_def sends_at_most_def)

lemma sends_if: "sends_at_most n m \<Longrightarrow> sends_at_most n m' \<Longrightarrow> sends_at_most n (if b then m else m')"
  by simp

lemma sends_and_then:
  assumes "sends_at_most n m" and "\<And>x. sends_at_most k (f x)" and "l = n + k"
  shows "sends_at_most l (and_then m f)"
  unfolding sends_at_most_def
proof
  fix w
  obtain v q where m: "m w = (v, q)" by (cases "m w")
  have v: "length (w_sent v) \<le> length (w_sent w) + n" using assms(1) m unfolding sends_at_most_def by (metis fst_conv)
  show "length (w_sent (fst (and_then m f w))) \<le> length (w_sent w) + l"
  proof (cases q)
    case (Inl e)
    then show ?thesis using v m assms(3) by (simp add: and_then_def)
  next
    case (Inr x)
    have "length (w_sent (fst (f x v))) \<le> length (w_sent v) + k" using assms(2) unfolding sends_at_most_def by blast
    then show ?thesis using v m Inr assms(3) by (simp add: and_then_def)
  qed
qed

lemma http_send_length:
  "http_send env lib meth current auth deadline w = (v, q) \<Longrightarrow> length (w_sent v) = length (w_sent w) + 1"
  by (auto simp: http_send_def Let_def split: prod.splits)

lemma send_hops_length:
  "length (w_sent (fst (send_hops env lib client meth auth deadline origin redirects current w))) \<le>
     length (w_sent w) + Suc (MAX_ARTIFACT_REDIRECTS - redirects)"
proof (induction "MAX_ARTIFACT_REDIRECTS - redirects" arbitrary: redirects current w rule: less_induct)
  case less
  let ?next = "send_hops env lib client meth auth deadline origin (redirects + 1)"
  obtain v q where sent: "http_send env lib meth current auth deadline w = (v, q)"
    by (cases "http_send env lib meth current auth deadline w")
  note v = http_send_length [OF sent]
  have "length (w_sent (fst (?next url v))) \<le> length (w_sent w) + Suc (MAX_ARTIFACT_REDIRECTS - redirects)"
    if "\<not> MAX_ARTIFACT_REDIRECTS \<le> redirects" for url
  proof -
    have "MAX_ARTIFACT_REDIRECTS - (redirects + 1) < MAX_ARTIFACT_REDIRECTS - redirects" using that by arith
    from less [OF this, of url v] this v show ?thesis by linarith
  qed
  moreover define b where "b = length (w_sent w) + Suc (MAX_ARTIFACT_REDIRECTS - redirects)"
  ultimately have "\<not> MAX_ARTIFACT_REDIRECTS \<le> redirects \<Longrightarrow> length (w_sent (fst (?next url v))) \<le> b" for url by blast
  moreover have "length (w_sent v) \<le> b" "length (w_sent w) \<le> b" using v by (simp_all add: b_def)
  ultimately show ?case unfolding b_def [symmetric] using sent
    by (subst send_hops.simps) (auto split: sum.split option.split)
qed

lemma sends_request: "sends_at_most 11 (send_artifact_request env lib client meth url auth deadline)"
proof -
  have "length (w_sent (fst (send_hops env lib client meth auth deadline origin 0 origin w))) \<le> length (w_sent w) + 11"
    for origin w
    using send_hops_length [of env lib client meth auth deadline origin 0 origin w]
    by (simp add: MAX_ARTIFACT_REDIRECTS_def)
  then show ?thesis by (simp add: sends_at_most_def send_artifact_request_def split: option.split)
qed

lemma sends_cached_size: "sends_at_most 11 (cached_size_valid env lib client url auth dest len deadline)"
  unfolding sends_at_most_def
proof
  fix w
  obtain v q where head: "remote_content_length env lib client url auth deadline w = (v, q)"
    by (cases "remote_content_length env lib client url auth deadline w")
  have "sends_at_most 11 (remote_content_length env lib client url auth deadline)" unfolding remote_content_length_def
    by (rule sends_and_then [OF sends_request, where k = 0]) (auto intro: sends_quiet quiet.keeps_give)
  then have v: "length (w_sent v) \<le> length (w_sent w) + 11" using head unfolding sends_at_most_def by (metis fst_conv)
  have "silent v (fst (and_then (remove_invalid_cached_file env dest) (\<lambda>_. give (Inr False)) v))"
    using quiet.keeps_drop unfolding keeps_def by blast
  then show "length (w_sent (fst (cached_size_valid env lib client url auth dest len deadline w))) \<le> length (w_sent w) + 11"
    using v head by (simp add: cached_size_valid_def silent_def split: sum.split option.split)
qed

lemma sends_cached: "sends_at_most 11 (cached_firmware_file_valid env lib sha client url auth dest d deadline)"
  unfolding sends_at_most_def
proof
  fix w
  obtain v q where stat: "metadata env dest w = (v, q)" by (cases "metadata env dest w")
  have v: "w_sent v = w_sent w" using quiet.keeps_metadata [of w env dest] stat by (simp add: silent_def)
  note steps = quiet.keeps_drop [of env dest "Inr False", unfolded keeps_def silent_def, rule_format, of v]
    quiet.keeps_sha_check [of env sha dest, unfolded keeps_def silent_def, rule_format, of _ v]
  show "length (w_sent (fst (cached_firmware_file_valid env lib sha client url auth dest d deadline w))) \<le> length (w_sent w) + 11"
    using v stat steps sends_cached_size [of env lib client url auth dest _ deadline, unfolded sends_at_most_def, rule_format, of _ v]
    by (simp add: cached_firmware_file_valid_def split: sum.split option.split FileEntry.split)
qed

lemma sends_persist: "sends_at_most 0 (persist env err bs p)"
  by (auto simp: sends_at_most_def persist_def io_call_def split: option.split)

lemma sends_http: "sends_at_most 22 (download_http_file env lib sha client url d auth dest deadline)"
proof -
  have "sends_at_most 0 (and_then (firmware_temp_file env dest) (\<lambda>tp.
      and_then (stream_response_to_temp_file env lib sha rs tp url d) (\<lambda>bs. persist env (err tp) bs dest)))" for rs err
    by (rule sends_and_then [OF sends_quiet [OF quiet.keeps_temp], where n = 0 and k = 0])
      (rule sends_and_then [OF sends_quiet [OF quiet.keeps_stream] sends_persist, where n = 0], simp_all)
  then have "sends_at_most 11 (and_then (send_artifact_request env lib client GET url auth deadline) (\<lambda>rs.
      if b rs then give (Inl (g rs)) else and_then (firmware_temp_file env dest) (\<lambda>tp.
      and_then (stream_response_to_temp_file env lib sha rs tp url d) (\<lambda>bs. persist env (err tp) bs dest))))" for b g err
    by (intro sends_and_then [OF sends_request, where k = 0] sends_if sends_quiet [OF quiet.keeps_give]) simp_all
  then show ?thesis unfolding download_http_file_def
    by (intro sends_and_then [OF sends_cached, where k = 11] sends_if sends_quiet [OF quiet.keeps_give]) simp_all
qed

lemma sends_attempts:
  "length (w_sent (fst (download_attempts env lib sha client url d auth dest deadline attempt first w))) \<le>
     length (w_sent w) + 22 * Suc (ARTIFACT_DOWNLOAD_ATTEMPTS - attempt)"
proof (induction "ARTIFACT_DOWNLOAD_ATTEMPTS - attempt" arbitrary: attempt first w rule: less_induct)
  case less
  obtain v q where run: "download_http_file env lib sha client url d auth dest deadline w = (v, q)"
    by (cases "download_http_file env lib sha client url d auth dest deadline w")
  have v: "length (w_sent v) \<le> length (w_sent w) + 22"
    using sends_http [of env lib sha client url d auth dest deadline] run unfolding sends_at_most_def by (metis fst_conv)
  have "length (w_sent (fst (download_attempts env lib sha client url d auth dest deadline (attempt + 1) f
      (v\<lparr>w_now := t\<rparr>)))) \<le> length (w_sent w) + 22 * Suc (ARTIFACT_DOWNLOAD_ATTEMPTS - attempt)"
    if "attempt < ARTIFACT_DOWNLOAD_ATTEMPTS" for f t
  proof -
    have lt: "ARTIFACT_DOWNLOAD_ATTEMPTS - (attempt + 1) < ARTIFACT_DOWNLOAD_ATTEMPTS - attempt" using that by arith
    have le: "22 + 22 * Suc (ARTIFACT_DOWNLOAD_ATTEMPTS - (attempt + 1)) \<le> 22 * Suc (ARTIFACT_DOWNLOAD_ATTEMPTS - attempt)"
      using lt by arith
    have add: "x \<le> y + b \<Longrightarrow> y \<le> z + 22 \<Longrightarrow> 22 + b \<le> c \<Longrightarrow> x \<le> z + c" for x y z b c :: nat by arith
    have "length (w_sent (v\<lparr>w_now := t\<rparr>)) \<le> length (w_sent w) + 22" using v by simp
    then show ?thesis by (rule add [OF less [OF lt] _ le])
  qed
  then show ?case using v run by (subst download_attempts.simps) (simp split: sum.split)
qed


section \<open>What is published\<close>

definition verified :: "(bytes \<Rightarrow> string) \<Rightarrow> string option \<Rightarrow> FileEntry option \<Rightarrow> bool" where
  "verified sha expected entry =
     (case entry of
        Some (RegularFile bs) \<Rightarrow> bs \<noteq> [] \<and> (case expected of Some d \<Rightarrow> sha256_matches d (sha bs) | None \<Rightarrow> True)
      | _ \<Rightarrow> False)"

lemma and_then_Inr: "and_then m f w = (w', Inr y) \<longleftrightarrow> (\<exists>v x. m w = (v, Inr x) \<and> f x v = (w', Inr y))"
  by (auto simp: and_then_def split: prod.splits sum.splits)

lemma io_call_Inr: "io_call env err w = (w', Inr u) \<Longrightarrow> w_files w' = w_files w"
  by (auto simp: io_call_def)

lemma read_all_Inr:
  assumes "read_all env e1 e2 p w = (w', Inr bs)"
  shows "w_files w' = w_files w \<and> file_at w p = Some (RegularFile bs)"
proof -
  obtain v where open_ok: "io_call env e1 w = (v, Inr ())"
    and rest: "(case file_at v p of
        Some (RegularFile bs) \<Rightarrow> and_then (io_call env e2) (\<lambda>_. give (Inr bs)) v
      | Some Directory \<Rightarrow> (v, Inl (e2 \<lparr>io_kind = IK_Other, io_text = ''Is a directory (os error 21)''\<rparr>))
      | None \<Rightarrow> (v, Inl (e1 not_found))) = (w', Inr bs)"
    using assms unfolding read_all_def and_then_Inr by auto
  note files = io_call_Inr [OF open_ok]
  obtain content where content: "file_at v p = Some (RegularFile content)"
    using rest by (cases "file_at v p") (auto split: FileEntry.splits)
  then have "and_then (io_call env e2) (\<lambda>_. give (Inr content)) v = (w', Inr bs)" using rest by simp
  then have "w_files w' = w_files v" "bs = content" by (auto simp: and_then_Inr give_def dest: io_call_Inr)
  then show ?thesis using content files by simp
qed

lemma file_sha256_Inr:
  assumes "file_sha256 env sha p w = (w', Inr actual)"
  shows "w_files w' = w_files w \<and> (\<exists>bs. file_at w p = Some (RegularFile bs) \<and> actual = sha bs)"
  using assms unfolding file_sha256_def and_then_Inr by (auto simp: give_def dest: read_all_Inr)

lemma remove_then_False: "and_then (remove_invalid_cached_file env p) (\<lambda>_. give (Inr False)) w \<noteq> (w', Inr True)"
  by (simp add: and_then_Inr give_def)

lemma http_send_files: "http_send env lib meth current auth deadline w = (v, q) \<Longrightarrow> w_files v = w_files w"
  by (auto simp: http_send_def Let_def split: prod.splits)

lemma send_hops_files:
  "w_files (fst (send_hops env lib client meth auth deadline origin redirects current w)) = w_files w"
proof (induction "MAX_ARTIFACT_REDIRECTS - redirects" arbitrary: redirects current w rule: less_induct)
  case less
  obtain v q where sent: "http_send env lib meth current auth deadline w = (v, q)"
    by (cases "http_send env lib meth current auth deadline w")
  have "w_files (fst (send_hops env lib client meth auth deadline origin (redirects + 1) url v)) = w_files w"
    if "\<not> MAX_ARTIFACT_REDIRECTS \<le> redirects" for url
  proof -
    have "MAX_ARTIFACT_REDIRECTS - (redirects + 1) < MAX_ARTIFACT_REDIRECTS - redirects" using that by arith
    from less [OF this, of url v] show ?thesis using http_send_files [OF sent] by simp
  qed
  then show ?case using http_send_files [OF sent] sent
    by (subst send_hops.simps) (auto split: sum.split option.split)
qed

lemma request_files: "w_files (fst (send_artifact_request env lib client meth url auth deadline w)) = w_files w"
  by (simp add: send_artifact_request_def send_hops_files split: option.split)

lemma length_files: "w_files (fst (remote_content_length env lib client url auth deadline w)) = w_files w"
  using request_files [of env lib client HEAD url auth deadline w]
  by (auto simp: remote_content_length_def and_then_def give_def split: prod.split sum.split)

lemma metadata_Inr:
  "metadata env p w = (v, Inr entry) \<Longrightarrow> w_files v = w_files w \<and> file_at w p = Some entry"
  by (auto simp: metadata_def split: option.splits)

lemma digest_check_True:
  assumes "and_then (file_sha256 env sha dest) (\<lambda>actual. if sha256_matches d actual then give (Inr True)
      else and_then (remove_invalid_cached_file env dest) (\<lambda>_. give (Inr False))) w = (w', Inr True)"
  shows "w_files w' = w_files w \<and> (\<exists>bs. file_at w dest = Some (RegularFile bs) \<and> sha256_matches d (sha bs))"
proof -
  obtain v actual where run: "file_sha256 env sha dest w = (v, Inr actual)"
      "(if sha256_matches d actual then give (Inr True)
        else and_then (remove_invalid_cached_file env dest) (\<lambda>_. give (Inr False))) v = (w', Inr True)"
    using assms unfolding and_then_Inr by blast
  have m: "sha256_matches d actual" using run(2) remove_then_False by (metis (full_types))
  then have "w' = v" using run(2) by (simp add: give_def)
  then show ?thesis using file_sha256_Inr [OF run(1)] m by blast
qed

lemma cached_size_True:
  assumes "cached_size_valid env lib client url auth dest len deadline w = (w', Inr True)"
  shows "w_files w' = w_files w"
proof -
  obtain v q where head: "remote_content_length env lib client url auth deadline w = (v, q)"
    by (cases "remote_content_length env lib client url auth deadline w")
  have "w' = v" using assms head
    by (auto simp: cached_size_valid_def remove_then_False split: sum.splits option.splits if_splits)
  then show ?thesis using length_files [of env lib client url auth deadline w] head by simp
qed

lemma cached_firmware_True:
  assumes "cached_firmware_file_valid env lib sha client url auth dest d deadline w = (w', Inr True)"
  shows "verified sha d (file_at w' dest)"
proof -
  obtain v q where stat: "metadata env dest w = (v, q)" by (cases "metadata env dest w")
  obtain bs where q: "q = Inr (RegularFile bs)" and bs: "bs \<noteq> []"
    using assms stat by (auto simp: cached_firmware_file_valid_def remove_then_False split: sum.splits if_splits FileEntry.splits)
  have v: "file_at v dest = Some (RegularFile bs)" using metadata_Inr stat q by metis
  show ?thesis
  proof (cases d)
    case None
    then have "w' = v \<or> (\<exists>len. cached_size_valid env lib client url auth dest len deadline v = (w', Inr True))"
      using assms stat q bs by (auto simp: cached_firmware_file_valid_def split: if_splits)
    then have "w_files w' = w_files v" using cached_size_True by blast
    then show ?thesis using v bs None by (simp add: verified_def)
  next
    case (Some e)
    then have "w_files w' = w_files v \<and> (\<exists>bs. file_at v dest = Some (RegularFile bs) \<and> sha256_matches e (sha bs))"
      using assms stat q bs by (intro digest_check_True) (simp add: cached_firmware_file_valid_def)
    then show ?thesis using v bs Some by (auto simp: verified_def)
  qed
qed

lemma cached_local_True:
  assumes "cached_local_file_valid env sha len dest d w = (w', Inr True)"
  shows "verified sha d (file_at w' dest)"
proof -
  obtain v q where stat: "metadata env dest w = (v, q)" by (cases "metadata env dest w")
  obtain bs where q: "q = Inr (RegularFile bs)" and bs: "bs \<noteq> []"
    using assms stat by (auto simp: cached_local_file_valid_def remove_then_False
        split: sum.splits if_splits FileEntry.splits option.splits)
  have v: "file_at v dest = Some (RegularFile bs)" using metadata_Inr stat q by metis
  show ?thesis
  proof (cases d)
    case None
    then have "w' = v" using assms stat q by (auto simp: cached_local_file_valid_def remove_then_False split: if_splits)
    then show ?thesis using v bs None by (simp add: verified_def)
  next
    case (Some e)
    then have "w_files w' = w_files v \<and> (\<exists>bs. file_at v dest = Some (RegularFile bs) \<and> sha256_matches e (sha bs))"
      using assms stat q bs by (intro digest_check_True) (simp add: cached_local_file_valid_def)
    then show ?thesis using v bs Some by (auto simp: verified_def)
  qed
qed

lemma size_and_digest:
  assumes "validate_download_size lib label n (length bs) = Inr u" and "check_digest sha l d bs = Inr u'"
  shows "verified sha d (Some (RegularFile bs))"
  using assms by (auto simp: validate_download_size_def check_digest_def verified_def split: if_splits option.splits)

lemma persist_Inr: "persist env err bs dest w = (w', Inr u) \<Longrightarrow> file_at w' dest = Some (RegularFile bs)"
  by (auto simp: persist_def file_at_put split: prod.splits sum.splits)

lemma stream_Inr:
  assumes "stream_response_to_temp_file env lib sha rs tp url d w = (w', Inr bs)"
  shows "verified sha d (Some (RegularFile bs))"
  using assms unfolding stream_response_to_temp_file_def and_then_Inr
  by (auto simp: give_def and_then_Inr intro: size_and_digest)

lemma http_Inr:
  assumes "download_http_file env lib sha client url d auth dest deadline w = (w', Inr u)"
  shows "verified sha d (file_at w' dest)"
proof -
  obtain v valid where cached: "cached_firmware_file_valid env lib sha client url auth dest d deadline w = (v, Inr valid)"
    using assms unfolding download_http_file_def and_then_Inr by blast
  show ?thesis
  proof (cases valid)
    case True
    then have "w' = v" using assms cached by (auto simp: download_http_file_def and_then_Inr give_def)
    then show ?thesis using cached True by (auto intro: cached_firmware_True)
  next
    case False
    then obtain rs v1 tp v2 v3 bs err where
        "stream_response_to_temp_file env lib sha rs tp url d v2 = (v3, Inr bs)" "persist env err bs dest v3 = (w', Inr u)"
      using assms cached by (auto simp: download_http_file_def and_then_Inr give_def split: if_splits)
    then show ?thesis using stream_Inr persist_Inr by metis
  qed
qed

lemma attempts_Inr:
  assumes "download_attempts env lib sha client url d auth dest deadline attempt first w = (w', Inr u)"
  shows "verified sha d (file_at w' dest)"
  using assms
proof (induction "ARTIFACT_DOWNLOAD_ATTEMPTS - attempt" arbitrary: attempt first w rule: less_induct)
  case less
  obtain v q where run: "download_http_file env lib sha client url d auth dest deadline w = (v, q)"
    by (cases "download_http_file env lib sha client url d auth dest deadline w")
  show ?case
  proof (cases q)
    case (Inl error)
    then have "attempt < ARTIFACT_DOWNLOAD_ATTEMPTS \<and> (\<exists>f t. download_attempts env lib sha client url d auth dest deadline
        (attempt + 1) f (v\<lparr>w_now := t\<rparr>) = (w', Inr u))"
      using less.prems run by (subst (asm) download_attempts.simps) (auto split: if_splits)
    then show ?thesis using less.hyps [of "attempt + 1"] by fastforce
  next
    case (Inr x)
    then have "w' = v" using less.prems run by (subst (asm) download_attempts.simps) simp
    then show ?thesis using http_Inr run Inr by blast
  qed
qed

lemma local_Inr:
  assumes "copy_local_file_to_cache env lib sha src label d dest w = (w', Inr u)"
  shows "verified sha d (file_at w' dest)"
proof -
  obtain v source where stat: "metadata env src w = (v, Inr (RegularFile source))"
    using assms by (auto simp: copy_local_file_to_cache_def split: prod.splits sum.splits FileEntry.splits)
  obtain v1 valid where cached: "cached_local_file_valid env sha (length source) dest d v = (v1, Inr valid)"
    using assms stat by (auto simp: copy_local_file_to_cache_def and_then_Inr give_def)
  show ?thesis
  proof (cases valid)
    case True
    then have "w' = v1" using assms stat cached by (auto simp: copy_local_file_to_cache_def and_then_Inr give_def)
    then show ?thesis using cached True by (auto intro: cached_local_True)
  next
    case False
    then obtain v2 bs err n l where "validate_download_size lib label n (length bs) = Inr ()" "check_digest sha l d bs = Inr ()"
        "persist env err bs dest v2 = (w', Inr u)"
      using assms stat cached by (auto simp: copy_local_file_to_cache_def and_then_Inr give_def)
    then show ?thesis using size_and_digest persist_Inr by metis
  qed
qed


section \<open>Whole downloads\<close>

text \<open>A download either stops before any work, or runs one of the two transfers after one file operation.\<close>

lemma download_disj:
  assumes run: "download_artifact env lib sha request dest client w = (w', r)"
  shows "(\<exists>e. w' = w \<and> r = Inl e) \<or> (\<exists>n e. w' = w\<lparr>w_io := n\<rparr> \<and> r = Inl e) \<or>
    (\<exists>n source. resolve_artifact_download_with_policy lib (dl_location request) (dl_location_type request)
         (dl_access_token request) = Inr source \<and>
       (case source of
          SourceHttp url auth \<Rightarrow> download_http_file_with_backoff env lib sha client url (sha_expected (dl_sha256 request)) auth dest
        | SourceFile src \<Rightarrow> copy_local_file_to_cache env lib sha src (dl_location request) (sha_expected (dl_sha256 request)) dest)
         (w\<lparr>w_io := n\<rparr>) = (w', r))"
  (is "?stop \<or> ?fault \<or> ?go")
proof (rule disjCI)
  assume later: "\<not> (?fault \<or> ?go)"
  let ?res = "resolve_artifact_download_with_policy lib (dl_location request) (dl_location_type request) (dl_access_token request)"
  show ?stop
  proof (cases "path_file_name dest")
    case None
    then show ?thesis using run by (auto simp: download_artifact_def)
  next
    case (Some filename)
    note name = this
    show ?thesis
    proof (cases ?res)
      case (Inl m)
      then show ?thesis using run name by (auto simp: download_artifact_def split: if_splits option.splits)
    next
      case (Inr source)
      show ?thesis
      proof (cases "path_parent dest")
        case None
        then show ?thesis using run name Inr by (auto simp: download_artifact_def split: if_splits option.splits)
      next
        case (Some dir)
        show ?thesis
        proof (rule ccontr)
          let ?go = "case source of
              SourceHttp url auth \<Rightarrow> download_http_file_with_backoff env lib sha client url (sha_expected (dl_sha256 request)) auth dest
            | SourceFile src \<Rightarrow> copy_local_file_to_cache env lib sha src (dl_location request) (sha_expected (dl_sha256 request)) dest"
          assume "\<not> ?stop"
          then obtain err where "and_then (io_call env err) (\<lambda>_. ?go) w = (w', r)"
            using run name Inr Some unfolding download_artifact_def by (auto split: if_splits option.splits)
          then have "(\<exists>e. w' = w\<lparr>w_io := w_io w + 1\<rparr> \<and> r = Inl e) \<or> ?go (w\<lparr>w_io := w_io w + 1\<rparr>) = (w', r)"
            by (simp add: and_then_def io_call_def split: option.splits) metis
          then show False using later Inr by blast
        qed
      qed
    qed
  qed
qed

lemma download_cases:
  assumes "download_artifact env lib sha request dest client w = (w', r)"
  obtains (stopped) e where "w' = w" "r = Inl e"
  | (fault) n e where "w' = w\<lparr>w_io := n\<rparr>" "r = Inl e"
  | (http) n url auth where
      "resolve_artifact_download_with_policy lib (dl_location request) (dl_location_type request) (dl_access_token request) =
         Inr (SourceHttp url auth)"
      "download_http_file_with_backoff env lib sha client url (sha_expected (dl_sha256 request)) auth dest (w\<lparr>w_io := n\<rparr>) = (w', r)"
  | (copied) n src where
      "resolve_artifact_download_with_policy lib (dl_location request) (dl_location_type request) (dl_access_token request) =
         Inr (SourceFile src)"
      "copy_local_file_to_cache env lib sha src (dl_location request) (sha_expected (dl_sha256 request)) dest (w\<lparr>w_io := n\<rparr>) = (w', r)"
  using download_disj [OF assms]
proof (elim disjE exE conjE)
  fix n source
  assume "resolve_artifact_download_with_policy lib (dl_location request) (dl_location_type request) (dl_access_token request) = Inr source"
    and "(case source of
          SourceHttp url auth \<Rightarrow> download_http_file_with_backoff env lib sha client url (sha_expected (dl_sha256 request)) auth dest
        | SourceFile src \<Rightarrow> copy_local_file_to_cache env lib sha src (dl_location request) (sha_expected (dl_sha256 request)) dest)
         (w\<lparr>w_io := n\<rparr>) = (w', r)"
  then show thesis using http copied by (cases source) simp_all
next
  show thesis if "w' = w" "r = Inl e" for e using that by (rule stopped)
next
  show thesis if "w' = w\<lparr>w_io := n\<rparr>" "r = Inl e" for n e using that by (rule fault)
qed

lemma resolve_Inr:
  assumes "resolve_artifact_download_with_policy lib location location_type token = Inr source"
  shows "\<exists>kind. artifact_location_kind location_type = Inr kind \<and>
    validate_location_type_matches_source location_type kind source = Inr () \<and>
    ((\<exists>parsed. url_parse lib location = Some parsed \<and>
        source_of_url lib location kind (optional_access_token token) parsed = Inr source) \<or> source = SourceFile location)"
proof -
  obtain kind where kind: "artifact_location_kind location_type = Inr kind"
    using assms by (auto simp: resolve_artifact_download_with_policy_def Let_def bind_result_Inr_iff)
  show ?thesis
  proof (cases "url_parse lib location")
    case None
    then have "validate_location_type_matches_source location_type kind source = Inr () \<and> source = SourceFile location"
      using assms kind unfolding resolve_artifact_download_with_policy_def Let_def
      by (auto simp: bind_result_Inr_iff split: if_splits)
    then show ?thesis using kind by blast
  next
    case (Some parsed)
    then show ?thesis
      using assms kind unfolding resolve_artifact_download_with_policy_def Let_def by (auto simp: bind_result_Inr_iff)
  qed
qed

lemma source_of_url_Http:
  assumes "source_of_url lib location kind token parsed = Inr (SourceHttp url auth)"
  shows "url = location \<and> url_scheme lib parsed \<in> {''http'', ''https''} \<and> auth = http_auth_for_location kind token \<and>
    \<not> (url_scheme lib parsed = ''http'' \<and> kind = Artifactory \<and> token \<noteq> None)"
  using assms unfolding source_of_url_def Let_def by (simp split: if_splits option.splits)

lemma http_auth_key:
  assumes "http_auth_for_location kind (optional_access_token token) = ArtifactoryApiKey key"
  shows "kind = Artifactory \<and> token = Some key \<and> trim key \<noteq> [] \<and> optional_access_token token \<noteq> None"
  using assms by (cases kind; cases token) (auto simp: http_auth_for_location_def optional_access_token_def split: if_splits)

lemma resolve_http:
  assumes "resolve_artifact_download_with_policy lib location location_type token = Inr (SourceHttp url auth)"
  shows "url = location \<and> artifact_location_kind location_type \<noteq> Inr LocalFile \<and>
    (\<exists>parsed. url_parse lib location = Some parsed \<and> url_scheme lib parsed \<in> {''http'', ''https''} \<and>
       (\<forall>key. auth = ArtifactoryApiKey key \<longrightarrow> token = Some key \<and> trim key \<noteq> [] \<and>
          artifact_location_kind location_type = Inr Artifactory \<and> url_scheme lib parsed = ''https''))"
proof -
  obtain kind parsed where kind: "artifact_location_kind location_type = Inr kind"
      "validate_location_type_matches_source location_type kind (SourceHttp url auth) = Inr ()"
    and parsed: "url_parse lib location = Some parsed"
      "source_of_url lib location kind (optional_access_token token) parsed = Inr (SourceHttp url auth)"
    using resolve_Inr [OF assms] by blast
  note src = source_of_url_Http [OF parsed(2)]
  have "kind \<noteq> LocalFile" using kind(2) by auto
  then have kind': "artifact_location_kind location_type \<noteq> Inr LocalFile" by (simp add: kind(1))
  have "token = Some key \<and> trim key \<noteq> [] \<and> kind = Artifactory \<and> url_scheme lib parsed = ''https''"
    if "auth = ArtifactoryApiKey key" for key
    using http_auth_key [of kind token key] src that by blast
  then have "\<forall>key. auth = ArtifactoryApiKey key \<longrightarrow> token = Some key \<and> trim key \<noteq> [] \<and>
      artifact_location_kind location_type = Inr Artifactory \<and> url_scheme lib parsed = ''https''"
    using kind(1) by blast
  with kind' parsed(1) src show ?thesis by blast
qed

lemma resolve_file:
  assumes "resolve_artifact_download_with_policy lib location location_type token = Inr (SourceFile src)"
  shows "artifact_location_kind location_type = Inr LocalFile"
proof -
  obtain kind where "artifact_location_kind location_type = Inr kind"
      "validate_location_type_matches_source location_type kind (SourceFile src) = Inr ()"
    using resolve_Inr [OF assms] by blast
  then show ?thesis by (cases kind) auto
qed

lemma request_ok_confined:
  assumes "resolve_artifact_download_with_policy lib location location_type token = Inr (SourceHttp url auth)"
    and ok: "request_ok lib policy auth url rq"
  shows "\<not> isl (validate_artifact_http_url lib (rq_url rq) policy) \<and>
    (case rq_api_key rq of
       None \<Rightarrow> True
     | Some key \<Rightarrow> token = Some key \<and> artifact_location_kind location_type = Inr Artifactory \<and>
         url_scheme lib (rq_url rq) = ''https'' \<and>
         (\<exists>origin. url_parse lib location = Some origin \<and> url_same_origin lib (rq_url rq) origin))"
proof (cases auth)
  case AuthNone
  then show ?thesis using ok by (simp add: request_ok_def api_key_def)
next
  case (ArtifactoryApiKey key)
  have "url = location" "token = Some key" "artifact_location_kind location_type = Inr Artifactory"
    using resolve_http [OF assms(1)] ArtifactoryApiKey by blast+
  moreover obtain origin where "url_parse lib url = Some origin" "url_same_origin lib (rq_url rq) origin"
    using ok ArtifactoryApiKey by (auto simp: request_ok_def api_key_def split: option.splits)
  ultimately show ?thesis using ok ArtifactoryApiKey by (simp add: request_ok_def api_key_def)
qed

text \<open>A sample library whose URLs are their text up to a host, and a server that redirects once and then serves
  three bytes; the sample digest is the letter a, sixty-four times, for every content.\<close>

definition sample_url_lib :: "string url_lib" where
  "sample_url_lib = \<lparr>url_parse = (\<lambda>s. if strip_prefix ''https://'' s \<noteq> None then Some s else None),
     url_scheme = (\<lambda>_. ''https''), url_host_str = (\<lambda>_. Some ''host''), url_same_origin = (\<lambda>_ _. True),
     url_join = (\<lambda>_ s. Some s), url_to_file_path = (\<lambda>_. None), url_set_username = (\<lambda>_ u. u),
     url_set_password = (\<lambda>_ u. u), url_set_query = (\<lambda>_ u. u), url_set_fragment = (\<lambda>_ u. u), url_to_string = (\<lambda>u. u),
     host_parse = (\<lambda>_. None), without_url = (\<lambda>e. e), show_status = show_nat\<rparr>"

definition sample_env :: "string env" where
  "sample_env = \<lparr>env_server = (\<lambda>sent _. (1, Inr (if sent = []
        then \<lparr>rs_status = 302, rs_location = Some (Some ''https://host/b''), rs_content_length = None, rs_chunks = []\<rparr>
        else \<lparr>rs_status = 200, rs_location = None, rs_content_length = Some 3, rs_chunks = [Inr [1, 2], Inr [3]]\<rparr>))),
     env_fault = (\<lambda>_. None), env_temp_path = (\<lambda>_. ''t'')\<rparr>"

definition sample_sha :: "bytes \<Rightarrow> string" where
  "sample_sha bs = replicate 64 (CHR ''a'')"

definition sample_request :: ArtifactDownloadRequest where
  "sample_request = \<lparr>dl_location = ''https://host/a'', dl_location_type = ''jfrog'', dl_access_token = Some ''key'',
     dl_sha256 = sha256_optional (replicate 64 (CHR ''A''))\<rparr>"

definition sample_client :: ArtifactHttpClient where
  "sample_client = \<lparr>client_policy = policy_default, download_budget = 600, retry_backoff = 2\<rparr>"

definition sample_world :: "string world" where
  "sample_world = \<lparr>w_sent = [], w_now = 0, w_io = 0, w_files = [(''cache/a'', RegularFile [])]\<rparr>"

text \<open>C39. Where an artifact comes from is well formed: an HTTP source is the location itself, an http or https
  URL, of a location type that is not a local file; it carries a key only for an Artifactory type, only over
  https, and then exactly the given token, which is not blank; a file source has the local-file type.\<close>

theorem source_well_formed:
  assumes "resolve_artifact_download_with_policy lib location location_type token = Inr source"
  shows "case source of
      SourceHttp url auth \<Rightarrow> url = location \<and> artifact_location_kind location_type \<noteq> Inr LocalFile \<and>
        (\<exists>parsed. url_parse lib location = Some parsed \<and> url_scheme lib parsed \<in> {''http'', ''https''} \<and>
          (\<forall>key. auth = ArtifactoryApiKey key \<longrightarrow> token = Some key \<and> trim key \<noteq> [] \<and>
             artifact_location_kind location_type = Inr Artifactory \<and> url_scheme lib parsed = ''https''))
    | SourceFile src \<Rightarrow> artifact_location_kind location_type = Inr LocalFile"
proof (cases source)
  case (SourceHttp url auth)
  show ?thesis unfolding SourceHttp ArtifactDownloadSource.case by (rule resolve_http [OF assms [unfolded SourceHttp]])
next
  case (SourceFile src)
  show ?thesis unfolding SourceFile ArtifactDownloadSource.case by (rule resolve_file [OF assms [unfolded SourceFile]])
qed

theorem source_well_formed_witness:
  "resolve_artifact_download_with_policy sample_url_lib ''https://host/a'' ''jfrog'' (Some ''key'') =
     Inr (SourceHttp ''https://host/a'' (ArtifactoryApiKey ''key'')) \<and>
   artifact_location_kind ''jfrog'' \<noteq> Inr LocalFile"
proof -
  have "resolve_artifact_download_with_policy sample_url_lib ''https://host/a'' ''jfrog'' (Some ''key'') =
      Inr (SourceHttp ''https://host/a'' (ArtifactoryApiKey ''key''))" by code_simp
  with source_well_formed [OF this] show ?thesis by (simp only: ArtifactDownloadSource.case) blast
qed

text \<open>C7. Whatever the servers answer, every request a download sends passes the download policy, redirects
  included; a request carries a key only for an Artifactory location, only over https, only to the origin of
  that location, and then it is the given token; and one download sends at most 66 requests, which is three
  attempts of a HEAD and a GET with ten redirects each.\<close>

theorem requests_confined:
  "\<exists>new. w_sent (fst (download_artifact env lib sha request dest client w)) = w_sent w @ new \<and> length new \<le> 66 \<and>
     list_all (\<lambda>rq. \<not> isl (validate_artifact_http_url lib (rq_url rq) (client_policy client)) \<and>
       (case rq_api_key rq of
          None \<Rightarrow> True
        | Some key \<Rightarrow> dl_access_token request = Some key \<and>
            artifact_location_kind (dl_location_type request) = Inr Artifactory \<and>
            url_scheme lib (rq_url rq) = ''https'' \<and>
            (\<exists>origin. url_parse lib (dl_location request) = Some origin \<and> url_same_origin lib (rq_url rq) origin))) new"
  (is "\<exists>new. ?sent new")
proof -
  obtain w' r where run: "download_artifact env lib sha request dest client w = (w', r)"
    by (cases "download_artifact env lib sha request dest client w")
  have silent: "?sent []" if "w_sent w' = w_sent w" using run that by simp
  show ?thesis using run
  proof (cases rule: download_cases)
    case (http n url auth)
    let ?w = "w\<lparr>w_io := n\<rparr>"
    have "sent_ord lib (client_policy client) auth url ?w w'"
      using sent.keeps_attempts [OF refl, of lib client auth url ?w] http(2)
      unfolding download_http_file_with_backoff_def by (metis fst_conv)
    then obtain new where new: "w_sent w' = w_sent w @ new" "list_all (request_ok lib (client_policy client) auth url) new"
      by (auto simp: sent_ord_def)
    have "length (w_sent w') \<le> length (w_sent w) + 66"
      using sends_attempts [of env lib sha client url "sha_expected (dl_sha256 request)" auth dest
          "w_now ?w + download_budget client" 1 None ?w] http(2)
      by (simp add: download_http_file_with_backoff_def ARTIFACT_DOWNLOAD_ATTEMPTS_def)
    then have len: "length new \<le> 66" using new(1) by simp
    have "?sent new" unfolding run fst_conv
      by (intro conjI new(1) len list.pred_mono_strong [OF new(2)] request_ok_confined [OF http(1)])
    then show ?thesis ..
  next
    case (copied n src)
    have "silent (w\<lparr>w_io := n\<rparr>) w'" by (rule quiet.keepsD [OF quiet.keeps_local copied(2)])
    then show ?thesis using silent by (auto simp: silent_def)
  qed (use silent in auto)
qed

text \<open>C6. A download that reports success leaves a non-empty file at its destination, and that file has the
  expected digest whenever one was given, whether it was fetched, copied or already there.  A download that
  reports failure leaves the destination as it was or absent, never a new or partial file.  In both cases no
  other file changes.\<close>

theorem download_integrity:
  assumes "download_artifact env lib sha request dest client w = (w', r)"
  shows "(r = Inr () \<longrightarrow> (\<exists>bs. file_at w' dest = Some (RegularFile bs) \<and> bs \<noteq> [] \<and>
      (\<forall>d. sha_expected (dl_sha256 request) = Some d \<longrightarrow> sha256_matches d (sha bs)))) \<and>
    (isl r \<longrightarrow> file_at w' dest = file_at w dest \<or> file_at w' dest = None) \<and>
    (\<forall>p. p \<noteq> dest \<longrightarrow> file_at w' p = file_at w p)"
proof -
  have "(r = Inr () \<longrightarrow> verified sha (sha_expected (dl_sha256 request)) (file_at w' dest)) \<and>
      (isl r \<longrightarrow> cache_ord dest w w') \<and> others_ord dest w w'"
    using assms
  proof (cases rule: download_cases)
    case (http n url auth)
    let ?w = "w\<lparr>w_io := n\<rparr>"
    have "others_ord dest ?w w'"
      using others.keeps_attempts [OF refl, where w = ?w] http(2) unfolding download_http_file_with_backoff_def
      by (metis fst_conv)
    moreover have "cache_ord dest ?w w'" if "isl r"
      using that http(2) unfolding download_http_file_with_backoff_def
      by (cases r) (auto intro: cached.failing_attempts [OF refl])
    moreover have "verified sha (sha_expected (dl_sha256 request)) (file_at w' dest)" if "r = Inr ()"
      using that http(2) unfolding download_http_file_with_backoff_def by (auto intro: attempts_Inr)
    ultimately show ?thesis by (simp add: cache_ord_def others_ord_def)
  next
    case (copied n src)
    let ?w = "w\<lparr>w_io := n\<rparr>"
    have "others_ord dest ?w w'" by (rule others.keepsD [OF others.keeps_local copied(2)])
    moreover have "cache_ord dest ?w w'" if "isl r"
    proof -
      obtain e where "r = Inl e" using \<open>isl r\<close> by (cases r) auto
      with copied(2) cached.failing_local show ?thesis unfolding keeps_failing_def by blast
    qed
    moreover have "verified sha (sha_expected (dl_sha256 request)) (file_at w' dest)" if "r = Inr ()"
      using that copied(2) by (auto intro: local_Inr)
    ultimately show ?thesis by (simp add: cache_ord_def others_ord_def)
  qed (auto simp: cache_ord_def others_ord_def)
  then show ?thesis
    by (auto simp: verified_def cache_ord_def others_ord_def split: option.splits FileEntry.splits)
qed

theorem download_integrity_witness:
  "\<exists>w' bs. download_artifact sample_env sample_url_lib sample_sha sample_request ''cache/a'' sample_client sample_world =
       (w', Inr ()) \<and> file_at w' ''cache/a'' = Some (RegularFile bs) \<and> bs \<noteq> []"
proof -
  let ?run = "download_artifact sample_env sample_url_lib sample_sha sample_request ''cache/a'' sample_client sample_world"
  have "snd ?run = Inr ()" by code_simp
  then have run: "?run = (fst ?run, Inr ())" by (metis prod.collapse)
  from download_integrity [OF run] run show ?thesis by blast
qed

end
