(* ===== verification/Span_Queue.thy ===== *)
theory Span_Queue
  imports Prelude
begin

text \<open>
  The bounded queue of trace spans (\<open>observability/span_queue.rs\<close>) with its delivery counters
  (\<open>observability/trace_metrics.rs\<close>).  Every operation runs under the queue's mutex, so the threads that push,
  export, flush and shut down are an arbitrary sequence of operations.  The mutex is a poison flag: an
  operation that finds it set discards what is left and counts it as dropped.  A wake-up is the permit that
  \<open>Notify::notify_one\<close> leaves behind.  Log lines are left out; the diagnostic that selects them is kept.
\<close>

section \<open>Counters\<close>

datatype drop_reason = EXPORT_ERROR | EXPORT_TIMEOUT | PROCESSOR_CLOSED | QUEUE_FULL | SHUTDOWN_TIMEOUT

record TraceMetrics =
  dropped_spans :: "drop_reason \<Rightarrow> nat"
  rejected_spans :: "string \<Rightarrow> nat"
  failed_batches :: "string \<Rightarrow> nat"

definition metrics_new :: TraceMetrics where
  "metrics_new = \<lparr>dropped_spans = (\<lambda>_. 0), rejected_spans = (\<lambda>_. 0), failed_batches = (\<lambda>_. 0)\<rparr>"

definition drop_spans :: "drop_reason \<Rightarrow> nat \<Rightarrow> TraceMetrics \<Rightarrow> TraceMetrics" where
  "drop_spans reason n m =
     (if 0 < n then m\<lparr>dropped_spans := (dropped_spans m)(reason := dropped_spans m reason + n)\<rparr> else m)"

definition reject_spans :: "string \<Rightarrow> nat \<Rightarrow> TraceMetrics \<Rightarrow> TraceMetrics" where
  "reject_spans protocol n m =
     (if 0 < n then m\<lparr>rejected_spans := (rejected_spans m)(protocol := rejected_spans m protocol + n)\<rparr> else m)"

definition fail_batch :: "string \<Rightarrow> TraceMetrics \<Rightarrow> TraceMetrics" where
  "fail_batch protocol m = m\<lparr>failed_batches := (failed_batches m)(protocol := failed_batches m protocol + 1)\<rparr>"

definition total_dropped :: "TraceMetrics \<Rightarrow> nat" where
  "total_dropped m =
     sum_list (map (dropped_spans m) [EXPORT_ERROR, EXPORT_TIMEOUT, PROCESSOR_CLOSED, QUEUE_FULL, SHUTDOWN_TIMEOUT])"

definition total_rejected :: "TraceMetrics \<Rightarrow> nat" where
  "total_rejected m = sum_list (map (rejected_spans m) [''grpc'', ''http_protobuf''])"


section \<open>The queue\<close>

datatype ExportDiagnostic = Failing nat | Recovered

record 'sp SpanQueue =
  pending :: "'sp list"
  in_flight :: nat
  accepting :: bool
  stopped :: bool
  export_failure_active :: bool
  q_poisoned :: bool
  available_permit :: bool
  stopped_permit :: bool
  capacity :: nat
  batch_size :: nat
  metrics :: TraceMetrics
  protocol :: string

definition queue_new :: "nat \<Rightarrow> nat \<Rightarrow> TraceMetrics \<Rightarrow> string \<Rightarrow> 'sp SpanQueue" where
  "queue_new cap batch m proto =
     \<lparr>pending = [], in_flight = 0, accepting = True, stopped = False, export_failure_active = False,
      q_poisoned = False, available_permit = False, stopped_permit = False, capacity = cap, batch_size = batch,
      metrics = m, protocol = proto\<rparr>"

definition usize_max :: nat where "usize_max = 2 ^ 64 - 1"

definition saturating_add :: "nat \<Rightarrow> nat \<Rightarrow> nat" where
  "saturating_add a b = (if usize_max < a + b then usize_max else a + b)"

text \<open>The state under the lock, or \<open>None\<close> after discarding a poisoned one.\<close>

definition lock_state :: "'sp SpanQueue \<Rightarrow> 'sp SpanQueue \<times> bool" where
  "lock_state q =
     (if \<not> q_poisoned q then (q, True)
      else
        (let n = length (pending q);
             k = in_flight q;
             m = drop_spans PROCESSOR_CLOSED (saturating_add n k) (metrics q);
             m = (if 0 < k then fail_batch (protocol q) m else m)
         in (q\<lparr>accepting := False, stopped := True, pending := [], in_flight := 0, q_poisoned := False,
               metrics := m, stopped_permit := True\<rparr>, False)))"

definition push :: "'sp \<Rightarrow> 'sp SpanQueue \<Rightarrow> 'sp SpanQueue" where
  "push span q =
     (case lock_state q of
        (q, False) \<Rightarrow> q\<lparr>metrics := drop_spans PROCESSOR_CLOSED 1 (metrics q)\<rparr>
      | (q, True) \<Rightarrow>
          if \<not> accepting q then q\<lparr>metrics := drop_spans PROCESSOR_CLOSED 1 (metrics q)\<rparr>
          else if length (pending q) = capacity q then q\<lparr>metrics := drop_spans QUEUE_FULL 1 (metrics q)\<rparr>
          else
            (let q = q\<lparr>pending := pending q @ [span]\<rparr>
             in if length (pending q) = batch_size q then q\<lparr>available_permit := True\<rparr> else q))"

definition queue_len :: "'sp SpanQueue \<Rightarrow> 'sp SpanQueue \<times> nat" where
  "queue_len q = (case lock_state q of (q, ok) \<Rightarrow> (q, if ok then length (pending q) else 0))"

definition is_accepting :: "'sp SpanQueue \<Rightarrow> 'sp SpanQueue \<times> bool" where
  "is_accepting q = (case lock_state q of (q, ok) \<Rightarrow> (q, ok \<and> accepting q))"

definition is_stopped :: "'sp SpanQueue \<Rightarrow> 'sp SpanQueue \<times> bool" where
  "is_stopped q = (case lock_state q of (q, ok) \<Rightarrow> (q, \<not> ok \<or> stopped q))"

definition close_admission :: "'sp SpanQueue \<Rightarrow> 'sp SpanQueue \<times> bool" where
  "close_admission q =
     (case lock_state q of (q, False) \<Rightarrow> (q, False) | (q, True) \<Rightarrow> (q\<lparr>accepting := False\<rparr>, accepting q))"

definition take_batch :: "nat \<Rightarrow> 'sp SpanQueue \<Rightarrow> 'sp SpanQueue \<times> 'sp list" where
  "take_batch max_count q =
     (case lock_state q of
        (q, False) \<Rightarrow> (q, [])
      | (q, True) \<Rightarrow>
          (let n = min (length (pending q)) max_count
           in (q\<lparr>in_flight := n, pending := drop n (pending q)\<rparr>, take n (pending q))))"

definition finish_batch_locked ::
  "drop_reason option \<Rightarrow> 'sp SpanQueue \<Rightarrow> 'sp SpanQueue \<times> ExportDiagnostic option" where
  "finish_batch_locked failure q =
     (let span_count = in_flight q; q = q\<lparr>in_flight := 0\<rparr>
      in if span_count = 0 then (q, None)
         else
           (let was_failing = export_failure_active q; q = q\<lparr>export_failure_active := failure \<noteq> None\<rparr>
            in (case failure of
                  Some reason \<Rightarrow>
                    (q\<lparr>metrics := fail_batch (protocol q) (drop_spans reason span_count (metrics q))\<rparr>,
                     if \<not> was_failing then Some (Failing span_count) else None)
                | None \<Rightarrow> (q, if was_failing then Some Recovered else None))))"

definition finish_batch :: "drop_reason option \<Rightarrow> 'sp SpanQueue \<Rightarrow> 'sp SpanQueue \<times> ExportDiagnostic option" where
  "finish_batch failure q =
     (case lock_state q of (q, False) \<Rightarrow> (q, None) | (q, True) \<Rightarrow> finish_batch_locked failure q)"

definition stop :: "drop_reason \<Rightarrow> 'sp SpanQueue \<Rightarrow> 'sp SpanQueue \<times> ExportDiagnostic option" where
  "stop reason q =
     (case lock_state q of
        (q, False) \<Rightarrow> (q, None)
      | (q, True) \<Rightarrow>
          (let q = q\<lparr>accepting := False\<rparr>
           in if stopped q then (q, None)
              else
                (case finish_batch_locked (Some reason) (q\<lparr>stopped := True\<rparr>) of
                   (q, diagnostic) \<Rightarrow>
                     (q\<lparr>metrics := drop_spans reason (length (pending q)) (metrics q), pending := [],
                        stopped_permit := True\<rparr>, diagnostic))))"


section \<open>Histories\<close>

text \<open>
  A history counts, beside the queue, the spans pushed and the spans of batches that ended without failure.
  The single worker takes a batch only when it has ended the previous one; everything else may happen at any
  time, poisoning included.  A poisoning panic is taken to happen between updates: inside one, the accounting
  is best effort, as the source says.  A capacity is below 2 to the 63, the largest a vector can have.
\<close>

inductive queue_init :: "'sp SpanQueue \<times> nat \<times> nat \<Rightarrow> bool" where
  "cap < 2 ^ 63 \<Longrightarrow> queue_init (queue_new cap batch metrics_new proto, 0, 0)"

inductive queue_step :: "'sp SpanQueue \<times> nat \<times> nat \<Rightarrow> 'sp SpanQueue \<times> nat \<times> nat \<Rightarrow> bool" where
  push: "queue_step (q, p, d) (push span q, Suc p, d)"
| take: "in_flight q = 0 \<Longrightarrow> queue_step (q, p, d) (fst (take_batch n q), p, d)"
| finish: "queue_step (q, p, d) (fst (finish_batch failure q), p,
     d + (if failure = None \<and> \<not> q_poisoned q then in_flight q else 0))"
| stop: "queue_step (q, p, d) (fst (stop reason q), p, d)"
| close: "queue_step (q, p, d) (fst (close_admission q), p, d)"
| look: "queue_step (q, p, d) (fst (lock_state q), p, d)"
| poison: "queue_step (q, p, d) (q\<lparr>q_poisoned := True\<rparr>, p, d)"

definition queue_inv :: "'sp SpanQueue \<times> nat \<times> nat \<Rightarrow> bool" where
  "queue_inv s = (case s of (q, p, d) \<Rightarrow>
     p = d + total_dropped (metrics q) + length (pending q) + in_flight q \<and>
     length (pending q) \<le> capacity q \<and> in_flight q \<le> capacity q \<and> capacity q < 2 ^ 63 \<and>
     (stopped q \<longrightarrow> \<not> accepting q \<and> pending q = [] \<and> in_flight q = 0))"

lemma total_dropped_drop [simp]: "total_dropped (drop_spans reason n m) = total_dropped m + n"
  by (cases reason) (simp_all add: total_dropped_def drop_spans_def)

lemma total_dropped_fail [simp]: "total_dropped (fail_batch proto m) = total_dropped m"
  by (simp add: total_dropped_def fail_batch_def)

lemma saturating_add_small: "a < 2 ^ 63 \<Longrightarrow> b < 2 ^ 63 \<Longrightarrow> saturating_add a b = a + b"
  by (simp add: saturating_add_def usize_max_def)

lemma lock_inv:
  assumes "queue_inv (q, p, d)"
  shows "queue_inv (fst (lock_state q), p, d)"
proof (cases "q_poisoned q")
  case True
  have "length (pending q) < 2 ^ 63" "in_flight q < 2 ^ 63" using assms by (auto simp: queue_inv_def)
  then have "saturating_add (length (pending q)) (in_flight q) = length (pending q) + in_flight q"
    by (rule saturating_add_small)
  then show ?thesis using assms True by (auto simp: queue_inv_def lock_state_def Let_def)
next
  case False
  then show ?thesis using assms by (simp add: lock_state_def)
qed

lemma lock_cases:
  assumes "queue_inv (q, p, d)"
  obtains "lock_state q = (q, True)" "\<not> q_poisoned q"
  | q' where "lock_state q = (q', False)" "queue_inv (q', p, d)" "stopped q'" "q_poisoned q"
  using lock_inv [OF assms] by (cases "q_poisoned q") (auto simp: lock_state_def Let_def)

lemma drop_inv:
  "queue_inv (q, p, d) \<Longrightarrow> queue_inv (q\<lparr>metrics := drop_spans reason 1 (metrics q)\<rparr>, Suc p, d)"
  by (simp add: queue_inv_def)

lemma push_inv:
  assumes "queue_inv (q, p, d)"
  shows "queue_inv (push span q, Suc p, d)"
  using assms
proof (cases rule: lock_cases)
  case 1
  then show ?thesis using assms drop_inv [OF assms]
    by (auto simp: push_def Let_def queue_inv_def)
next
  case (2 q')
  then show ?thesis using drop_inv [OF 2(2)] by (simp add: push_def)
qed

lemma take_inv:
  assumes "queue_inv (q, p, d)" and "in_flight q = 0"
  shows "queue_inv (fst (take_batch n q), p, d)"
  using assms(1)
proof (cases rule: lock_cases)
  case 1
  then show ?thesis using assms by (auto simp: take_batch_def Let_def queue_inv_def)
next
  case (2 q')
  then show ?thesis by (simp add: take_batch_def)
qed

lemma finish_locked_inv:
  assumes "queue_inv (q, p, d)"
  shows "queue_inv (fst (finish_batch_locked failure q), p, d + (if failure = None then in_flight q else 0))"
  using assms by (cases failure) (auto simp: finish_batch_locked_def Let_def queue_inv_def)

lemma finish_inv:
  assumes "queue_inv (q, p, d)"
  shows "queue_inv (fst (finish_batch failure q), p, d + (if failure = None \<and> \<not> q_poisoned q then in_flight q else 0))"
  using assms
proof (cases rule: lock_cases)
  case 1
  then show ?thesis using finish_locked_inv [OF assms, of failure] by (simp add: finish_batch_def)
next
  case (2 q')
  then show ?thesis by (simp add: finish_batch_def)
qed

lemma stop_inv:
  assumes "queue_inv (q, p, d)"
  shows "queue_inv (fst (stop reason q), p, d) \<and> stopped (fst (stop reason q))"
  using assms
proof (cases rule: lock_cases)
  case 1
  then show ?thesis using assms
    by (auto simp: stop_def Let_def finish_batch_locked_def queue_inv_def)
next
  case (2 q')
  then show ?thesis by (simp add: stop_def)
qed

lemma close_inv:
  assumes "queue_inv (q, p, d)"
  shows "queue_inv (fst (close_admission q), p, d)"
  using assms
proof (cases rule: lock_cases)
  case 1
  then show ?thesis using assms by (auto simp: close_admission_def queue_inv_def)
next
  case (2 q')
  then show ?thesis by (simp add: close_admission_def)
qed

interpretation spans: safe_system queue_init queue_step queue_inv
proof
  show "queue_inv s" if "queue_init s" for s :: "'a SpanQueue \<times> nat \<times> nat"
    using that by cases (simp add: queue_inv_def queue_new_def metrics_new_def total_dropped_def)
  show "queue_inv t" if "queue_inv s" "queue_step s t" for s t :: "'a SpanQueue \<times> nat \<times> nat"
    using that(2,1)
  proof cases
    case (finish q p d failure)
    then show ?thesis using finish_inv [of q p d failure] that(1) by simp
  next
    case (poison q p d)
    then show ?thesis using that(1) by (simp add: queue_inv_def)
  next
    case (stop q p d reason)
    then show ?thesis using stop_inv [of q p d reason] that(1) by simp
  qed (use that(1) push_inv take_inv close_inv lock_inv in auto)
qed


section \<open>No span escapes the accounting\<close>

text \<open>C9. In every history of the span queue each pushed span is accounted for exactly once: the spans pushed are
  the spans delivered, the spans counted as dropped, the spans waiting and the spans in flight.  The queue
  never holds more than its capacity, and stopping it, for whatever reason, leaves nothing waiting or in
  flight and admits nothing, so that the counters alone then account for every span.\<close>

theorem span_conservation:
  assumes "reach queue_init queue_step (q, pushed, delivered)"
  shows "pushed = delivered + total_dropped (metrics q) + length (pending q) + in_flight q \<and>
    length (pending q) \<le> capacity q \<and>
    pushed = delivered + total_dropped (metrics (fst (stop reason q))) \<and>
    stopped (fst (stop reason q)) \<and> \<not> accepting (fst (stop reason q))"
  using spans.reach_inv [OF assms] stop_inv [OF spans.reach_inv [OF assms], of reason]
  by (auto simp: queue_inv_def)

text \<open>Three pushes into a queue of two: one is dropped, two are taken and delivered.\<close>

definition span_q :: "nat SpanQueue" where
  "span_q = fst (take_batch 2 (push 3 (push 2 (push 1 (queue_new 2 2 metrics_new ''grpc'')))))"

lemma reach_span_q: "reach queue_init queue_step (span_q, 3, 0)"
proof -
  let ?q0 = "queue_new 2 2 metrics_new ''grpc'' :: nat SpanQueue"
  have "reach queue_init queue_step (?q0, 0, 0)" by (rule reach.reach_init) (simp add: queue_init.intros)
  then have "reach queue_init queue_step (push 1 ?q0, Suc 0, 0)" by (rule reach.reach_step) (rule queue_step.push)
  then have "reach queue_init queue_step (push 2 (push 1 ?q0), Suc (Suc 0), 0)"
    by (rule reach.reach_step) (rule queue_step.push)
  then have "reach queue_init queue_step (push 3 (push 2 (push 1 ?q0)), Suc (Suc (Suc 0)), 0)"
    by (rule reach.reach_step) (rule queue_step.push)
  moreover have "in_flight (push 3 (push 2 (push 1 ?q0))) = 0" by code_simp
  then have "queue_step (push 3 (push 2 (push 1 ?q0)), Suc (Suc (Suc 0)), 0) (span_q, Suc (Suc (Suc 0)), 0)"
    unfolding span_q_def by (rule queue_step.take)
  ultimately have "reach queue_init queue_step (span_q, Suc (Suc (Suc 0)), 0)" by (rule reach.reach_step)
  then show ?thesis by (simp add: numeral_3_eq_3)
qed

theorem span_conservation_witness:
  "in_flight span_q = 2 \<and> total_dropped (metrics span_q) = 1 \<and>
   total_dropped (metrics (fst (stop SHUTDOWN_TIMEOUT span_q))) = 3"
proof -
  have "in_flight span_q = 2" "total_dropped (metrics span_q) = 1" by code_simp+
  with span_conservation [OF reach_span_q, of SHUTDOWN_TIMEOUT] show ?thesis by simp
qed

end
