(* ===== verification/Managed_Config.thy ===== *)
theory Managed_Config
  imports Rms_Error "HOL-Library.Product_Lexorder" "HOL-Library.Multiset"
begin

text \<open>
  Managed configuration of a fabric controller (\<open>libnmxc/managed_config.rs\<close>, with the file
  name policy of \<open>utilities/filename.rs\<close>): the service owns some keys of some configuration
  files of a controller.  It reads the complete files, interprets their directives, removes the
  records of keys that must be absent by writing the file back, sets the values of the others
  one by one, and trusts only what it reads back.  The controller is a parameter: its three
  calls are functions on a state of any type, with no assumption on what they do.  Whitespace
  is that of ASCII, as in the rest of the development.
\<close>

section \<open>File names, keys and values\<close>

datatype BasenameError = Empty | UnsupportedCharacters | Hidden

definition is_ascii_alphanumeric :: "char \<Rightarrow> bool" where
  "is_ascii_alphanumeric c \<longleftrightarrow>
    (let b = (of_char c :: nat) in 48 \<le> b \<and> b \<le> 57 \<or> 65 \<le> b \<and> b \<le> 90 \<or> 97 \<le> b \<and> b \<le> 122)"

definition is_ascii_digit :: "char \<Rightarrow> bool" where
  "is_ascii_digit c \<longleftrightarrow> (let b = (of_char c :: nat) in 48 \<le> b \<and> b \<le> 57)"

definition basename_byte :: "char \<Rightarrow> bool" where
  "basename_byte c \<longleftrightarrow> is_ascii_alphanumeric c \<or> c \<in> set ''_.-''"

definition validate_non_hidden_basename :: "string \<Rightarrow> BasenameError + unit" where
  "validate_non_hidden_basename name =
    (if name = [] then Inl Empty
     else if \<not> list_all basename_byte name then Inl UnsupportedCharacters
     else if hd name = CHR ''.'' then Inl Hidden
     else Inr ())"

definition validate_static_config_name :: "string \<Rightarrow> string \<Rightarrow> string + unit" where
  "validate_static_config_name file key =
    (case validate_non_hidden_basename file of
      Inl e \<Rightarrow> Inl ''config_file_name: managed static configuration requires a file basename''
    | Inr _ \<Rightarrow>
       if key = [] \<or> \<not> list_all (\<lambda>c. is_ascii_alphanumeric c \<or> c = CHR ''_'') key \<or> is_ascii_digit (hd key)
       then Inl ''key: managed static configuration requires an identifier key''
       else Inr ())"

text \<open>\<open>char::is_control\<close>: the ASCII controls, and U+0080 to U+009F, which UTF-8 writes as the
  byte C2 and a continuation byte.\<close>

fun has_control :: "string \<Rightarrow> bool" where
  "has_control [] \<longleftrightarrow> False"
| "has_control (c # cs) \<longleftrightarrow>
     (of_char c :: nat) < 32 \<or> (of_char c :: nat) = 127
     \<or> (of_char c :: nat) = 194 \<and> cs \<noteq> [] \<and> 128 \<le> (of_char (hd cs) :: nat) \<and> (of_char (hd cs) :: nat) \<le> 159
     \<or> has_control cs"

text \<open>The characters backslash, quote, double quote, hash and semicolon.\<close>

definition unquoted_reserved :: "char \<Rightarrow> bool" where
  "unquoted_reserved c \<longleftrightarrow> c \<in> set [CHR 0x5C, CHR 0x27, CHR 0x22, CHR ''#'', CHR '';'']"

definition validate_static_config_value :: "string \<Rightarrow> string + unit" where
  "validate_static_config_value value =
    (if value = [] \<or> trim value \<noteq> value \<or> has_control value \<or> list_ex unquoted_reserved value
     then Inl ''managed static configuration values must be nonempty unquoted literal lines without surrounding whitespace, escaping, comments, or control characters''
     else Inr ())"

text \<open>Desired values, or required absence, by file and key.\<close>

type_synonym config_key = "string \<times> string"
type_synonym config_entries = "(config_key, string option) hmap"

definition managed_try_from :: "config_entries \<Rightarrow> string + config_entries" where
  "managed_try_from entries =
    fold_result (\<lambda>((file, key), value) acc.
      case validate_static_config_name file key of
        Inl _ \<Rightarrow> Inl ''managed configuration requires a file basename and an identifier key''
      | Inr _ \<Rightarrow>
          (case value of
            None \<Rightarrow> Inr acc
          | Some v \<Rightarrow>
              (case validate_static_config_value v of
                Inl _ \<Rightarrow> Inl ''managed configuration requires nonempty unquoted literal values''
              | Inr _ \<Rightarrow> Inr acc))) entries entries"


section \<open>Directives\<close>

text \<open>\<open>str::split_inclusive\<close> at line feeds, and \<open>str::lines\<close>, which drops the terminator
  and a carriage return before it.\<close>

definition LF :: char where "LF = CHR 0x0A"
definition CR :: char where "CR = CHR 0x0D"

fun split_inclusive :: "string \<Rightarrow> string list" where
  "split_inclusive [] = []"
| "split_inclusive (c # cs) =
     (if c = LF then [c] # split_inclusive cs
      else case split_inclusive cs of [] \<Rightarrow> [[c]] | l # ls \<Rightarrow> (c # l) # ls)"

definition line_text :: "string \<Rightarrow> string" where
  "line_text l =
    (if l \<noteq> [] \<and> last l = LF
     then let b = butlast l in if b \<noteq> [] \<and> last b = CR then butlast b else b
     else l)"

definition str_lines :: "string \<Rightarrow> string list" where
  "str_lines s = map line_text (split_inclusive s)"

record ManagedDirective =
  range_start :: nat
  range_end :: nat
  md_key :: string
  md_value :: string

definition is_separator :: "char \<Rightarrow> bool" where
  "is_separator c \<longleftrightarrow> c = CHR ''='' \<or> is_whitespace c"

definition is_quote :: "char \<Rightarrow> bool" where
  "is_quote c \<longleftrightarrow> c = CHR 0x27 \<or> c = CHR 0x22"

definition unquote :: "string \<Rightarrow> string option" where
  "unquote value =
    (case value of
      [] \<Rightarrow> Some []
    | q # rest \<Rightarrow>
        if is_quote q then (if rest \<noteq> [] \<and> last rest = q then Some (butlast rest) else None)
        else Some value)"

text \<open>The interpretation of a trimmed line that is neither empty nor a comment: its key and
  its raw value, then the value of an owned key as a literal.\<close>

definition split_directive :: "string \<Rightarrow> string + (string \<times> string)" where
  "split_directive line =
    (if length (takeWhile (\<lambda>c. c = CHR 0x5C) (rev line)) mod 2 \<noteq> 0
     then Inl ''managed configuration contains an unsupported continuation''
     else if list_all (\<lambda>c. \<not> is_separator c) line
     then Inl ''managed configuration contains an ambiguous directive''
     else
       let key = trim (takeWhile (\<lambda>c. \<not> is_separator c) line);
           rest = trim_start_matches is_whitespace (dropWhile (\<lambda>c. \<not> is_separator c) line);
           value = (if rest \<noteq> [] \<and> hd rest = CHR ''='' then List.tl rest else rest)
       in if key = [] \<or> \<not> list_all basename_byte key
          then Inl ''managed configuration contains an unsupported key''
          else Inr (key, trim value))"

definition owned_value :: "string \<Rightarrow> string + string" where
  "owned_value value =
    (case unquote value of
      None \<Rightarrow> Inl ''managed configuration contains an ambiguous quoted value''
    | Some v \<Rightarrow>
        if list_ex unquoted_reserved v \<or> has_control v
        then Inl ''managed configuration contains an unsupported owned value''
        else Inr v)"

definition is_record_line :: "string \<Rightarrow> bool" where
  "is_record_line physical_line \<longleftrightarrow>
    (let line = trim physical_line in line \<noteq> [] \<and> hd line \<noteq> CHR ''#'' \<and> hd line \<noteq> CHR '';'')"

text \<open>One turn of the loop: the offset of the line, the keys seen and the directives so far.\<close>

type_synonym directive_scan = "nat \<times> string list \<times> ManagedDirective list"

definition directive_step ::
  "string \<Rightarrow> config_entries \<Rightarrow> string \<Rightarrow> directive_scan \<Rightarrow> string + directive_scan"
where
  "directive_step file desired physical_line = (\<lambda>(offset, seen, directives).
    let stop = offset + length physical_line in
    if \<not> is_record_line physical_line then Inr (stop, seen, directives)
    else bind_result (split_directive (trim physical_line)) (\<lambda>(key, value).
      if key \<in> set seen
      then Inl ''controller returned an ambiguous managed configuration entry''
      else bind_result
        (if hm_get desired (file, key) \<noteq> None then owned_value value else Inr value)
        (\<lambda>v. Inr (stop, key # seen,
          directives @ [\<lparr> range_start = offset, range_end = stop, md_key = key, md_value = v \<rparr>]))))"

definition managed_directives ::
  "string \<Rightarrow> string \<Rightarrow> config_entries \<Rightarrow> string + ManagedDirective list"
where
  "managed_directives file content desired =
    bind_result (fold_result (directive_step file desired) (split_inclusive content) (0, [], []))
      (\<lambda>(_, _, directives). Inr directives)"


section \<open>Reading\<close>

text \<open>The response holds the files under two optional messages.\<close>

type_synonym config_response = "(string \<times> string) list option option"

record ManagedConfigSnapshot =
  snap_files :: "(string, string) hmap"
  snap_values :: config_entries

definition required_files :: "config_entries \<Rightarrow> string list" where
  "required_files desired = sort_dedup (map (fst \<circ> fst) desired)"

definition note_directive ::
  "string \<Rightarrow> config_entries \<Rightarrow> ManagedDirective \<Rightarrow> config_entries \<Rightarrow> config_entries"
where
  "note_directive name desired entry vals =
    (if hm_get desired (name, md_key entry) \<noteq> None
     then bt_put (name, md_key entry) (Some (md_value entry)) vals
     else vals)"

definition complete_file ::
  "config_entries \<Rightarrow> string \<times> string \<Rightarrow> ManagedConfigSnapshot \<Rightarrow> string + ManagedConfigSnapshot"
where
  "complete_file desired = (\<lambda>(name, content) current.
    if name \<notin> set (required_files desired) then Inr current
    else bind_result (managed_directives name content desired) (\<lambda>directives.
      Inr \<lparr> snap_files = bt_put name content (snap_files current),
             snap_values = fold (note_directive name desired) directives (snap_values current) \<rparr>))"

definition complete_config :: "config_response \<Rightarrow> config_entries \<Rightarrow> string + ManagedConfigSnapshot" where
  "complete_config response desired =
    (case response of
      Some (Some files) \<Rightarrow>
        if \<not> distinct (map fst files)
        then Inl ''controller returned duplicate configuration files''
        else if \<not> set (required_files desired) \<subseteq> set (map fst files)
        then Inl ''controller omitted a requested configuration file''
        else fold_result (complete_file desired) files
          \<lparr> snap_files = [], snap_values = map (\<lambda>(k, _). (k, None)) desired \<rparr>
    | _ \<Rightarrow> Inl ''controller did not return complete requested configuration files'')"

text \<open>The controller's calls.  The two writes return whether they were acknowledged.\<close>

record 'd Nmxc =
  get_static_config_files :: "string list \<Rightarrow> string \<Rightarrow> 'd \<Rightarrow> (string + config_response) \<times> 'd"
  set_static_config :: "string \<Rightarrow> string \<Rightarrow> string \<Rightarrow> string \<Rightarrow> 'd \<Rightarrow> bool \<times> 'd"
  set_static_config_file :: "string \<Rightarrow> string \<Rightarrow> string \<Rightarrow> 'd \<Rightarrow> bool \<times> 'd"

type_synonym ('d, 'a) device_io = "'d \<Rightarrow> (string + 'a) \<times> 'd"

definition io_bind :: "('d, 'a) device_io \<Rightarrow> ('a \<Rightarrow> ('d, 'b) device_io) \<Rightarrow> ('d, 'b) device_io" where
  "io_bind m f d = (case m d of (Inl e, d') \<Rightarrow> (Inl e, d') | (Inr x, d') \<Rightarrow> f x d')"

definition read_config ::
  "'d Nmxc \<Rightarrow> config_entries \<Rightarrow> string \<Rightarrow> ('d, ManagedConfigSnapshot) device_io"
where
  "read_config client desired gateway d =
    (if desired = [] then (Inr \<lparr> snap_files = [], snap_values = [] \<rparr>, d)
     else case get_static_config_files client (required_files desired) gateway d of
       (Inl _, d') \<Rightarrow> (Inl ''managed configuration read unavailable'', d')
     | (Inr response, d') \<Rightarrow> (complete_config response desired, d'))"

definition config_matches :: "ManagedConfigSnapshot \<Rightarrow> config_entries \<Rightarrow> bool" where
  "config_matches current desired \<longleftrightarrow>
    list_all (\<lambda>(key, value). hm_get (snap_values current) key = Some value) desired"


section \<open>Reconciling\<close>

text \<open>\<open>str::get\<close> of a range, on byte offsets that are the boundaries of lines.\<close>

definition str_get :: "string \<Rightarrow> nat \<Rightarrow> nat \<Rightarrow> string option" where
  "str_get s i j = (if i \<le> j \<and> j \<le> length s then Some (take (j - i) (drop i s)) else None)"

definition range_error :: string where
  "range_error = ''managed configuration record range is invalid''"

definition replacement_step ::
  "string \<Rightarrow> string \<Rightarrow> config_entries \<Rightarrow> ManagedDirective \<Rightarrow> string \<times> nat \<Rightarrow> string + string \<times> nat"
where
  "replacement_step file content desired directive = (\<lambda>(output, cursor).
    case str_get content cursor (range_start directive) of
      None \<Rightarrow> Inl range_error
    | Some before \<Rightarrow>
        if hm_get desired (file, md_key directive) = Some None
        then Inr (output @ before, range_end directive)
        else (case str_get content (range_start directive) (range_end directive) of
            None \<Rightarrow> Inl range_error
          | Some own \<Rightarrow> Inr (output @ before @ own, range_end directive)))"

definition replacement_config_file :: "string \<Rightarrow> string \<Rightarrow> config_entries \<Rightarrow> string + string" where
  "replacement_config_file file content desired =
    bind_result (managed_directives file content desired) (\<lambda>directives.
    bind_result (fold_result (replacement_step file content desired) directives ([], 0))
      (\<lambda>(output, cursor).
        case str_get content cursor (length content) of
          None \<Rightarrow> Inl range_error
        | Some rest \<Rightarrow> Inr (output @ rest)))"

definition omitted_error :: string where
  "omitted_error = ''controller omitted a requested configuration file''"

definition deletion_files :: "config_entries \<Rightarrow> ManagedConfigSnapshot \<Rightarrow> string list" where
  "deletion_files desired current =
    sort_dedup (map (fst \<circ> fst) (filter (\<lambda>(key, value).
      value = None \<and> (\<exists>v \<in> set_option (hm_get (snap_values current) key). v \<noteq> None)) desired))"

text \<open>The body of the loop over the files with records to remove: a fresh read, the rewritten
  file, the write, whose acknowledgement is ignored, and the comparison of the records read
  back, as sorted lists.\<close>

definition delete_step ::
  "'d Nmxc \<Rightarrow> config_entries \<Rightarrow> string \<Rightarrow> string \<Rightarrow> ManagedConfigSnapshot \<times> bool
   \<Rightarrow> ('d, ManagedConfigSnapshot \<times> bool) device_io"
where
  "delete_step client desired gateway file = (\<lambda>(_, changed).
    io_bind (read_config client desired gateway) (\<lambda>current d.
    case hm_get (snap_files current) file of
      None \<Rightarrow> (Inl omitted_error, d)
    | Some content \<Rightarrow>
       (case replacement_config_file file content desired of
          Inl e \<Rightarrow> (Inl e, d)
        | Inr replacement \<Rightarrow>
            if replacement = content then (Inr (current, changed), d)
            else
              let (_, d') = set_static_config_file client file replacement gateway d in
              io_bind (read_config client desired gateway) (\<lambda>current' d''.
              case hm_get (snap_files current') file of
                None \<Rightarrow> (Inl omitted_error, d'')
              | Some returned \<Rightarrow>
                  if sort (str_lines returned) \<noteq> sort (str_lines replacement)
                  then (Inl ''managed configuration file write did not pass preservation readback'', d'')
                  else (Inr (current', True), d'')) d')))"

definition set_step ::
  "'d Nmxc \<Rightarrow> config_entries \<Rightarrow> string \<Rightarrow> config_key \<times> string option \<Rightarrow> ManagedConfigSnapshot \<times> bool
   \<Rightarrow> ('d, ManagedConfigSnapshot \<times> bool) device_io"
where
  "set_step client desired gateway = (\<lambda>((file, key), target) (current, changed) d.
    case target of
      None \<Rightarrow> (Inr (current, changed), d)
    | Some value \<Rightarrow>
        if hm_get (snap_values current) (file, key) = Some (Some value) then (Inr (current, changed), d)
        else
          let (_, d') = set_static_config client file key value gateway d in
          io_bind (read_config client desired gateway) (\<lambda>current' d''.
            if hm_get (snap_values current') (file, key) \<noteq> Some (Some value)
            then (Inl ''managed configuration write did not pass readback'', d'')
            else (Inr (current', True), d'')) d')"

fun io_fold :: "('x \<Rightarrow> 's \<Rightarrow> ('d, 's) device_io) \<Rightarrow> 'x list \<Rightarrow> 's \<Rightarrow> ('d, 's) device_io" where
  "io_fold f [] s = (\<lambda>d. (Inr s, d))"
| "io_fold f (x # xs) s = io_bind (f x s) (io_fold f xs)"

definition reconcile_config :: "'d Nmxc \<Rightarrow> config_entries \<Rightarrow> string \<Rightarrow> ('d, bool) device_io" where
  "reconcile_config client desired gateway =
    io_bind (read_config client desired gateway) (\<lambda>current.
    io_bind (io_fold (delete_step client desired gateway) (deletion_files desired current) (current, False)) (\<lambda>(current1, changed1).
    io_bind (io_fold (set_step client desired gateway) desired (current1, changed1)) (\<lambda>(_, changed).
    io_bind (read_config client desired gateway) (\<lambda>final d.
      if \<not> config_matches final desired
      then (Inl ''managed configuration batch readback failed'', d)
      else (Inr changed, d)))))"


section \<open>Lines and their directives\<close>

lemma concat_split_inclusive [simp]: "concat (split_inclusive s) = s"
  by (induction s) (auto split: list.splits)

text \<open>A list of lines: each ends with its only line feed, except that the last may lack it.\<close>

fun physical_lines :: "string list \<Rightarrow> bool" where
  "physical_lines [] \<longleftrightarrow> True"
| "physical_lines (l # ls) \<longleftrightarrow>
     l \<noteq> [] \<and> LF \<notin> set (butlast l) \<and> (last l = LF \<or> ls = []) \<and> physical_lines ls"

lemma physical_split_inclusive: "physical_lines (split_inclusive s)"
proof (induction s)
  case (Cons c s)
  then show ?case by (cases "split_inclusive s") auto
qed simp

lemma physical_filter: "physical_lines ls \<Longrightarrow> physical_lines (filter P ls)"
  by (induction ls) (auto simp: filter_empty_conv)

lemma split_inclusive_append:
  "LF \<notin> set b \<Longrightarrow> split_inclusive (b @ LF # s) = (b @ [LF]) # split_inclusive s"
  by (induction b) (auto simp: split: list.splits)

lemma split_inclusive_last: "LF \<notin> set b \<Longrightarrow> split_inclusive b = (if b = [] then [] else [b])"
  by (induction b) auto

lemma split_inclusive_concat: "physical_lines ls \<Longrightarrow> split_inclusive (concat ls) = ls"
proof (induction ls)
  case (Cons l ls)
  show ?case
  proof (cases "last l = LF")
    case True
    then have "l = butlast l @ [LF]" using Cons.prems by (metis append_butlast_last_id physical_lines.simps(2))
    then show ?thesis
      using Cons split_inclusive_append [of "butlast l" "concat ls"]
      by (metis append.assoc append_Cons append_Nil concat.simps(2) physical_lines.simps(2))
  next
    case False
    have l: "l \<noteq> []" "ls = []" "LF \<notin> set (butlast l)" using Cons.prems False by auto
    have "set l = insert (last l) (set (butlast l))"
      using l(1) by (metis append_butlast_last_id list.set(2) rotate1.simps(2) set_rotate1)
    with l False show ?thesis by (simp add: split_inclusive_last)
  qed
qed simp

text \<open>What the loop over the lines appends to its state.\<close>

fun scan_lines :: "string \<Rightarrow> config_entries \<Rightarrow> nat \<Rightarrow> string list \<Rightarrow> string list \<Rightarrow> string + ManagedDirective list" where
  "scan_lines file desired offset seen [] = Inr []"
| "scan_lines file desired offset seen (l # ls) =
    (if \<not> is_record_line l then scan_lines file desired (offset + length l) seen ls
     else bind_result (split_directive (trim l)) (\<lambda>(key, value).
       if key \<in> set seen then Inl ''controller returned an ambiguous managed configuration entry''
       else bind_result (if hm_get desired (file, key) \<noteq> None then owned_value value else Inr value) (\<lambda>v.
         bind_result (scan_lines file desired (offset + length l) (key # seen) ls) (\<lambda>ds.
           Inr (\<lparr> range_start = offset, range_end = offset + length l, md_key = key, md_value = v \<rparr> # ds)))))"

lemma bind_result_assoc: "bind_result (bind_result r f) g = bind_result r (\<lambda>x. bind_result (f x) g)"
  by (cases r) auto

lemma directive_fold:
  "fold_result (directive_step file desired) ls (offset, seen, ds) =
    bind_result (scan_lines file desired offset seen ls) (\<lambda>new.
      Inr (offset + length (concat ls), rev (map md_key new) @ seen, ds @ new))"
proof (induction ls arbitrary: offset seen ds)
  case (Cons l ls)
  show ?case
  proof (cases "is_record_line l")
    case False
    then show ?thesis using Cons.IH by (simp add: directive_step_def Let_def add.assoc)
  next
    case True
    show ?thesis
    proof (cases "split_directive (trim l)")
      case (Inr kv)
      obtain k v where kv: "kv = (k, v)" by (cases kv)
      define ov where "ov = (if hm_get desired (file, k) \<noteq> None then owned_value v else Inr v)"
      show ?thesis
        using True Inr kv Cons.IH
        by (cases "k \<in> set seen"; cases ov)
          (simp_all add: directive_step_def Let_def ov_def [symmetric] bind_result_assoc add.assoc)
    qed (use True in \<open>simp add: directive_step_def Let_def\<close>)
  qed
qed simp

lemma managed_directives_scan:
  "managed_directives file content desired = scan_lines file desired 0 [] (split_inclusive content)"
  by (cases "scan_lines file desired 0 [] (split_inclusive content)")
    (simp_all add: managed_directives_def directive_fold)

text \<open>The record of a key the caller wants absent.\<close>

definition line_key :: "string \<Rightarrow> string option" where
  "line_key l =
    (if is_record_line l then case split_directive (trim l) of Inl _ \<Rightarrow> None | Inr (key, _) \<Rightarrow> Some key
     else None)"

definition removed_line :: "string \<Rightarrow> config_entries \<Rightarrow> string \<Rightarrow> bool" where
  "removed_line file desired l \<longleftrightarrow>
    (case line_key l of None \<Rightarrow> False | Some key \<Rightarrow> hm_get desired (file, key) = Some None)"

lemma str_get_before: "c \<le> length pre \<Longrightarrow> str_get (pre @ r) c (length pre) = Some (drop c pre)"
  by (simp add: str_get_def)

lemma str_get_line: "str_get (pre @ l @ r) (length pre) (length pre + length l) = Some l"
  by (simp add: str_get_def)

definition close_file :: "string \<Rightarrow> string \<times> nat \<Rightarrow> string + string" where
  "close_file content = (\<lambda>(output, cursor).
    case str_get content cursor (length content) of
      None \<Rightarrow> Inl range_error | Some rest \<Rightarrow> Inr (output @ rest))"

lemma replacement_scan:
  assumes "scan_lines file desired (length pre) seen ls = Inr ds" and "c \<le> length pre"
  shows "bind_result (fold_result (replacement_step file (pre @ concat ls) desired) ds (out, c))
      (close_file (pre @ concat ls)) =
    Inr (out @ drop c pre @ concat (filter (\<lambda>l. \<not> removed_line file desired l) ls))"
  using assms
proof (induction ls arbitrary: pre seen ds out c)
  case Nil
  then show ?case using str_get_before [of c pre "[]"] by (simp add: close_file_def)
next
  case (Cons l ls)
  have ih: "scan_lines file desired (length pre + length l) seen' ls = Inr ds' \<Longrightarrow> c' \<le> length pre + length l \<Longrightarrow>
    bind_result (fold_result (replacement_step file (pre @ l @ concat ls) desired) ds' (out', c'))
      (close_file (pre @ l @ concat ls)) =
    Inr (out' @ drop c' (pre @ l) @ concat (filter (\<lambda>l. \<not> removed_line file desired l) ls))"
    for seen' ds' out' c'
    using Cons.IH [of "pre @ l" seen' ds' c' out'] by simp
  show ?case
  proof (cases "is_record_line l")
    case False
    then show ?thesis using Cons.prems ih [of seen ds c out] by (simp add: removed_line_def line_key_def)
  next
    case True
    then obtain k v v' ds' where kv: "split_directive (trim l) = Inr (k, v)" "k \<notin> set seen"
      and ds': "scan_lines file desired (length pre + length l) (k # seen) ls = Inr ds'"
      and ds: "ds = \<lparr> range_start = length pre, range_end = length pre + length l, md_key = k, md_value = v' \<rparr> # ds'"
      using Cons.prems(1) by (auto simp: bind_result_Inr_iff split: if_splits)
    have rem: "removed_line file desired l \<longleftrightarrow> hm_get desired (file, k) = Some None"
      using True kv by (simp add: removed_line_def line_key_def)
    have step: "replacement_step file (pre @ l @ concat ls) desired
        \<lparr> range_start = length pre, range_end = length pre + length l, md_key = k, md_value = v' \<rparr> (out, c) =
      (if hm_get desired (file, k) = Some None then Inr (out @ drop c pre, length pre + length l)
       else Inr (out @ drop c pre @ l, length pre + length l))"
      using Cons.prems(2) by (simp add: replacement_step_def str_get_before str_get_line)
    show ?thesis
      using ih [OF ds', of "length pre + length l"]
      by (cases "hm_get desired (file, k) = Some None")
        (simp_all add: ds rem step)
  qed
qed

lemma replacement_lines:
  "replacement_config_file file content desired =
    bind_result (managed_directives file content desired) (\<lambda>_.
      Inr (concat (filter (\<lambda>l. \<not> removed_line file desired l) (split_inclusive content))))"
proof (cases "managed_directives file content desired")
  case (Inr ds)
  then have "bind_result (fold_result (replacement_step file content desired) ds ([], 0)) (close_file content) =
      Inr (concat (filter (\<lambda>l. \<not> removed_line file desired l) (split_inclusive content)))"
    using replacement_scan [where pre = "[]" and seen = "[]" and c = 0 and out = "[]"]
    by (fastforce simp: managed_directives_scan)
  with Inr show ?thesis by (simp add: replacement_config_file_def close_file_def)
qed (simp add: replacement_config_file_def)


section \<open>What a read establishes\<close>

text \<open>The value that a list of directives gives to a key.\<close>

definition directive_value :: "ManagedDirective list \<Rightarrow> string \<Rightarrow> string option" where
  "directive_value ds k = map_of (map (\<lambda>d. (md_key d, md_value d)) ds) k"

lemma directive_value_simps [simp]:
  "directive_value [] k = None"
  "directive_value (d # ds) k = (if md_key d = k then Some (md_value d) else directive_value ds k)"
  by (simp_all add: directive_value_def)

lemma directive_value_None: "directive_value ds k = None \<longleftrightarrow> k \<notin> md_key ` set ds"
  by (induction ds) auto

lemma scan_keys:
  "scan_lines file desired offset seen ls = Inr ds \<Longrightarrow>
    distinct (map md_key ds) \<and> md_key ` set ds \<inter> set seen = {}"
proof (induction ls arbitrary: offset seen ds)
  case (Cons l ls)
  show ?case
  proof (cases "is_record_line l")
    case True
    then obtain k v ds' where k: "k \<notin> set seen"
      and ds': "scan_lines file desired (offset + length l) (k # seen) ls = Inr ds'"
      and ds: "ds = \<lparr> range_start = offset, range_end = offset + length l, md_key = k, md_value = v \<rparr> # ds'"
      using Cons.prems by (auto simp: bind_result_Inr_iff split: if_splits)
    show ?thesis using Cons.IH [OF ds'] k by (auto simp: ds)
  qed (use Cons in auto)
qed simp

lemma directives_distinct: "managed_directives file content desired = Inr ds \<Longrightarrow> distinct (map md_key ds)"
  using scan_keys by (auto simp: managed_directives_scan)

lemma note_directives:
  assumes "bt_ok vals" and "distinct (map md_key ds)"
  shows "bt_ok (fold (note_directive name desired) ds vals)
    \<and> hm_get (fold (note_directive name desired) ds vals) (n, k) =
      (if n = name \<and> hm_get desired (name, k) \<noteq> None \<and> directive_value ds k \<noteq> None
       then Some (directive_value ds k) else hm_get vals (n, k))"
  using assms
proof (induction ds arbitrary: vals)
  case (Cons d ds)
  define vals' where "vals' = note_directive name desired d vals"
  have ok: "bt_ok vals'"
    using Cons.prems by (simp add: vals'_def note_directive_def bt_put_sorted)
  have get: "hm_get vals' (n, k) =
      (if n = name \<and> k = md_key d \<and> hm_get desired (name, k) \<noteq> None then Some (Some (md_value d)) else hm_get vals (n, k))"
    using Cons.prems by (auto simp: vals'_def note_directive_def bt_get_put)
  have "md_key d = k \<Longrightarrow> directive_value ds k = None"
    using Cons.prems(2) by (auto simp: directive_value_None)
  then show ?case
    using Cons.IH [OF ok] Cons.prems(2) get by (auto simp: vals'_def)
qed simp

lemma complete_file_step:
  assumes "complete_file desired (name, content) snap = Inr mid"
    and "bt_ok (snap_files snap)" "bt_ok (snap_values snap)"
  shows "bt_ok (snap_files mid) \<and> bt_ok (snap_values mid)"
    and "f \<noteq> name \<Longrightarrow> hm_get (snap_files mid) f = hm_get (snap_files snap) f
      \<and> hm_get (snap_values mid) (f, k) = hm_get (snap_values snap) (f, k)"
    and "name \<in> set (required_files desired) \<Longrightarrow>
      \<exists>ds. managed_directives name content desired = Inr ds \<and> hm_get (snap_files mid) name = Some content
        \<and> (\<forall>k. hm_get desired (name, k) \<noteq> None \<longrightarrow> hm_get (snap_values mid) (name, k) =
            (if directive_value ds k \<noteq> None then Some (directive_value ds k) else hm_get (snap_values snap) (name, k)))"
proof -
  show "bt_ok (snap_files mid) \<and> bt_ok (snap_values mid)"
    using assms note_directives [OF assms(3) directives_distinct]
    by (auto simp: complete_file_def bind_result_Inr_iff bt_put_sorted split: if_splits)
  show "f \<noteq> name \<Longrightarrow> hm_get (snap_files mid) f = hm_get (snap_files snap) f
      \<and> hm_get (snap_values mid) (f, k) = hm_get (snap_values snap) (f, k)"
    using assms note_directives [OF assms(3) directives_distinct]
    by (auto simp: complete_file_def bind_result_Inr_iff bt_get_put split: if_splits)
  assume "name \<in> set (required_files desired)"
  then obtain ds where ds: "managed_directives name content desired = Inr ds"
    and mid: "mid = \<lparr> snap_files = bt_put name content (snap_files snap),
      snap_values = fold (note_directive name desired) ds (snap_values snap) \<rparr>"
    using assms(1) by (auto simp: complete_file_def bind_result_Inr_iff)
  show "\<exists>ds. managed_directives name content desired = Inr ds \<and> hm_get (snap_files mid) name = Some content
        \<and> (\<forall>k. hm_get desired (name, k) \<noteq> None \<longrightarrow> hm_get (snap_values mid) (name, k) =
            (if directive_value ds k \<noteq> None then Some (directive_value ds k) else hm_get (snap_values snap) (name, k)))"
    using ds assms(2) note_directives [OF assms(3) directives_distinct [OF ds], of name desired]
    by (simp add: mid bt_get_put)
qed

lemma complete_untouched:
  assumes "fold_result (complete_file desired) files snap = Inr snap'"
    and "bt_ok (snap_files snap)" "bt_ok (snap_values snap)" "f \<notin> fst ` set files"
  shows "hm_get (snap_files snap') f = hm_get (snap_files snap) f
    \<and> hm_get (snap_values snap') (f, k) = hm_get (snap_values snap) (f, k)"
  using assms
proof (induction files arbitrary: snap)
  case (Cons e files)
  obtain name content where e: "e = (name, content)" by (cases e)
  obtain mid where mid: "complete_file desired (name, content) snap = Inr mid"
    and rest: "fold_result (complete_file desired) files mid = Inr snap'"
    using Cons.prems(1) e by (auto simp: bind_result_Inr_iff)
  note step = complete_file_step [OF mid Cons.prems(2,3)]
  have "f \<noteq> name" "f \<notin> fst ` set files" using Cons.prems(4) e by auto
  then show ?case using Cons.IH [OF rest] step(1) step(2) [of f k] by auto
qed simp

lemma complete_files:
  assumes "fold_result (complete_file desired) files snap = Inr snap'"
    and "bt_ok (snap_files snap)" "bt_ok (snap_values snap)" "distinct (map fst files)"
    and "(f, content) \<in> set files" "f \<in> set (required_files desired)"
  shows "\<exists>ds. managed_directives f content desired = Inr ds \<and> hm_get (snap_files snap') f = Some content
    \<and> (\<forall>k. hm_get desired (f, k) \<noteq> None \<longrightarrow> hm_get (snap_values snap') (f, k) =
        (if directive_value ds k \<noteq> None then Some (directive_value ds k) else hm_get (snap_values snap) (f, k)))"
  using assms(1-5)
proof (induction files arbitrary: snap)
  case (Cons e files)
  obtain name c where e: "e = (name, c)" by (cases e)
  obtain mid where mid: "complete_file desired (name, c) snap = Inr mid"
    and rest: "fold_result (complete_file desired) files mid = Inr snap'"
    using Cons.prems(1) e by (auto simp: bind_result_Inr_iff)
  note step = complete_file_step [OF mid Cons.prems(2,3)]
  have d: "distinct (map fst files)" "name \<notin> fst ` set files" using Cons.prems(4) e by auto
  show ?case
  proof (cases "f = name")
    case True
    then have c: "content = c" using Cons.prems(5) d(2) e by (auto simp: image_iff)
    show ?thesis
      using step(3) [OF assms(6) [unfolded True]] complete_untouched [OF rest, of name] step(1) d(2)
      by (auto simp: True c)
  next
    case False
    then have "(f, content) \<in> set files" using Cons.prems(5) e by auto
    with Cons.IH [OF rest _ _ d(1)] step(1) step(2) [OF False] show ?thesis by auto
  qed
qed simp

text \<open>Reading the fields of a successful read: the controller returned every requested file
  once, each is unambiguous, and the snapshot holds exactly the value, or the absence, of every
  requested key in it.\<close>

lemma read_exact:
  assumes "read_config client desired gateway d = (Inr snap, d')" "desired \<noteq> []" "bt_ok desired"
  shows "\<exists>files. get_static_config_files client (required_files desired) gateway d = (Inr (Some (Some files)), d')
    \<and> distinct (map fst files)
    \<and> (\<forall>f k. hm_get desired (f, k) \<noteq> None \<longrightarrow>
        (\<exists>content ds. map_of files f = Some content \<and> hm_get (snap_files snap) f = Some content
          \<and> managed_directives f content desired = Inr ds
          \<and> hm_get (snap_values snap) (f, k) = Some (directive_value ds k)))"
proof -
  obtain response where get: "get_static_config_files client (required_files desired) gateway d = (Inr response, d')"
    and complete: "complete_config response desired = Inr snap"
    using assms(1,2) by (auto simp: read_config_def split: prod.splits sum.splits)
  let ?init = "\<lparr> snap_files = [], snap_values = map (\<lambda>(k, _). (k, None)) desired \<rparr>"
  obtain files where response: "response = Some (Some files)" and dist: "distinct (map fst files)"
    and all: "set (required_files desired) \<subseteq> fst ` set files"
    and fold: "fold_result (complete_file desired) files ?init = Inr snap"
    using complete by (auto simp: complete_config_def split: option.splits if_splits)
  have keys: "map fst (map (\<lambda>(k, _). (k, None)) desired) = map fst desired" by auto
  have ok: "bt_ok (snap_values ?init)" using assms(3) unfolding bt_ok_def ManagedConfigSnapshot.select_convs keys .
  have init: "hm_get desired fk \<noteq> None \<Longrightarrow> hm_get (snap_values ?init) fk = Some None" for fk
    by (induction desired) auto
  have "\<exists>content ds. map_of files f = Some content \<and> hm_get (snap_files snap) f = Some content
      \<and> managed_directives f content desired = Inr ds \<and> hm_get (snap_values snap) (f, k) = Some (directive_value ds k)"
    if "hm_get desired (f, k) \<noteq> None" for f k
  proof -
    have req: "f \<in> set (required_files desired)"
      using that by (force simp: required_files_def dest: map_of_SomeD)
    then obtain content where content: "(f, content) \<in> set files" using all by auto
    from complete_files [OF fold _ ok dist content req] init [OF that] that content dist
    show ?thesis by (fastforce simp: bt_ok_def)
  qed
  with get response dist show ?thesis by blast
qed


section \<open>What reconciling establishes\<close>

lemma io_bind_Inr_iff:
  "io_bind m f d = (Inr y, d') \<longleftrightarrow> (\<exists>x d1. m d = (Inr x, d1) \<and> f x d1 = (Inr y, d'))"
  by (auto simp: io_bind_def split: prod.splits sum.splits)

lemma io_fold_inv:
  assumes "io_fold f xs s d = (Inr s', d')" and "P s d"
    and "\<And>x s d s' d'. x \<in> set xs \<Longrightarrow> P s d \<Longrightarrow> f x s d = (Inr s', d') \<Longrightarrow> P s' d'"
  shows "P s' d'"
  using assms
proof (induction xs arbitrary: s d)
  case (Cons x xs)
  obtain s1 d1 where x: "f x s d = (Inr s1, d1)" and xs: "io_fold f xs s1 d1 = (Inr s', d')"
    using Cons.prems(1) by (auto simp: io_bind_Inr_iff)
  show ?case
    using Cons.IH [OF xs] Cons.prems(3) [OF _ Cons.prems(2) x] Cons.prems(3) by (meson list.set_intros)
qed simp

text \<open>The states of the controller that reads alone lead to.\<close>

inductive reads :: "'d Nmxc \<Rightarrow> string \<Rightarrow> 'd \<Rightarrow> 'd \<Rightarrow> bool" for client gateway where
  reads_refl: "reads client gateway d d"
| reads_step: "reads client gateway d d1 \<Longrightarrow> get_static_config_files client files gateway d1 = (r, d') \<Longrightarrow>
    reads client gateway d d'"

lemma reads_read:
  assumes "reads client gateway d d1" and "read_config client desired gateway d1 = (r, d')"
  shows "reads client gateway d d'"
proof (cases "desired = []")
  case False
  then obtain r' where "get_static_config_files client (required_files desired) gateway d1 = (r', d')"
    using assms(2) by (auto simp: read_config_def split: prod.splits sum.splits)
  with assms(1) show ?thesis by (rule reads_step)
qed (use assms in \<open>auto simp: read_config_def\<close>)

text \<open>A step that reports no change so far has only read.\<close>

lemma delete_step_Inr:
  assumes "delete_step client desired gateway file (current, changed) d = (Inr (current', changed'), d')"
  shows "\<exists>cur d1 content replacement. read_config client desired gateway d = (Inr cur, d1)
    \<and> hm_get (snap_files cur) file = Some content
    \<and> replacement_config_file file content desired = Inr replacement
    \<and> (replacement = content \<and> current' = cur \<and> changed' = changed \<and> d' = d1
       \<or> replacement \<noteq> content \<and> changed'
         \<and> read_config client desired gateway (snd (set_static_config_file client file replacement gateway d1)) = (Inr current', d')
         \<and> (\<exists>returned. hm_get (snap_files current') file = Some returned
             \<and> sort (str_lines returned) = sort (str_lines replacement)))"
proof -
  obtain cur d1 where cur: "read_config client desired gateway d = (Inr cur, d1)"
    and rest: "(case hm_get (snap_files cur) file of
      None \<Rightarrow> (Inl omitted_error, d1)
    | Some content \<Rightarrow>
       (case replacement_config_file file content desired of
          Inl e \<Rightarrow> (Inl e, d1)
        | Inr replacement \<Rightarrow>
            if replacement = content then (Inr (cur, changed), d1)
            else
              let (_, d') = set_static_config_file client file replacement gateway d1 in
              io_bind (read_config client desired gateway) (\<lambda>current' d''.
              case hm_get (snap_files current') file of
                None \<Rightarrow> (Inl omitted_error, d'')
              | Some returned \<Rightarrow>
                  if sort (str_lines returned) \<noteq> sort (str_lines replacement)
                  then (Inl ''managed configuration file write did not pass preservation readback'', d'')
                  else (Inr (current', True), d'')) d')) = (Inr (current', changed'), d')"
    using assms unfolding delete_step_def prod.case io_bind_Inr_iff by blast
  obtain content where content: "hm_get (snap_files cur) file = Some content"
    using rest by (cases "hm_get (snap_files cur) file") auto
  obtain replacement where rep: "replacement_config_file file content desired = Inr replacement"
    using rest content by (cases "replacement_config_file file content desired") auto
  show ?thesis
  proof (cases "replacement = content")
    case True
    then show ?thesis using rest content rep cur by auto
  next
    case False
    then have "io_bind (read_config client desired gateway) (\<lambda>current' d''.
        case hm_get (snap_files current') file of
          None \<Rightarrow> (Inl omitted_error, d'')
        | Some returned \<Rightarrow>
            if sort (str_lines returned) \<noteq> sort (str_lines replacement)
            then (Inl ''managed configuration file write did not pass preservation readback'', d'')
            else (Inr (current', True), d''))
        (snd (set_static_config_file client file replacement gateway d1)) = (Inr (current', changed'), d')"
      using rest content rep by (simp add: Let_def split_def)
    then have "read_config client desired gateway (snd (set_static_config_file client file replacement gateway d1)) = (Inr current', d')
      \<and> changed' \<and> (\<exists>returned. hm_get (snap_files current') file = Some returned
        \<and> sort (str_lines returned) = sort (str_lines replacement))"
      by (auto simp: io_bind_Inr_iff split: option.splits if_splits)
    with False cur content rep show ?thesis by blast
  qed
qed

lemma delete_step_reads:
  assumes "delete_step client desired gateway file (current, changed) d1 = (Inr (current', False), d')"
    and "\<not> changed \<Longrightarrow> reads client gateway d d1"
  shows "reads client gateway d d'"
proof -
  obtain cur where "read_config client desired gateway d1 = (Inr cur, d')" "\<not> changed"
    using delete_step_Inr [OF assms(1)] by auto
  then show ?thesis using reads_read [OF assms(2)] by simp
qed

lemma set_step_reads:
  assumes "set_step client desired gateway entry (current, changed) d1 = (Inr (current', False), d')"
    and "\<not> changed \<Longrightarrow> reads client gateway d d1"
  shows "reads client gateway d d'"
  using assms
  by (cases entry)
    (auto simp: set_step_def io_bind_Inr_iff Let_def split: option.splits if_splits prod.splits)

lemma reconcile_Inr:
  assumes "reconcile_config client desired gateway d = (Inr changed, d')"
  shows "\<exists>d1 final. read_config client desired gateway d1 = (Inr final, d') \<and> config_matches final desired
    \<and> (\<not> changed \<longrightarrow> reads client gateway d d1)"
proof -
  obtain cur a cur1 ch1 b cur2 d1 final where r: "read_config client desired gateway d = (Inr cur, a)"
    and del: "io_fold (delete_step client desired gateway) (deletion_files desired cur) (cur, False) a = (Inr (cur1, ch1), b)"
    and set: "io_fold (set_step client desired gateway) desired (cur1, ch1) b = (Inr (cur2, changed), d1)"
    and final: "read_config client desired gateway d1 = (Inr final, d')" "config_matches final desired"
    using assms by (fastforce simp: reconcile_config_def io_bind_Inr_iff split: if_splits prod.splits)
  let ?P = "\<lambda>(_, ch) e. \<not> ch \<longrightarrow> reads client gateway d e"
  have "reads client gateway d a" by (rule reads_read [OF reads_refl r])
  then have "?P (cur1, ch1) b"
    using io_fold_inv [OF del, of ?P] delete_step_reads by fastforce
  then have "?P (cur2, changed) d1"
    using io_fold_inv [OF set, of ?P] set_step_reads by fastforce
  with final show ?thesis by auto
qed

text \<open>A controller with one file, its content the state.  It does not acknowledge the writes of
  the file, and a key write puts the record first.\<close>

definition one_file_controller :: "string Nmxc" where
  "one_file_controller = \<lparr>
    get_static_config_files = (\<lambda>fs _ d. (Inr (Some (Some (map (\<lambda>f. (f, d)) fs))), d)),
    set_static_config = (\<lambda>f k v _ d. (True, k @ ''='' @ v @ [LF] @ d)),
    set_static_config_file = (\<lambda>f content _ d. (False, content)) \<rparr>"

definition one_file_desired :: config_entries where
  "one_file_desired = [((''cfg'', ''A''), Some ''1''), ((''cfg'', ''B''), None)]"

text \<open>The lines of a file that is put back are the lines that were kept.\<close>

lemma str_lines_kept:
  "str_lines (concat (filter P (split_inclusive s))) = map line_text (filter P (split_inclusive s))"
  by (simp add: str_lines_def split_inclusive_concat physical_filter physical_split_inclusive)

text \<open>C29. Removing records from a file keeps every other record: when the loop body succeeds, the
  file it last read back from the controller has exactly the lines, each as often as before, of
  the file read just before the write, without the records of the keys to be absent.  If it
  reports no change, the file holds no such record and nothing was written.\<close>

theorem removal_keeps_records:
  assumes "delete_step client desired gateway file (current, changed) d = (Inr (current', changed'), d')"
  shows "\<exists>before d1 content returned.
    read_config client desired gateway d = (Inr before, d1)
    \<and> hm_get (snap_files before) file = Some content
    \<and> hm_get (snap_files current') file = Some returned
    \<and> mset (str_lines returned) =
        mset (map line_text (filter (\<lambda>l. \<not> removed_line file desired l) (split_inclusive content)))
    \<and> (\<not> changed' \<longrightarrow> d' = d1 \<and> returned = content \<and> (\<forall>l \<in> set (split_inclusive content). \<not> removed_line file desired l))"
proof -
  obtain cur d1 content replacement where cur: "read_config client desired gateway d = (Inr cur, d1)"
    "hm_get (snap_files cur) file = Some content"
    and rep: "replacement_config_file file content desired = Inr replacement"
    and out: "replacement = content \<and> current' = cur \<and> changed' = changed \<and> d' = d1
       \<or> replacement \<noteq> content \<and> changed'
         \<and> (\<exists>returned. hm_get (snap_files current') file = Some returned
             \<and> sort (str_lines returned) = sort (str_lines replacement))"
    using delete_step_Inr [OF assms] by blast
  let ?keep = "\<lambda>l. \<not> removed_line file desired l"
  have kept: "replacement = concat (filter ?keep (split_inclusive content))"
    using rep by (auto simp: replacement_lines bind_result_Inr_iff)
  then have lines: "str_lines replacement = map line_text (filter ?keep (split_inclusive content))"
    by (simp add: str_lines_kept)
  have all: "replacement = content \<Longrightarrow> \<forall>l \<in> set (split_inclusive content). ?keep l"
    using kept physical_split_inclusive [of content]
    by (metis (no_types, lifting) filter_id_conv physical_filter split_inclusive_concat)
  from out show ?thesis
  proof
    assume "replacement = content \<and> current' = cur \<and> changed' = changed \<and> d' = d1"
    then have "filter ?keep (split_inclusive content) = split_inclusive content" "current' = cur" "d' = d1"
      "\<forall>l \<in> set (split_inclusive content). ?keep l" using all by (auto simp: filter_id_conv)
    with cur show ?thesis
      by (intro exI [of _ cur] exI [of _ d1] exI [of _ content]) (simp add: str_lines_def)
  next
    assume "replacement \<noteq> content \<and> changed' \<and> (\<exists>returned. hm_get (snap_files current') file = Some returned
             \<and> sort (str_lines returned) = sort (str_lines replacement))"
    then show ?thesis using cur lines by (metis mset_sort)
  qed
qed

theorem removal_keeps_records_witness:
  "\<exists>before d1 content returned.
    read_config one_file_controller one_file_desired ''gw'' (''C=0'' @ [LF] @ ''B=2'') = (Inr before, d1)
    \<and> hm_get (snap_files before) ''cfg'' = Some content
    \<and> mset (str_lines returned) =
        mset (map line_text (filter (\<lambda>l. \<not> removed_line ''cfg'' one_file_desired l) (split_inclusive content)))"
proof -
  let ?cur = "\<lparr> snap_files = [(''cfg'', ''C=0'' @ [LF])],
    snap_values = [((''cfg'', ''A''), None), ((''cfg'', ''B''), None)] \<rparr>"
  have "delete_step one_file_controller one_file_desired ''gw'' ''cfg'' (\<lparr> snap_files = [], snap_values = [] \<rparr>, False)
      (''C=0'' @ [LF] @ ''B=2'') = (Inr (?cur, True), ''C=0'' @ [LF])"
    by code_simp
  from removal_keeps_records [OF this] show ?thesis by blast
qed

text \<open>C12. Reconciliation reports success only on evidence it has read back: the last call to the
  controller returned every requested file exactly once, every file unambiguous, and in them
  each key has exactly its desired value, or no directive where its absence is desired; no
  acknowledgement of a write counts.  When it reports that nothing changed, it has only read.\<close>

theorem reconcile_reads_back:
  assumes "reconcile_config client desired gateway d = (Inr changed, d')"
    and "bt_ok desired" and "desired \<noteq> []"
  shows "\<exists>d1 files. get_static_config_files client (required_files desired) gateway d1 = (Inr (Some (Some files)), d')
    \<and> distinct (map fst files)
    \<and> (\<forall>file key target. hm_get desired (file, key) = Some target \<longrightarrow>
        (\<exists>content directives. map_of files file = Some content
          \<and> managed_directives file content desired = Inr directives
          \<and> distinct (map md_key directives)
          \<and> directive_value directives key = target))
    \<and> (\<not> changed \<longrightarrow> reads client gateway d d')"
proof -
  obtain d1 final where read: "read_config client desired gateway d1 = (Inr final, d')"
    and match: "config_matches final desired" and quiet: "\<not> changed \<longrightarrow> reads client gateway d d1"
    using reconcile_Inr [OF assms(1)] by blast
  have target: "hm_get desired k = Some t \<Longrightarrow> hm_get (snap_values final) k = Some t" for k t
    using match by (auto simp: config_matches_def list_all_iff dest!: map_of_SomeD)
  have reads: "\<not> changed \<longrightarrow> reads client gateway d d'" using quiet reads_read [OF _ read] by blast
  from read_exact [OF read assms(3,2)] obtain files where
    get: "get_static_config_files client (required_files desired) gateway d1 = (Inr (Some (Some files)), d')"
      "distinct (map fst files)"
    and vals: "\<forall>f k. hm_get desired (f, k) \<noteq> None \<longrightarrow>
        (\<exists>content ds. map_of files f = Some content \<and> hm_get (snap_files final) f = Some content
          \<and> managed_directives f content desired = Inr ds
          \<and> hm_get (snap_values final) (f, k) = Some (directive_value ds k))"
    by blast
  have "\<exists>content ds. map_of files f = Some content \<and> managed_directives f content desired = Inr ds
      \<and> distinct (map md_key ds) \<and> directive_value ds k = t" if "hm_get desired (f, k) = Some t" for f k t
    using vals [rule_format, of f k] that target [OF that] directives_distinct by fastforce
  with get reads show ?thesis by blast
qed

theorem reconcile_reads_back_witness:
  "\<exists>d1 files. get_static_config_files one_file_controller (required_files one_file_desired) ''gw'' d1 =
      (Inr (Some (Some files)), ''A=1'' @ [LF] @ ''C=0'' @ [LF])
    \<and> distinct (map fst files)
    \<and> (\<exists>content directives. map_of files ''cfg'' = Some content
        \<and> managed_directives ''cfg'' content one_file_desired = Inr directives
        \<and> directive_value directives ''A'' = Some ''1'')"
proof -
  have run: "reconcile_config one_file_controller one_file_desired ''gw'' (''C=0'' @ [LF] @ ''B=2'') =
      (Inr True, ''A=1'' @ [LF] @ ''C=0'' @ [LF])"
    by code_simp
  have ok: "bt_ok one_file_desired" "one_file_desired \<noteq> []" by code_simp+
  have "hm_get one_file_desired (''cfg'', ''A'') = Some (Some ''1'')" by (simp add: one_file_desired_def)
  with reconcile_reads_back [OF run ok] show ?thesis by blast
qed


section \<open>Filtered files\<close>

lemma scan_filter:
  assumes "scan_lines file desired offset seen ls = Inr ds" and "\<forall>k \<in> set seen'. k \<in> set seen \<or> P k"
  shows "\<exists>ds'. scan_lines file desired offset' seen' (filter (\<lambda>l. \<not> (case line_key l of None \<Rightarrow> False | Some k \<Rightarrow> P k)) ls) = Inr ds'
    \<and> (\<forall>k. directive_value ds' k = (if P k then None else directive_value ds k))"
  using assms
proof (induction ls arbitrary: offset offset' seen seen' ds)
  case (Cons l ls)
  show ?case
  proof (cases "is_record_line l")
    case False
    then show ?thesis
      using Cons.IH [of "offset + length l" seen ds seen' "offset' + length l"] Cons.prems
      by (simp add: line_key_def)
  next
    case True
    then obtain k v v' ds0 where kv: "split_directive (trim l) = Inr (k, v)" "k \<notin> set seen"
      and v': "(if hm_get desired (file, k) \<noteq> None then owned_value v else Inr v) = Inr v'"
      and ds0: "scan_lines file desired (offset + length l) (k # seen) ls = Inr ds0"
      and ds: "ds = \<lparr> range_start = offset, range_end = offset + length l, md_key = k, md_value = v' \<rparr> # ds0"
      using Cons.prems(1) by (auto simp: bind_result_Inr_iff split: if_splits)
    have key: "line_key l = Some k" using True kv by (simp add: line_key_def)
    show ?thesis
    proof (cases "P k")
      case True
      then show ?thesis
        using Cons.IH [OF ds0, of seen' offset'] Cons.prems(2) key ds by fastforce
    next
      case False
      obtain ds1 where ds1: "scan_lines file desired (offset' + length l) (k # seen')
          (filter (\<lambda>l. \<not> (case line_key l of None \<Rightarrow> False | Some k \<Rightarrow> P k)) ls) = Inr ds1"
        "\<forall>k. directive_value ds1 k = (if P k then None else directive_value ds0 k)"
        using Cons.IH [OF ds0, of "k # seen'" "offset' + length l"] Cons.prems(2) by auto
      have "k \<notin> set seen'" using Cons.prems(2) kv(2) False by auto
      then show ?thesis using True kv v' ds1 key False by (auto simp: ds)
    qed
  qed
qed simp

lemma replacement_readable:
  assumes "managed_directives file content desired = Inr ds"
  shows "\<exists>content' ds'. replacement_config_file file content desired = Inr content'
    \<and> managed_directives file content' desired = Inr ds'
    \<and> (\<forall>k. directive_value ds' k = (if hm_get desired (file, k) = Some None then None else directive_value ds k))"
proof -
  define ls where "ls = filter (\<lambda>l. \<not> removed_line file desired l) (split_inclusive content)"
  have split: "split_inclusive (concat ls) = ls"
    by (simp add: ls_def split_inclusive_concat physical_filter physical_split_inclusive)
  have "scan_lines file desired 0 [] (split_inclusive content) = Inr ds"
    using assms by (simp add: managed_directives_scan)
  from scan_filter [OF this, where seen' = "[]" and offset' = 0 and P = "\<lambda>k. hm_get desired (file, k) = Some None"]
  obtain ds' where "scan_lines file desired 0 [] ls = Inr ds'"
    "\<forall>k. directive_value ds' k = (if hm_get desired (file, k) = Some None then None else directive_value ds k)"
    unfolding ls_def removed_line_def by auto
  moreover have "replacement_config_file file content desired = Inr (concat ls)"
    using assms by (simp add: replacement_lines ls_def)
  ultimately show ?thesis using split by (metis managed_directives_scan)
qed

end
