(* ===== verification/Managed_Properties.thy ===== *)
theory Managed_Properties
  imports Managed_Config
begin

text \<open>
  Reconciliation against a controller that keeps its contract: the reads return the files it
  stores, a file write stores the content given, and a key write gives the key its value and
  leaves the other directives of the file as they are.  Then reconciliation succeeds from any
  state whose files are unambiguous, every key ends as desired and no other key changes.
\<close>

section \<open>The contract of the controller\<close>

text \<open>The value a key has in the files stored.\<close>

definition stored_value :: "config_entries \<Rightarrow> (string \<Rightarrow> string option) \<Rightarrow> string \<times> string \<Rightarrow> string option" where
  "stored_value desired files = (\<lambda>(f, k).
    case files f of
      None \<Rightarrow> None
    | Some content \<Rightarrow>
        (case managed_directives f content desired of Inl _ \<Rightarrow> None | Inr ds \<Rightarrow> directive_value ds k))"

definition readable :: "config_entries \<Rightarrow> (string \<Rightarrow> string option) \<Rightarrow> bool" where
  "readable desired files \<longleftrightarrow>
    list_all (\<lambda>f. case files f of
      None \<Rightarrow> False
    | Some content \<Rightarrow> (case managed_directives f content desired of Inl _ \<Rightarrow> False | Inr _ \<Rightarrow> True))
      (required_files desired)"

lemma readable_file:
  assumes "readable desired files" "f \<in> set (required_files desired)"
  shows "\<exists>content ds. files f = Some content \<and> managed_directives f content desired = Inr ds
    \<and> (\<forall>k. stored_value desired files (f, k) = directive_value ds k)"
proof -
  have "case files f of None \<Rightarrow> False
      | Some content \<Rightarrow> (case managed_directives f content desired of Inl _ \<Rightarrow> False | Inr _ \<Rightarrow> True)"
    using assms by (simp add: readable_def list_all_iff)
  then show ?thesis by (auto simp: stored_value_def split: option.splits sum.splits)
qed

lemma readable_update:
  assumes "readable desired files" "managed_directives f content desired = Inr ds"
  shows "readable desired (files(f \<mapsto> content))"
    and "stored_value desired (files(f \<mapsto> content)) (f', k) =
      (if f' = f then directive_value ds k else stored_value desired files (f', k))"
  using assms by (auto simp: readable_def list_all_iff stored_value_def)

lemma required_key: "hm_get desired (f, k) \<noteq> None \<Longrightarrow> f \<in> set (required_files desired)"
  by (force simp: required_files_def dest: map_of_SomeD)

text \<open>The laws of the three calls: a read of the requested files returns them and changes
  nothing, a file write stores its content, and a key write gives its key the value and
  preserves the other keys of the file.\<close>

definition read_law :: "'d Nmxc \<Rightarrow> config_entries \<Rightarrow> string \<Rightarrow> ('d \<Rightarrow> string \<Rightarrow> string option) \<Rightarrow> bool" where
  "read_law client desired gateway files \<longleftrightarrow> (\<forall>d. readable desired (files d) \<longrightarrow>
    get_static_config_files client (required_files desired) gateway d =
      (Inr (Some (Some (map (\<lambda>f. (f, the (files d f))) (required_files desired)))), d))"

definition file_law :: "'d Nmxc \<Rightarrow> string \<Rightarrow> ('d \<Rightarrow> string \<Rightarrow> string option) \<Rightarrow> bool" where
  "file_law client gateway files \<longleftrightarrow> (\<forall>d f content.
    files (snd (set_static_config_file client f content gateway d)) = (files d)(f \<mapsto> content))"

definition key_law :: "'d Nmxc \<Rightarrow> config_entries \<Rightarrow> string \<Rightarrow> ('d \<Rightarrow> string \<Rightarrow> string option) \<Rightarrow> bool" where
  "key_law client desired gateway files \<longleftrightarrow> (\<forall>d f content ds k v.
    files d f = Some content \<and> managed_directives f content desired = Inr ds \<and> hm_get desired (f, k) = Some (Some v) \<longrightarrow>
    (\<exists>content' ds'. files (snd (set_static_config client f k v gateway d)) = (files d)(f \<mapsto> content')
      \<and> managed_directives f content' desired = Inr ds'
      \<and> (\<forall>k'. directive_value ds' k' = (if k' = k then Some v else directive_value ds k'))))"

text \<open>A snapshot that shows the files as they are stored.\<close>

definition reflects :: "config_entries \<Rightarrow> (string \<Rightarrow> string option) \<Rightarrow> ManagedConfigSnapshot \<Rightarrow> bool" where
  "reflects desired files snap \<longleftrightarrow>
    (\<forall>f \<in> set (required_files desired). hm_get (snap_files snap) f = files f)
    \<and> (\<forall>fk. hm_get desired fk \<noteq> None \<longrightarrow> hm_get (snap_values snap) fk = Some (stored_value desired files fk))"

lemma complete_succeeds:
  assumes "\<forall>(f, content) \<in> set fs. f \<in> set (required_files desired) \<longrightarrow> (\<exists>ds. managed_directives f content desired = Inr ds)"
  shows "\<exists>snap'. fold_result (complete_file desired) fs snap = Inr snap'"
  using assms
proof (induction fs arbitrary: snap)
  case (Cons e fs)
  obtain f content where e: "e = (f, content)" by (cases e)
  have "\<exists>mid. complete_file desired e snap = Inr mid"
    using Cons.prems e by (auto simp: complete_file_def)
  with Cons show ?case by fastforce
qed simp

lemma required_distinct: "distinct (required_files desired)"
  by (simp add: required_files_def distinct_sort_dedup)

lemma read_reflects:
  assumes "read_law client desired gateway files" "bt_ok desired" "readable desired (files d)"
  shows "\<exists>snap. read_config client desired gateway d = (Inr snap, d) \<and> reflects desired (files d) snap"
proof (cases "desired = []")
  case True
  then show ?thesis
    by (simp add: read_config_def reflects_def required_files_def sort_dedup_def)
next
  case False
  let ?fs = "map (\<lambda>f. (f, the (files d f))) (required_files desired)"
  have get: "get_static_config_files client (required_files desired) gateway d = (Inr (Some (Some ?fs)), d)"
    using assms(1,3) by (simp add: read_law_def)
  have "\<exists>snap. complete_config (Some (Some ?fs)) desired = Inr snap"
    using complete_succeeds [of ?fs desired] readable_file [OF assms(3)] required_distinct [of desired]
    by (fastforce simp: complete_config_def comp_def)
  then obtain snap where snap: "read_config client desired gateway d = (Inr snap, d)"
    using False get by (auto simp: read_config_def)
  from read_exact [OF this False assms(2)] get
  have vals: "\<exists>content ds. map_of ?fs f = Some content \<and> hm_get (snap_files snap) f = Some content
      \<and> managed_directives f content desired = Inr ds \<and> hm_get (snap_values snap) (f, k) = Some (directive_value ds k)"
    if "hm_get desired (f, k) \<noteq> None" for f k using that by auto
  have mof: "f \<in> set (required_files desired) \<Longrightarrow> map_of ?fs f = files d f" for f
    using readable_file [OF assms(3)] by (fastforce simp: map_of_map_restrict restrict_map_def)
  have "hm_get (snap_files snap) f = files d f" if f: "f \<in> set (required_files desired)" for f
  proof -
    obtain k where "hm_get desired (f, k) \<noteq> None"
      using f by (force simp: required_files_def map_of_eq_None_iff image_image)
    then show ?thesis using vals mof [OF f] by fastforce
  qed
  moreover have "hm_get (snap_values snap) (f, k) = Some (stored_value desired (files d) (f, k))"
    if "hm_get desired (f, k) \<noteq> None" for f k
    using vals [OF that] mof [OF required_key [OF that]] by (auto simp: stored_value_def)
  ultimately have "reflects desired (files d) snap" by (auto simp: reflects_def)
  with snap show ?thesis by blast
qed


section \<open>The loops\<close>

text \<open>One removal: the keys to be absent go, every other value stays.\<close>

lemma delete_step_works:
  assumes "read_law client desired gateway files" "file_law client gateway files" "bt_ok desired"
    and "readable desired (files d)" "f \<in> set (required_files desired)"
  shows "\<exists>cur' changed' d'. delete_step client desired gateway f (cur, changed) d = (Inr (cur', changed'), d')
    \<and> readable desired (files d') \<and> reflects desired (files d') cur'
    \<and> (\<forall>f' k. stored_value desired (files d') (f', k) =
        (if f' = f \<and> hm_get desired (f, k) = Some None then None else stored_value desired (files d) (f', k)))"
proof -
  obtain snap where snap: "read_config client desired gateway d = (Inr snap, d)" "reflects desired (files d) snap"
    using read_reflects [OF assms(1,3,4)] by blast
  obtain content ds where content: "files d f = Some content" "managed_directives f content desired = Inr ds"
    "\<forall>k. stored_value desired (files d) (f, k) = directive_value ds k"
    using readable_file [OF assms(4,5)] by blast
  obtain content' ds' where rep: "replacement_config_file f content desired = Inr content'"
    and ds': "managed_directives f content' desired = Inr ds'"
      "\<forall>k. directive_value ds' k = (if hm_get desired (f, k) = Some None then None else directive_value ds k)"
    using replacement_readable [OF content(2)] by blast
  have fl: "hm_get (snap_files snap) f = Some content"
    using snap(2) assms(5) content(1) by (simp add: reflects_def)
  show ?thesis
  proof (cases "content' = content")
    case True
    then have "delete_step client desired gateway f (cur, changed) d = (Inr (snap, changed), d)"
      using snap(1) fl rep by (simp add: delete_step_def io_bind_def)
    moreover have "ds' = ds" using ds'(1) content(2) True by simp
    then have "hm_get desired (f, k) = Some None \<Longrightarrow> stored_value desired (files d) (f, k) = None" for k
      using ds'(2) content(3) by (metis (no_types))
    then have "\<forall>f' k. stored_value desired (files d) (f', k) =
        (if f' = f \<and> hm_get desired (f, k) = Some None then None else stored_value desired (files d) (f', k))"
      by simp
    ultimately show ?thesis using snap(2) assms(4) by blast
  next
    case False
    define e where "e = snd (set_static_config_file client f content' gateway d)"
    have e: "files e = (files d)(f \<mapsto> content')" using assms(2) by (simp add: file_law_def e_def)
    have r: "readable desired (files e)" using readable_update(1) [OF assms(4) ds'(1)] by (simp add: e)
    obtain snap' where snap': "read_config client desired gateway e = (Inr snap', e)" "reflects desired (files e) snap'"
      using read_reflects [OF assms(1,3) r] by blast
    have "hm_get (snap_files snap') f = Some content'" using snap'(2) assms(5) e by (simp add: reflects_def)
    then have "delete_step client desired gateway f (cur, changed) d = (Inr (snap', True), e)"
      using snap(1) snap'(1) fl rep False by (simp add: delete_step_def io_bind_def Let_def split_def e_def [symmetric])
    moreover have "\<forall>f' k. stored_value desired (files e) (f', k) =
        (if f' = f \<and> hm_get desired (f, k) = Some None then None else stored_value desired (files d) (f', k))"
      using readable_update(2) [OF assms(4) ds'(1)] ds'(2) content(3) e by simp
    ultimately show ?thesis using snap'(2) r by blast
  qed
qed

lemma delete_loop_works:
  assumes "read_law client desired gateway files" "file_law client gateway files" "bt_ok desired"
    and "readable desired (files d)" "reflects desired (files d) cur" "set fs \<subseteq> set (required_files desired)"
  shows "\<exists>cur' changed' d'. io_fold (delete_step client desired gateway) fs (cur, changed) d = (Inr (cur', changed'), d')
    \<and> readable desired (files d') \<and> reflects desired (files d') cur'
    \<and> (\<forall>f k. stored_value desired (files d') (f, k) =
        (if f \<in> set fs \<and> hm_get desired (f, k) = Some None then None else stored_value desired (files d) (f, k)))"
  using assms(4-6)
proof (induction fs arbitrary: cur changed d)
  case (Cons f fs)
  obtain cur1 ch1 d1 where one: "delete_step client desired gateway f (cur, changed) d = (Inr (cur1, ch1), d1)"
    "readable desired (files d1)" "reflects desired (files d1) cur1"
    "\<forall>f' k. stored_value desired (files d1) (f', k) =
        (if f' = f \<and> hm_get desired (f, k) = Some None then None else stored_value desired (files d) (f', k))"
    using delete_step_works [OF assms(1-3) Cons.prems(1), of f cur changed] Cons.prems(3) by auto
  obtain cur2 ch2 d2 where "io_fold (delete_step client desired gateway) fs (cur1, ch1) d1 = (Inr (cur2, ch2), d2)"
    "readable desired (files d2)" "reflects desired (files d2) cur2"
    "\<forall>f k. stored_value desired (files d2) (f, k) =
        (if f \<in> set fs \<and> hm_get desired (f, k) = Some None then None else stored_value desired (files d1) (f, k))"
    using Cons.IH [OF one(2,3), of ch1] Cons.prems(3) by auto
  with one show ?case by (simp add: io_bind_def) (metis (no_types, lifting))
qed auto

text \<open>One write of a key.\<close>

lemma set_step_works:
  assumes "read_law client desired gateway files" "key_law client desired gateway files" "bt_ok desired"
    and "readable desired (files d)" "reflects desired (files d) cur" "hm_get desired (f, k) = Some target"
  shows "\<exists>cur' changed' d'. set_step client desired gateway ((f, k), target) (cur, changed) d = (Inr (cur', changed'), d')
    \<and> readable desired (files d') \<and> reflects desired (files d') cur'
    \<and> (\<forall>fk. stored_value desired (files d') fk =
        (if fk = (f, k) \<and> target \<noteq> None then target else stored_value desired (files d) fk))"
proof (cases "target = None \<or> hm_get (snap_values cur) (f, k) = Some target")
  case True
  have "hm_get (snap_values cur) (f, k) = Some (stored_value desired (files d) (f, k))"
    using assms(5,6) by (auto simp: reflects_def)
  then have "set_step client desired gateway ((f, k), target) (cur, changed) d = (Inr (cur, changed), d)"
    "target \<noteq> None \<Longrightarrow> stored_value desired (files d) (f, k) = target"
    using True by (auto simp: set_step_def split: option.splits)
  then show ?thesis using assms(4,5) by auto
next
  case False
  then obtain v where v: "target = Some v" by auto
  obtain content ds where content: "files d f = Some content" "managed_directives f content desired = Inr ds"
    "\<forall>k. stored_value desired (files d) (f, k) = directive_value ds k"
    using readable_file [OF assms(4) required_key] assms(6) by fastforce
  define e where "e = snd (set_static_config client f k v gateway d)"
  obtain content' ds' where e: "files e = (files d)(f \<mapsto> content')"
    and ds': "managed_directives f content' desired = Inr ds'"
      "\<forall>k'. directive_value ds' k' = (if k' = k then Some v else directive_value ds k')"
    using assms(2,6) content v unfolding key_law_def e_def by blast
  have r: "readable desired (files e)" using readable_update(1) [OF assms(4) ds'(1)] by (simp add: e)
  obtain snap where snap: "read_config client desired gateway e = (Inr snap, e)" "reflects desired (files e) snap"
    using read_reflects [OF assms(1,3) r] by blast
  have val: "stored_value desired (files e) fk = (if fk = (f, k) then target else stored_value desired (files d) fk)" for fk
    using readable_update(2) [OF assms(4) ds'(1)] ds'(2) content(3) e v by (cases fk) auto
  have "hm_get (snap_values snap) (f, k) = Some (Some v)"
    using snap(2) assms(6) val v by (auto simp: reflects_def)
  then have "set_step client desired gateway ((f, k), target) (cur, changed) d = (Inr (snap, True), e)"
    using False snap(1) v by (simp add: set_step_def io_bind_def Let_def split_def e_def [symmetric])
  then show ?thesis using snap(2) r val v by auto
qed

lemma set_loop_works:
  assumes "read_law client desired gateway files" "key_law client desired gateway files" "bt_ok desired"
    and "readable desired (files d)" "reflects desired (files d) cur"
    and "\<forall>(fk, target) \<in> set es. hm_get desired fk = Some target" "distinct (map fst es)"
  shows "\<exists>cur' changed' d'. io_fold (set_step client desired gateway) es (cur, changed) d = (Inr (cur', changed'), d')
    \<and> readable desired (files d')
    \<and> (\<forall>fk. stored_value desired (files d') fk =
        (case hm_get es fk of Some (Some v) \<Rightarrow> Some v | _ \<Rightarrow> stored_value desired (files d) fk))"
  using assms(4-7)
proof (induction es arbitrary: cur changed d)
  case (Cons e es)
  obtain f k target where e: "e = ((f, k), target)" by (metis surj_pair)
  obtain cur1 ch1 d1 where one: "set_step client desired gateway e (cur, changed) d = (Inr (cur1, ch1), d1)"
    "readable desired (files d1)" "reflects desired (files d1) cur1"
    "\<forall>fk. stored_value desired (files d1) fk =
        (if fk = (f, k) \<and> target \<noteq> None then target else stored_value desired (files d) fk)"
    using set_step_works [OF assms(1-3) Cons.prems(1,2), of f k target changed] Cons.prems(3) e by auto
  obtain cur2 ch2 d2 where two: "io_fold (set_step client desired gateway) es (cur1, ch1) d1 = (Inr (cur2, ch2), d2)"
    "readable desired (files d2)"
    "\<forall>fk. stored_value desired (files d2) fk =
        (case hm_get es fk of Some (Some v) \<Rightarrow> Some v | _ \<Rightarrow> stored_value desired (files d1) fk)"
    using Cons.IH [OF one(2,3), of ch1] Cons.prems(3,4) by auto
  have "hm_get es (f, k) = None" using Cons.prems(4) e by (simp add: map_of_eq_None_iff)
  then have "stored_value desired (files d2) fk =
      (case hm_get (e # es) fk of Some (Some v) \<Rightarrow> Some v | _ \<Rightarrow> stored_value desired (files d) fk)" for fk
    using spec [OF one(4), of fk] spec [OF two(3), of fk] e
    by (cases "fk = (f, k)"; cases target) (simp_all split: option.splits)
  moreover have "io_fold (set_step client desired gateway) (e # es) (cur, changed) d = (Inr (cur2, ch2), d2)"
    using one(1) two(1) by (simp add: io_bind_def)
  ultimately show ?case using two(2) by blast
qed auto

lemma deletion_files_iff:
  assumes "reflects desired files cur" "bt_ok desired"
  shows "f \<in> set (deletion_files desired cur) \<longleftrightarrow>
    (\<exists>k. hm_get desired (f, k) = Some None \<and> stored_value desired files (f, k) \<noteq> None)"
proof -
  have val: "hm_get desired fk \<noteq> None \<Longrightarrow> hm_get (snap_values cur) fk = Some (stored_value desired files fk)" for fk
    using assms(1) unfolding reflects_def by blast
  have mem: "(fk, t) \<in> set desired \<longleftrightarrow> hm_get desired fk = Some t" for fk t
    using bt_distinct [OF assms(2)] by simp
  have "f \<in> set (deletion_files desired cur) \<longleftrightarrow>
      (\<exists>k. ((f, k), None) \<in> set desired \<and> (\<exists>v. hm_get (snap_values cur) (f, k) = Some (Some v)))"
    by (force simp: deletion_files_def)
  then show ?thesis using val by (auto simp: mem)
qed

lemma deletion_files_required:
  assumes "reflects desired files cur" "bt_ok desired"
  shows "set (deletion_files desired cur) \<subseteq> set (required_files desired)"
proof
  fix f
  assume "f \<in> set (deletion_files desired cur)"
  then obtain k where "hm_get desired (f, k) = Some None" using deletion_files_iff [OF assms] by blast
  then show "f \<in> set (required_files desired)" using required_key [of desired f k] by simp
qed

text \<open>C14. With a controller that keeps its contract, reconciliation always succeeds from a state
  whose requested files are present and unambiguous, and in the files it leaves every managed
  key has its desired value or is absent as desired, while every other key of every file keeps
  the value it had.\<close>

theorem reconcile_converges:
  assumes "read_law client desired gateway files" "file_law client gateway files"
    and "key_law client desired gateway files"
    and "bt_ok desired" and "readable desired (files d)"
  shows "\<exists>changed d'. reconcile_config client desired gateway d = (Inr changed, d')
    \<and> readable desired (files d')
    \<and> (\<forall>fk. stored_value desired (files d') fk =
        (case hm_get desired fk of Some target \<Rightarrow> target | None \<Rightarrow> stored_value desired (files d) fk))"
proof -
  note laws = assms(1-4)
  obtain cur where cur: "read_config client desired gateway d = (Inr cur, d)" "reflects desired (files d) cur"
    using read_reflects [OF laws(1,4) assms(5)] by blast
  define fs where "fs = deletion_files desired cur"
  have fs: "f \<in> set fs \<longleftrightarrow> (\<exists>k. hm_get desired (f, k) = Some None \<and> stored_value desired (files d) (f, k) \<noteq> None)" for f
    using cur(2) laws(4) unfolding fs_def by (rule deletion_files_iff)
  have "set fs \<subseteq> set (required_files desired)"
    using deletion_files_required [OF cur(2) laws(4)] by (simp add: fs_def)
  from delete_loop_works [OF laws(1,2,4) assms(5) cur(2) this, of False]
  obtain cur1 ch1 d1 where one: "io_fold (delete_step client desired gateway) fs (cur, False) d = (Inr (cur1, ch1), d1)"
    "readable desired (files d1)" "reflects desired (files d1) cur1"
    and v1: "\<forall>f k. stored_value desired (files d1) (f, k) =
        (if f \<in> set fs \<and> hm_get desired (f, k) = Some None then None else stored_value desired (files d) (f, k))"
    by blast
  have "\<forall>(fk, target) \<in> set desired. hm_get desired fk = Some target" "distinct (map fst desired)"
    using bt_distinct [OF laws(4)] by auto
  from set_loop_works [OF laws(1,3,4) one(2,3) this, of ch1]
  obtain cur2 ch2 d2 where two: "io_fold (set_step client desired gateway) desired (cur1, ch1) d1 = (Inr (cur2, ch2), d2)"
    "readable desired (files d2)"
    and v2: "\<forall>fk. stored_value desired (files d2) fk =
        (case hm_get desired fk of Some (Some v) \<Rightarrow> Some v | _ \<Rightarrow> stored_value desired (files d1) fk)"
    by blast
  have val: "stored_value desired (files d2) fk =
      (case hm_get desired fk of Some target \<Rightarrow> target | None \<Rightarrow> stored_value desired (files d) fk)" for fk
  proof -
    obtain f k where fk: "fk = (f, k)" by (cases fk)
    have "hm_get desired (f, k) = Some None \<Longrightarrow> stored_value desired (files d1) (f, k) = None"
      using spec [OF spec [OF v1, of f], of k] fs [of f] by auto
    then show ?thesis
      using spec [OF v2, of fk] spec [OF spec [OF v1, of f], of k] by (auto simp: fk split: option.splits)
  qed
  obtain final where final: "read_config client desired gateway d2 = (Inr final, d2)" "reflects desired (files d2) final"
    using read_reflects [OF laws(1,4) two(2)] by blast
  have "hm_get (snap_values final) fk = Some target" if "(fk, target) \<in> set desired" for fk target
  proof -
    have "hm_get desired fk = Some target" using that bt_distinct [OF laws(4)] by simp
    then show ?thesis using final(2) val [of fk] by (cases fk) (simp add: reflects_def)
  qed
  then have "config_matches final desired" by (auto simp: config_matches_def list_all_iff)
  then have "reconcile_config client desired gateway d = (Inr ch2, d2)"
    using cur(1) one(1) two(1) final(1) by (simp add: reconcile_config_def io_bind_def fs_def)
  with two(2) val show ?thesis by blast
qed

text \<open>A controller over a map of files that keeps the contract for one managed file: it never
  acknowledges a file write, and a key write puts the record first and drops the old one.\<close>

definition sample_desired :: config_entries where
  "sample_desired = [((''cfg'', ''A''), Some ''1''), ((''cfg'', ''B''), None)]"

definition sample_put :: "string \<Rightarrow> string \<Rightarrow> string \<Rightarrow> string" where
  "sample_put k v content = concat ((k @ ''='' @ v @ [LF]) #
    filter (\<lambda>l. \<not> (case line_key l of None \<Rightarrow> False | Some k' \<Rightarrow> k' = k)) (split_inclusive content))"

definition sample_controller :: "(string \<Rightarrow> string option) Nmxc" where
  "sample_controller = \<lparr>
    get_static_config_files = (\<lambda>fs _ d. (Inr (Some (Some (map (\<lambda>f. (f, the (d f))) fs))), d)),
    set_static_config = (\<lambda>f k v _ d. (True, d(f \<mapsto> sample_put k v (the (d f))))),
    set_static_config_file = (\<lambda>f content _ d. (False, d(f \<mapsto> content))) \<rparr>"

definition sample_files :: "string \<Rightarrow> string option" where
  "sample_files f = (if f = ''cfg'' then Some (''A=0'' @ [LF] @ ''B = 2'' @ [LF] @ ''C 3'') else None)"

lemma sample_key_law: "key_law sample_controller sample_desired gateway (\<lambda>d. d)"
proof -
  have "\<exists>content' ds'. d(''cfg'' \<mapsto> sample_put ''A'' ''1'' content) = d(''cfg'' \<mapsto> content')
      \<and> managed_directives ''cfg'' content' sample_desired = Inr ds'
      \<and> (\<forall>k'. directive_value ds' k' = (if k' = ''A'' then Some ''1'' else directive_value ds k'))"
    if "managed_directives ''cfg'' content sample_desired = Inr ds" for d :: "string \<Rightarrow> string option" and content ds
  proof -
    let ?l = "''A'' @ ''='' @ ''1'' @ [LF]"
    let ?ls = "filter (\<lambda>l. \<not> (case line_key l of None \<Rightarrow> False | Some k' \<Rightarrow> k' = ''A'')) (split_inclusive content)"
    have line: "is_record_line ?l" "split_directive (trim ?l) = Inr (''A'', ''1'')" "owned_value ''1'' = Inr ''1''"
      "hm_get sample_desired (''cfg'', ''A'') \<noteq> None" by code_simp+
    have "physical_lines (?l # ?ls)"
      by (simp add: physical_filter physical_split_inclusive) code_simp
    then have lines: "split_inclusive (sample_put ''A'' ''1'' content) = ?l # ?ls"
      unfolding sample_put_def by (rule split_inclusive_concat)
    have "scan_lines ''cfg'' sample_desired 0 [] (split_inclusive content) = Inr ds"
      using that by (simp add: managed_directives_scan)
    from scan_filter [OF this, where P = "\<lambda>k. k = ''A''" and seen' = "[''A'']" and offset' = "length ?l"]
    obtain ds0 where "scan_lines ''cfg'' sample_desired (length ?l) [''A''] ?ls = Inr ds0"
      "\<forall>k. directive_value ds0 k = (if k = ''A'' then None else directive_value ds k)" by auto
    then show ?thesis using line
      by (auto simp: managed_directives_scan lines simp del: append.simps)
  qed
  then show ?thesis
    by (auto simp: key_law_def sample_controller_def sample_desired_def split: if_splits)
qed

theorem reconcile_converges_witness:
  "\<exists>changed d'. reconcile_config sample_controller sample_desired ''gw'' sample_files = (Inr changed, d')
    \<and> stored_value sample_desired d' (''cfg'', ''A'') = Some ''1''
    \<and> stored_value sample_desired d' (''cfg'', ''B'') = None
    \<and> stored_value sample_desired d' (''cfg'', ''C'') = Some ''3''"
proof -
  have laws: "read_law sample_controller sample_desired ''gw'' (\<lambda>d. d)" "file_law sample_controller ''gw'' (\<lambda>d. d)"
    by (simp_all add: read_law_def file_law_def sample_controller_def)
  have ok: "bt_ok sample_desired" "readable sample_desired sample_files" by code_simp+
  have c: "stored_value sample_desired sample_files (''cfg'', ''C'') = Some ''3''" by code_simp
  have "hm_get sample_desired (''cfg'', ''A'') = Some (Some ''1'')" "hm_get sample_desired (''cfg'', ''B'') = Some None"
    "hm_get sample_desired (''cfg'', ''C'') = None" by (simp_all add: sample_desired_def)
  with reconcile_converges [OF laws sample_key_law ok(1), of sample_files] ok(2) c show ?thesis by auto
qed

end
