(* ===== verification/Node_Types.thy ===== *)
theory Node_Types
  imports Prelude
begin

text \<open>
  The node types of the domain (\<open>domain/node.rs\<close>): the sixteen hardware types with their
  stable names, and the tables derived from them, the device kind, the product family, the
  firmware-update profile and the time limit of a device-info read.  The tables are total
  functions on the type, as the exhaustive matches of the source are; the lemmas show that the
  stable names identify the types and that the tables agree with each other.
\<close>

datatype NodeType =
    ComputeGb200Nvidia
  | ComputeGb200Wiwynn
  | ComputeGb200Dell
  | PowershelfGb200Liteon
  | SwitchGb200Nvidia
  | PowershelfGb200Delta
  | ComputeGb300Nvidia
  | SwitchGb300Nvidia
  | PowershelfGb300Liteon
  | PowershelfGb300Delta
  | ComputeGb300Lenovo
  | ComputeGb300Supermicro
  | ComputeVrnvl72Nvidia
  | SwitchVrnvl72Nvidia
  | PowershelfVrnvl72Liteon
  | PowershelfVrnvl72Delta

datatype NodeKind = Compute | Powershelf | Switch

datatype ProductFamily = Gb200 | Gb300 | Vrnvl72

datatype NvfwupdServerProfile =
    ComputeGb200
  | ComputeGb300
  | ComputeVrnvl72
  | PowershelfProfile
  | SwitchGb200
  | SwitchGb300
  | SwitchVrnvl72

definition from_stable_name :: "string \<Rightarrow> NodeType option" where
  "from_stable_name value =
    (if value = ''compute_gb200_nvidia'' then Some ComputeGb200Nvidia
     else if value = ''compute_gb200_wiwynn'' then Some ComputeGb200Wiwynn
     else if value = ''compute_gb200_dell'' then Some ComputeGb200Dell
     else if value = ''powershelf_gb200_liteon'' then Some PowershelfGb200Liteon
     else if value = ''switch_gb200_nvidia'' then Some SwitchGb200Nvidia
     else if value = ''powershelf_gb200_delta'' then Some PowershelfGb200Delta
     else if value = ''compute_gb300_nvidia'' then Some ComputeGb300Nvidia
     else if value = ''switch_gb300_nvidia'' then Some SwitchGb300Nvidia
     else if value = ''powershelf_gb300_liteon'' then Some PowershelfGb300Liteon
     else if value = ''powershelf_gb300_delta'' then Some PowershelfGb300Delta
     else if value = ''compute_gb300_lenovo'' then Some ComputeGb300Lenovo
     else if value = ''compute_gb300_supermicro'' then Some ComputeGb300Supermicro
     else if value = ''compute_vrnvl72_nvidia'' then Some ComputeVrnvl72Nvidia
     else if value = ''switch_vrnvl72_nvidia'' then Some SwitchVrnvl72Nvidia
     else if value = ''powershelf_vrnvl72_liteon'' then Some PowershelfVrnvl72Liteon
     else if value = ''powershelf_vrnvl72_delta'' then Some PowershelfVrnvl72Delta
     else None)"

fun as_str :: "NodeType \<Rightarrow> string" where
  "as_str ComputeGb200Nvidia = ''compute_gb200_nvidia''"
| "as_str ComputeGb200Wiwynn = ''compute_gb200_wiwynn''"
| "as_str ComputeGb200Dell = ''compute_gb200_dell''"
| "as_str PowershelfGb200Liteon = ''powershelf_gb200_liteon''"
| "as_str SwitchGb200Nvidia = ''switch_gb200_nvidia''"
| "as_str PowershelfGb200Delta = ''powershelf_gb200_delta''"
| "as_str ComputeGb300Nvidia = ''compute_gb300_nvidia''"
| "as_str SwitchGb300Nvidia = ''switch_gb300_nvidia''"
| "as_str PowershelfGb300Liteon = ''powershelf_gb300_liteon''"
| "as_str PowershelfGb300Delta = ''powershelf_gb300_delta''"
| "as_str ComputeGb300Lenovo = ''compute_gb300_lenovo''"
| "as_str ComputeGb300Supermicro = ''compute_gb300_supermicro''"
| "as_str ComputeVrnvl72Nvidia = ''compute_vrnvl72_nvidia''"
| "as_str SwitchVrnvl72Nvidia = ''switch_vrnvl72_nvidia''"
| "as_str PowershelfVrnvl72Liteon = ''powershelf_vrnvl72_liteon''"
| "as_str PowershelfVrnvl72Delta = ''powershelf_vrnvl72_delta''"

fun kind :: "NodeType \<Rightarrow> NodeKind" where
  "kind ComputeGb200Nvidia = Compute"
| "kind ComputeGb200Wiwynn = Compute"
| "kind ComputeGb200Dell = Compute"
| "kind ComputeGb300Nvidia = Compute"
| "kind ComputeGb300Lenovo = Compute"
| "kind ComputeGb300Supermicro = Compute"
| "kind ComputeVrnvl72Nvidia = Compute"
| "kind PowershelfGb200Liteon = Powershelf"
| "kind PowershelfGb200Delta = Powershelf"
| "kind PowershelfGb300Liteon = Powershelf"
| "kind PowershelfGb300Delta = Powershelf"
| "kind PowershelfVrnvl72Liteon = Powershelf"
| "kind PowershelfVrnvl72Delta = Powershelf"
| "kind SwitchGb200Nvidia = Switch"
| "kind SwitchGb300Nvidia = Switch"
| "kind SwitchVrnvl72Nvidia = Switch"

definition supports_flint_inband_firmware :: "NodeType \<Rightarrow> bool" where
  "supports_flint_inband_firmware t \<longleftrightarrow> t = ComputeGb200Nvidia \<or> t = ComputeGb200Wiwynn"

definition has_recovery_flow :: "NodeType \<Rightarrow> bool" where
  "has_recovery_flow t \<longleftrightarrow> t = ComputeGb200Nvidia"

fun product_family :: "NodeType \<Rightarrow> ProductFamily" where
  "product_family ComputeGb200Nvidia = Gb200"
| "product_family ComputeGb200Wiwynn = Gb200"
| "product_family ComputeGb200Dell = Gb200"
| "product_family PowershelfGb200Liteon = Gb200"
| "product_family SwitchGb200Nvidia = Gb200"
| "product_family PowershelfGb200Delta = Gb200"
| "product_family ComputeGb300Nvidia = Gb300"
| "product_family SwitchGb300Nvidia = Gb300"
| "product_family PowershelfGb300Liteon = Gb300"
| "product_family PowershelfGb300Delta = Gb300"
| "product_family ComputeGb300Lenovo = Gb300"
| "product_family ComputeGb300Supermicro = Gb300"
| "product_family ComputeVrnvl72Nvidia = Vrnvl72"
| "product_family SwitchVrnvl72Nvidia = Vrnvl72"
| "product_family PowershelfVrnvl72Liteon = Vrnvl72"
| "product_family PowershelfVrnvl72Delta = Vrnvl72"

definition uses_host_management_endpoint :: "NodeType \<Rightarrow> bool" where
  "uses_host_management_endpoint t \<longleftrightarrow> kind t = Switch"

fun nvfwupd_server_profile :: "NodeType \<Rightarrow> NvfwupdServerProfile" where
  "nvfwupd_server_profile ComputeGb200Nvidia = ComputeGb200"
| "nvfwupd_server_profile ComputeGb200Wiwynn = ComputeGb200"
| "nvfwupd_server_profile ComputeGb200Dell = ComputeGb200"
| "nvfwupd_server_profile ComputeGb300Nvidia = ComputeGb300"
| "nvfwupd_server_profile ComputeGb300Lenovo = ComputeGb300"
| "nvfwupd_server_profile ComputeGb300Supermicro = ComputeGb300"
| "nvfwupd_server_profile ComputeVrnvl72Nvidia = ComputeVrnvl72"
| "nvfwupd_server_profile PowershelfGb200Liteon = PowershelfProfile"
| "nvfwupd_server_profile PowershelfGb200Delta = PowershelfProfile"
| "nvfwupd_server_profile PowershelfGb300Liteon = PowershelfProfile"
| "nvfwupd_server_profile PowershelfGb300Delta = PowershelfProfile"
| "nvfwupd_server_profile PowershelfVrnvl72Liteon = PowershelfProfile"
| "nvfwupd_server_profile PowershelfVrnvl72Delta = PowershelfProfile"
| "nvfwupd_server_profile SwitchGb200Nvidia = SwitchGb200"
| "nvfwupd_server_profile SwitchGb300Nvidia = SwitchGb300"
| "nvfwupd_server_profile SwitchVrnvl72Nvidia = SwitchVrnvl72"

fun rack_type :: "ProductFamily \<Rightarrow> string" where
  "rack_type Gb200 = ''NVL_GB200''"
| "rack_type Gb300 = ''NVL_GB300''"
| "rack_type Vrnvl72 = ''NVL_VRNVL72''"

fun model :: "ProductFamily \<Rightarrow> string" where
  "model Gb200 = ''GB200 NVL''"
| "model Gb300 = ''GB300 NVL''"
| "model Vrnvl72 = ''VR NVL72''"

text \<open>Durations are in nanoseconds.\<close>

definition COMPUTE_DEVICE_INFO_FETCH_TIMEOUT :: nat where
  "COMPUTE_DEVICE_INFO_FETCH_TIMEOUT = 300 * 10 ^ 9"

definition SWITCH_DEVICE_INFO_FETCH_TIMEOUT :: nat where
  "SWITCH_DEVICE_INFO_FETCH_TIMEOUT = 90 * 10 ^ 9"

definition device_info_fetch_timeout :: "NodeType \<Rightarrow> nat option" where
  "device_info_fetch_timeout t =
    (case kind t of
      Compute \<Rightarrow> Some COMPUTE_DEVICE_INFO_FETCH_TIMEOUT
    | Switch \<Rightarrow> Some SWITCH_DEVICE_INFO_FETCH_TIMEOUT
    | Powershelf \<Rightarrow> None)"


section \<open>The names and the tables\<close>

lemma from_stable_name_as_str [simp]: "from_stable_name (as_str t) = Some t"
  by (cases t) (simp_all add: from_stable_name_def)

lemma from_stable_name_Some: "from_stable_name s = Some t \<Longrightarrow> s = as_str t"
  unfolding from_stable_name_def by (auto split: if_splits)

lemma as_str_inj: "as_str t = as_str u \<longleftrightarrow> t = u"
  by (metis from_stable_name_as_str option.inject)

text \<open>The firmware-update profile determines the kind, and the product family of every
  device but the power shelves.\<close>

lemma profile_kind:
  "nvfwupd_server_profile t = nvfwupd_server_profile u \<Longrightarrow> kind t = kind u"
  by (cases t; cases u; simp)

lemma profile_family:
  "nvfwupd_server_profile t = nvfwupd_server_profile u \<Longrightarrow> kind t \<noteq> Powershelf \<Longrightarrow>
    product_family t = product_family u"
  by (cases t; cases u; simp)

lemma recovery_flow_compute: "has_recovery_flow t \<Longrightarrow> kind t = Compute"
  by (simp add: has_recovery_flow_def)

end
