(* ===== verification/Fabric_Layout.thy ===== *)
theory Fabric_Layout
  imports Node_Types Managed_Config
begin

text \<open>
  The fabric layout configuration: positions, index terms, grouping and link rules
  (\<open>config/fabric_layout/calculation.rs\<close>), the controller rules of a profile
  (\<open>config/fabric_layout/controller.rs\<close>), and the profiles and the catalogue
  (\<open>config/fabric_layout.rs\<close>).  A \<open>u32\<close> is a 32-bit word and an \<open>i64\<close> an integer whose
  checked operations fail outside the range; a \<open>BTreeSet\<close> is a sorted list without
  duplicates.  The size of the serialized configuration and its digest come from libraries
  and are parameters.
\<close>

section \<open>Numbers and sets of the standard library\<close>

definition i64_range :: "int \<Rightarrow> bool" where
  "i64_range n \<longleftrightarrow> - (2 ^ 63) \<le> n \<and> n < 2 ^ 63"

definition checked_i64 :: "int \<Rightarrow> int option" where
  "checked_i64 n = (if i64_range n then Some n else None)"

text \<open>\<open>str::parse::<u32>\<close>: decimal digits, at least one, after an optional plus sign, with a
  value that fits.\<close>

definition parse_u32 :: "string \<Rightarrow> u32 option" where
  "parse_u32 s =
    (let ds = (case s of c # cs \<Rightarrow> if c = CHR ''+'' then cs else s | [] \<Rightarrow> s) in
     if ds = [] then None
     else case parse_digits 0 ds of
       None \<Rightarrow> None
     | Some n \<Rightarrow> if n < 2 ^ 32 then Some (word_of_nat n) else None)"

definition show_u32 :: "u32 \<Rightarrow> string" where
  "show_u32 w = show_nat (unat w)"

definition canonical_u32 :: "string \<Rightarrow> bool" where
  "canonical_u32 s \<longleftrightarrow> (case parse_u32 s of None \<Rightarrow> False | Some n \<Rightarrow> show_u32 n = s)"

definition canonical_positive_u32 :: "string \<Rightarrow> bool" where
  "canonical_positive_u32 s \<longleftrightarrow> (case parse_u32 s of None \<Rightarrow> False | Some n \<Rightarrow> n > 0 \<and> show_u32 n = s)"

definition bs_insert :: "'a::linorder \<Rightarrow> 'a list \<Rightarrow> 'a list" where
  "bs_insert x xs = (if x \<in> set xs then xs else insort x xs)"

definition bs_ok :: "'a::linorder list \<Rightarrow> bool" where
  "bs_ok xs \<longleftrightarrow> sorted_wrt (<) xs"

definition strip_pre :: "string \<Rightarrow> string \<Rightarrow> string option" where
  "strip_pre p s = (if take (length p) s = p then Some (drop (length p) s) else None)"

definition located :: "string \<Rightarrow> nat \<Rightarrow> string" where
  "located field index = field @ ''['' @ show_nat index @ '']''"

text \<open>The errors of an inner call, prefixed.\<close>

definition map_err :: "('e \<Rightarrow> 'f) \<Rightarrow> 'e + 'a \<Rightarrow> 'f + 'a" where
  "map_err f r = (case r of Inl e \<Rightarrow> Inl (f e) | Inr x \<Rightarrow> Inr x)"


section \<open>Positions and link states\<close>

datatype FabricLinkState = Up | Down

datatype FabricPosition = FabricPosition (tray_index: u32) (slot_number: u32)

instantiation FabricPosition :: linorder
begin

definition less_eq_FabricPosition :: "FabricPosition \<Rightarrow> FabricPosition \<Rightarrow> bool" where
  "less_eq_FabricPosition p q \<longleftrightarrow>
    tray_index p < tray_index q \<or> tray_index p = tray_index q \<and> slot_number p \<le> slot_number q"

definition less_FabricPosition :: "FabricPosition \<Rightarrow> FabricPosition \<Rightarrow> bool" where
  "less_FabricPosition p q \<longleftrightarrow>
    tray_index p < tray_index q \<or> tray_index p = tray_index q \<and> slot_number p < slot_number q"

instance
  by standard (auto simp: less_eq_FabricPosition_def less_FabricPosition_def FabricPosition.expand)

end


section \<open>Index terms\<close>

datatype Coordinate = TrayIndex | SlotNumber

record IndexTerm =
  it_node :: NodeKind
  it_coordinate :: Coordinate
  it_divisor :: u32
  it_modulus :: "u32 option"
  it_remap :: "(string, u32) hmap option"
  it_multiplier :: int

definition index_term_validate :: "IndexTerm \<Rightarrow> string + unit" where
  "index_term_validate t =
    (if it_node t = Powershelf then Inl ''node: must be compute or switch''
     else if it_divisor t = 0 then Inl ''divisor: must be positive''
     else if it_modulus t = Some 0 then Inl ''modulus: must be positive''
     else if (case it_remap t of None \<Rightarrow> False
        | Some m \<Rightarrow> m = [] \<or> list_ex (\<lambda>key. \<not> canonical_u32 key) (map fst m))
     then Inl ''remap: must be nonempty with canonical decimal u32 keys''
     else Inr ())"

definition checked_div :: "u32 \<Rightarrow> u32 \<Rightarrow> u32 option" where
  "checked_div a b = (if b = 0 then None else Some (a div b))"

definition checked_rem :: "u32 \<Rightarrow> u32 \<Rightarrow> u32 option" where
  "checked_rem a b = (if b = 0 then None else Some (a mod b))"

definition ok_or :: "'e \<Rightarrow> 'a option \<Rightarrow> 'e + 'a" where
  "ok_or e x = (case x of None \<Rightarrow> Inl e | Some v \<Rightarrow> Inr v)"

definition evaluate :: "IndexTerm \<Rightarrow> FabricPosition \<Rightarrow> FabricPosition \<Rightarrow> string + int" where
  "evaluate t compute switch =
    bind_result
      (case it_node t of
        Compute \<Rightarrow> Inr compute
      | Switch \<Rightarrow> Inr switch
      | Powershelf \<Rightarrow> Inl ''node: must be compute or switch'') (\<lambda>position.
    let coordinate = (case it_coordinate t of
        TrayIndex \<Rightarrow> tray_index position | SlotNumber \<Rightarrow> slot_number position) in
    bind_result (ok_or ''divisor: must be positive'' (checked_div coordinate (it_divisor t))) (\<lambda>quotient.
    bind_result
      (case it_modulus t of
        None \<Rightarrow> Inr quotient
      | Some modulus \<Rightarrow> ok_or ''modulus: must be positive'' (checked_rem quotient modulus)) (\<lambda>transformed.
    bind_result
      (case it_remap t of
        None \<Rightarrow> Inr transformed
      | Some remap \<Rightarrow>
          ok_or ''remap: does not cover a supplied coordinate'' (hm_get remap (show_u32 transformed))) (\<lambda>mapped.
    ok_or ''multiplier: arithmetic overflow'' (checked_i64 (uint mapped * it_multiplier t))))))"


section \<open>Grouping\<close>

record DiscoveredGroup =
  dg_computes :: "FabricPosition list"
  dg_switches :: "FabricPosition list"

record FabricGrouping =
  fg_compute :: IndexTerm
  fg_switch :: IndexTerm

definition grouping_validate :: "FabricGrouping \<Rightarrow> string + unit" where
  "grouping_validate g =
    bind_result (index_term_validate (fg_compute g)) (\<lambda>_.
    bind_result (index_term_validate (fg_switch g)) (\<lambda>_.
    if it_node (fg_compute g) \<noteq> Compute \<or> it_node (fg_switch g) \<noteq> Switch
    then Inl ''grouping transforms must use coordinates of their declared node role''
    else Inr ()))"

type_synonym position_groups = "(int, FabricPosition list) hmap"

definition group_step :: "IndexTerm \<Rightarrow> FabricPosition \<Rightarrow> position_groups \<Rightarrow> string + position_groups" where
  "group_step t position groups =
    bind_result (evaluate t position position) (\<lambda>key.
      Inr (bt_put key (bs_insert position (hm_or [] groups key)) groups))"

fun pair_groups :: "position_groups \<Rightarrow> position_groups \<Rightarrow> DiscoveredGroup list" where
  "pair_groups [] compute_groups = []"
| "pair_groups ((key, switches) # switch_groups) compute_groups =
    (case hm_get compute_groups key of
      None \<Rightarrow> pair_groups switch_groups compute_groups
    | Some computes \<Rightarrow>
        \<lparr> dg_computes = computes, dg_switches = switches \<rparr>
        # pair_groups switch_groups (hm_del key compute_groups))"

definition resolve ::
  "FabricGrouping \<Rightarrow> FabricPosition list \<Rightarrow> FabricPosition list \<Rightarrow> string + DiscoveredGroup list"
where
  "resolve g computes switches =
    bind_result (grouping_validate g) (\<lambda>_.
    bind_result (fold_result (group_step (fg_compute g)) computes []) (\<lambda>compute_groups.
    bind_result (fold_result (group_step (fg_switch g)) switches []) (\<lambda>switch_groups.
    Inr (pair_groups switch_groups compute_groups))))"


section \<open>Link rules\<close>

record LinkRule =
  lr_prefix :: string
  lr_base :: int
  lr_terms :: "IndexTerm list"
  lr_offsets :: "int list"
  lr_width :: u32
  lr_state :: FabricLinkState

type_synonym link_states = "(string, FabricLinkState) hmap"
type_synonym link_targets = "link_states \<times> string list"

definition term_step :: "FabricPosition \<Rightarrow> FabricPosition \<Rightarrow> nat \<times> IndexTerm \<Rightarrow> int \<Rightarrow> string + int" where
  "term_step compute switch = (\<lambda>(index, term) acc.
    bind_result (map_err (\<lambda>e. located ''terms'' index @ ''.'' @ e) (evaluate term compute switch)) (\<lambda>value.
    ok_or (located ''terms'' index @ '': arithmetic overflow while adding to base'') (checked_i64 (acc + value))))"

definition first_number :: "LinkRule \<Rightarrow> FabricPosition \<Rightarrow> FabricPosition \<Rightarrow> string + int" where
  "first_number rule compute switch =
    fold_result (term_step compute switch) (enumerate 0 (lr_terms rule)) (lr_base rule)"

definition u32_try_from :: "int \<Rightarrow> u32 option" where
  "u32_try_from n = (if 0 \<le> n \<and> n < 2 ^ 32 then Some (word_of_int n) else None)"

definition lane_step :: "LinkRule \<Rightarrow> nat \<Rightarrow> int \<Rightarrow> nat \<Rightarrow> link_targets \<Rightarrow> string + link_targets" where
  "lane_step rule index start lane = (\<lambda>(states, assigned).
    bind_result (ok_or (located ''offsets'' index @ '': arithmetic overflow within block'')
      (checked_i64 (start + int lane))) (\<lambda>n.
    bind_result (ok_or (located ''offsets'' index @ '': interface number is out of range'') (u32_try_from n)) (\<lambda>number.
    if number = 0 then Inl (located ''offsets'' index @ '': interface number must be positive'')
    else let id = lr_prefix rule @ show_u32 number in
      if id \<in> set assigned then Inl (located ''offsets'' index @ '': assigns an interface more than once'')
      else case hm_get states id of
        None \<Rightarrow> Inl (located ''offsets'' index @ '': targets an uncontrolled interface'')
      | Some _ \<Rightarrow> Inr (bt_put id (lr_state rule) states, bs_insert id assigned))))"

definition offset_step :: "LinkRule \<Rightarrow> int \<Rightarrow> nat \<times> int \<Rightarrow> link_targets \<Rightarrow> string + link_targets" where
  "offset_step rule first = (\<lambda>(index, offset) targets.
    bind_result (ok_or (located ''offsets'' index @ '': arithmetic overflow'') (checked_i64 (first + offset))) (\<lambda>start.
    fold_result (lane_step rule index start) [0..<unat (lr_width rule)] targets))"

definition rule_apply ::
  "LinkRule \<Rightarrow> FabricPosition \<Rightarrow> FabricPosition \<Rightarrow> link_targets \<Rightarrow> string + link_targets"
where
  "rule_apply rule compute switch targets =
    bind_result (first_number rule compute switch) (\<lambda>first.
    fold_result (offset_step rule first) (enumerate 0 (lr_offsets rule)) targets)"

record FabricLinkCalculation =
  default_state :: FabricLinkState
  link_rules :: "LinkRule list"

definition is_ascii_lowercase :: "char \<Rightarrow> bool" where
  "is_ascii_lowercase c \<longleftrightarrow> 97 \<le> (of_char c :: nat) \<and> (of_char c :: nat) \<le> 122"

definition link_rule_validate :: "nat \<Rightarrow> LinkRule \<Rightarrow> string + unit" where
  "link_rule_validate index rule =
    (if lr_prefix rule = [] \<or> \<not> list_all is_ascii_lowercase (lr_prefix rule)
     then Inl (located ''rules'' index @ ''.prefix: must contain lowercase ASCII letters'')
     else if lr_offsets rule = [] then Inl (located ''rules'' index @ ''.offsets: must be nonempty'')
     else if lr_width rule = 0 then Inl (located ''rules'' index @ ''.width: must be positive'')
     else fold_result (\<lambda>(term_index, term) _.
       map_err (\<lambda>e. located ''rules'' index @ ''.'' @ located ''terms'' term_index @ ''.'' @ e)
         (index_term_validate term)) (enumerate 0 (lr_terms rule)) ())"

definition calculation_validate :: "FabricLinkCalculation \<Rightarrow> string + unit" where
  "calculation_validate calc =
    (if link_rules calc = [] then Inl ''rules: must be nonempty''
     else fold_result (\<lambda>(index, rule) _. link_rule_validate index rule) (enumerate 0 (link_rules calc)) ())"

definition rule_step ::
  "FabricPosition \<Rightarrow> FabricPosition \<Rightarrow> nat \<times> LinkRule \<Rightarrow> link_targets \<Rightarrow> string + link_targets"
where
  "rule_step compute switch = (\<lambda>(index, rule) targets.
    map_err (\<lambda>e. located ''rules'' index @ ''.'' @ e) (rule_apply rule compute switch targets))"

definition expand_switch ::
  "FabricLinkCalculation \<Rightarrow> FabricPosition list \<Rightarrow> FabricPosition \<Rightarrow> string list \<Rightarrow> string + link_states"
where
  "expand_switch calc computes switch interfaces =
    bind_result
      (fold_result (\<lambda>compute. fold_result (rule_step compute switch) (enumerate 0 (link_rules calc)))
        computes (map (\<lambda>i. (i, default_state calc)) interfaces, []))
      (\<lambda>(states, _). Inr states)"

definition link_expand ::
  "FabricLinkCalculation \<Rightarrow> FabricPosition list \<Rightarrow> FabricPosition list \<Rightarrow> string list
   \<Rightarrow> string + (FabricPosition, link_states) hmap"
where
  "link_expand calc computes switches interfaces =
    bind_result (calculation_validate calc) (\<lambda>_.
    if computes = [] \<or> switches = [] \<or> interfaces = []
    then Inl ''link calculation inventory and interfaces must be nonempty''
    else fold_result (\<lambda>position out.
      bind_result (expand_switch calc computes position interfaces) (\<lambda>states. Inr (bt_put position states out)))
      switches [])"


section \<open>Controller rules and profiles\<close>

definition MAX_CATALOG_BYTES :: nat where "MAX_CATALOG_BYTES = 2 * 1024 * 1024"
definition MAX_PROFILES :: nat where "MAX_PROFILES = 64"
definition MAX_POSITIONS :: nat where "MAX_POSITIONS = 256"
definition MAX_OPTIONS :: nat where "MAX_OPTIONS = 256"
definition MAX_INTERFACES :: nat where "MAX_INTERFACES = 1024"
definition MAX_STATIC_CONFIG_KEYS :: nat where "MAX_STATIC_CONFIG_KEYS = 1024"

datatype FabricStaticConfigAction = SetValue string | Remove

record FabricStaticConfigTarget =
  config_file_name :: string
  config_key_name :: string
  config_action :: FabricStaticConfigAction

record FabricControllerRule =
  topology_type :: string
  static_configs :: "FabricStaticConfigTarget list"

record FabricRule =
  fr_compute_tray_count :: u32
  fr_switch_tray_count :: u32
  fr_grouping :: "FabricGrouping option"
  controller_rules :: "FabricControllerRule list"

record FabricLayoutProfile =
  switch_node_types :: "string list"
  compute_node_types :: "string list"
  physical_topology :: string
  compute_tray_count :: u32
  switch_tray_count :: u32
  full_link_states :: link_states
  fabric_rules :: "FabricRule list"
  link_calculation :: FabricLinkCalculation

definition NMX_C_FM_CONFIG_FILE :: string where "NMX_C_FM_CONFIG_FILE = ''fm_config''"
definition NMX_C_TOPOLOGY_KEY :: string where "NMX_C_TOPOLOGY_KEY = ''MNNVL_TOPOLOGY''"

definition eq_ignore_ascii_case :: "string \<Rightarrow> string \<Rightarrow> bool" where
  "eq_ignore_ascii_case a b \<longleftrightarrow> map to_ascii_lowercase a = map to_ascii_lowercase b"

definition validate_static_config_key :: "string \<Rightarrow> string \<Rightarrow> string + unit" where
  "validate_static_config_key name key =
    bind_result (validate_static_config_name name key) (\<lambda>_.
    if eq_ignore_ascii_case name NMX_C_FM_CONFIG_FILE \<and> eq_ignore_ascii_case key NMX_C_TOPOLOGY_KEY
    then Inl ''key: managed static configuration topology must use the dedicated topology field''
    else Inr ())"

type_synonym indexed_rule = "nat \<times> nat \<times> FabricRule \<times> FabricControllerRule"

definition indexed_rules :: "FabricLayoutProfile \<Rightarrow> indexed_rule list" where
  "indexed_rules p = concat (map (\<lambda>(fabric_index, fabric).
    map (\<lambda>(rule_index, rule). (fabric_index, rule_index, fabric, rule)) (enumerate 0 (controller_rules fabric)))
    (enumerate 0 (fabric_rules p)))"

definition target_key :: "FabricStaticConfigTarget \<Rightarrow> string \<times> string" where
  "target_key target = (config_file_name target, config_key_name target)"

definition managed_keys :: "indexed_rule list \<Rightarrow> (string \<times> string) list" where
  "managed_keys rules = sort_dedup (concat (map (\<lambda>(_, _, _, rule). map target_key (static_configs rule)) rules))"

definition validate_target ::
  "string \<Rightarrow> nat \<times> FabricStaticConfigTarget \<Rightarrow> (string \<times> string) list \<Rightarrow> string + (string \<times> string) list"
where
  "validate_target location = (\<lambda>(index, target) keys.
    let target_location = location @ ''.'' @ located ''static_configs'' index in
    bind_result (map_err (\<lambda>e. target_location @ ''.'' @ e)
      (validate_static_config_key (config_file_name target) (config_key_name target))) (\<lambda>_.
    bind_result
      (case config_action target of
        SetValue v \<Rightarrow> map_err (\<lambda>e. target_location @ ''.action.value: '' @ e) (validate_static_config_value v)
      | Remove \<Rightarrow> Inr ()) (\<lambda>_.
    if target_key target \<in> set keys
    then Inl (target_location @ ''.key: controller targets must be unique within each file'')
    else Inr (bs_insert (target_key target) keys))))"

text \<open>The selectors, the topologies and the topologies with a rule for the full size.\<close>

type_synonym rule_scan = "(string \<times> u32 \<times> u32) list \<times> string list \<times> string list"

definition validate_controller_rule ::
  "FabricLayoutProfile \<Rightarrow> (string \<times> string) list \<Rightarrow> indexed_rule \<Rightarrow> rule_scan \<Rightarrow> string + rule_scan"
where
  "validate_controller_rule p managed =
    (\<lambda>(fabric_index, rule_index, fabric, rule) (selectors, topologies, restoration).
      let location = located ''fabric_rules'' fabric_index @ ''.'' @ located ''controller_rules'' rule_index;
          size = (fr_compute_tray_count fabric, fr_switch_tray_count fabric) in
      bind_result (map_err (\<lambda>e. location @ ''.topology_type: '' @ e) (validate_static_config_value (topology_type rule))) (\<lambda>_.
      if (topology_type rule, size) \<in> set selectors
      then Inl (location @ ''.topology_type: controller rule topology and size selectors must be unique'')
      else bind_result (fold_result (validate_target location) (enumerate 0 (static_configs rule)) []) (\<lambda>keys.
        if keys \<noteq> managed
        then Inl (location @ ''.static_configs: controller targets must cover exactly the managed static configuration keys'')
        else Inr ((topology_type rule, size) # selectors,
          bs_insert (topology_type rule) topologies,
          if size = (compute_tray_count p, switch_tray_count p)
          then bs_insert (topology_type rule) restoration else restoration))))"

definition first_without_rules :: "FabricLayoutProfile \<Rightarrow> nat option" where
  "first_without_rules p = map_option fst (find (\<lambda>(_, fabric). controller_rules fabric = []) (enumerate 0 (fabric_rules p)))"

definition validate_controller_rules :: "FabricLayoutProfile \<Rightarrow> string + unit" where
  "validate_controller_rules p =
    (let rules = indexed_rules p in
     if rules = [] then Inr ()
     else case first_without_rules p of
       Some index \<Rightarrow> Inl (located ''fabric_rules'' index @ ''.controller_rules: at least one rule is required when the profile declares controller settings'')
     | None \<Rightarrow>
        if length rules > MAX_OPTIONS then Inl ''fabric_rules: total controller rule count exceeds 256''
        else if length (managed_keys rules) > MAX_STATIC_CONFIG_KEYS
        then Inl ''fabric_rules: managed static configuration key count exceeds 1024''
        else bind_result (fold_result (validate_controller_rule p (managed_keys rules)) rules ([], [], []))
          (\<lambda>(_, topologies, restoration).
            if topologies \<noteq> restoration
            then Inl ''fabric_rules: every controller topology requires a full-capacity restoration rule''
            else Inr ()))"

definition owned_interface :: "string \<Rightarrow> bool" where
  "owned_interface name \<longleftrightarrow>
    (case (case strip_pre ''acp'' name of Some suffix \<Rightarrow> Some suffix | None \<Rightarrow> strip_pre ''fnm'' name) of
      None \<Rightarrow> False | Some suffix \<Rightarrow> canonical_positive_u32 suffix)"

definition kind_selector :: "string list \<Rightarrow> NodeKind \<Rightarrow> string + unit" where
  "kind_selector types role =
    (if types = [] \<or> list_ex (\<lambda>name. case from_stable_name name of None \<Rightarrow> True | Some t \<Rightarrow> kind t \<noteq> role) types
     then Inl ''profile node selectors must name canonical node types of the declared role''
     else Inr ())"

definition validate_placement ::
  "FabricLayoutProfile \<Rightarrow> FabricRule \<Rightarrow> (u32 \<times> u32) list \<Rightarrow> string + (u32 \<times> u32) list"
where
  "validate_placement p placement sizes =
    (let size = (fr_compute_tray_count placement, fr_switch_tray_count placement) in
     if fr_compute_tray_count placement = 0 \<or> fr_switch_tray_count placement = 0
       \<or> fr_compute_tray_count placement > compute_tray_count p
       \<or> fr_switch_tray_count placement > switch_tray_count p
       \<or> size \<in> set sizes
     then Inl ''fabric sizes must be unique, positive, and fit within the physical inventory''
     else case (fr_grouping placement, size = (compute_tray_count p, switch_tray_count p)) of
       (Some grouping, False) \<Rightarrow> bind_result (grouping_validate grouping) (\<lambda>_. Inr (size # sizes))
     | (None, True) \<Rightarrow> Inr (size # sizes)
     | _ \<Rightarrow> Inl ''grouping is required only for smaller fabric sizes'')"

definition profile_validate :: "FabricLayoutProfile \<Rightarrow> string + unit" where
  "profile_validate p =
    (if trim (physical_topology p) = [] \<or> compute_tray_count p = 0 \<or> switch_tray_count p = 0
       \<or> unat (compute_tray_count p) + unat (switch_tray_count p) > MAX_POSITIONS
       \<or> fabric_rules p = [] \<or> length (fabric_rules p) > MAX_OPTIONS
       \<or> full_link_states p = [] \<or> length (full_link_states p) > MAX_INTERFACES
     then Inl ''profile identity, inventory, fabric rules, and interfaces must be bounded and nonempty''
     else
       bind_result (kind_selector (switch_node_types p) Switch) (\<lambda>_.
       bind_result (kind_selector (compute_node_types p) Compute) (\<lambda>_.
       if list_ex (\<lambda>id. \<not> owned_interface id) (map fst (full_link_states p))
       then Inl ''controlled interfaces must be expanded supported interface names''
       else
         bind_result (calculation_validate (link_calculation p)) (\<lambda>_.
         bind_result (fold_result (validate_placement p) (fabric_rules p) []) (\<lambda>sizes.
         if (compute_tray_count p, switch_tray_count p) \<notin> set sizes
         then Inl ''fabric rules must include the full physical inventory size''
         else validate_controller_rules p)))))"


section \<open>Interface ranges\<close>

definition range_index :: "string \<Rightarrow> string + u32" where
  "range_index text =
    (case parse_u32 text of
      None \<Rightarrow> Inl ''interface indices must be canonical positive u32 integers''
    | Some n \<Rightarrow>
        if n > 0 \<and> show_u32 n = text then Inr n
        else Inl ''interface indices must be canonical positive u32 integers'')"

definition interface_step :: "string \<Rightarrow> FabricLinkState \<Rightarrow> nat \<Rightarrow> link_states \<Rightarrow> string + link_states" where
  "interface_step prefix state n states =
    (let id = prefix @ show_nat n in
     if hm_get states id \<noteq> None then Inl ''controlled interface entries overlap''
     else Inr (bt_put id state states))"

definition expand_range ::
  "string \<Rightarrow> FabricLinkState \<Rightarrow> string \<Rightarrow> string \<Rightarrow> link_states \<Rightarrow> string + link_states"
where
  "expand_range prefix state first_text last_text states =
    bind_result (range_index first_text) (\<lambda>first.
    bind_result (range_index last_text) (\<lambda>last.
    if last < first then Inl ''interface ranges must be ascending''
    else if unat last - unat first + 1 + length states > MAX_INTERFACES
    then Inl ''expanded controlled interfaces exceed 1024''
    else fold_result (interface_step prefix state) [unat first..<Suc (unat last)] states))"

definition expand_entry :: "string \<times> FabricLinkState \<Rightarrow> link_states \<Rightarrow> string + link_states" where
  "expand_entry = (\<lambda>(expression, state) states.
    bind_result (ok_or ''controlled interfaces must use the acp or fnm prefix''
      (case strip_pre ''acp'' expression of
        Some suffix \<Rightarrow> Some (''acp'', suffix)
      | None \<Rightarrow> map_option (\<lambda>suffix. (''fnm'', suffix)) (strip_pre ''fnm'' expression))) (\<lambda>(prefix, suffix).
    case split_once (CHR ''-'') suffix of
      Some (first_text, last_text) \<Rightarrow> expand_range prefix state first_text last_text states
    | None \<Rightarrow> expand_range prefix state suffix suffix states))"

definition deserialize_full_link_states :: "(string, FabricLinkState) hmap \<Rightarrow> string + link_states" where
  "deserialize_full_link_states entries = fold_result expand_entry entries []"


section \<open>The catalogue\<close>

record FabricLayoutCatalog =
  profiles :: "FabricLayoutProfile list"
  identity :: string

definition ambiguous_with :: "FabricLayoutProfile \<Rightarrow> FabricLayoutProfile \<Rightarrow> bool" where
  "ambiguous_with p q \<longleftrightarrow>
    physical_topology p = physical_topology q \<and> list_ex (\<lambda>t. t \<in> set (switch_node_types q)) (switch_node_types p)"

fun ambiguous_profiles :: "FabricLayoutProfile list \<Rightarrow> bool" where
  "ambiguous_profiles [] \<longleftrightarrow> False"
| "ambiguous_profiles (p # ps) \<longleftrightarrow> list_ex (ambiguous_with p) ps \<or> ambiguous_profiles ps"

datatype FabricCatalogError = Invalid string

text \<open>\<open>to_vec\<close> is the JSON encoder and \<open>sha256\<close> the digest in lower-case hexadecimal.\<close>

definition from_config ::
  "(FabricLayoutProfile list \<Rightarrow> string + string) \<Rightarrow> (string \<Rightarrow> string) \<Rightarrow> FabricLayoutProfile list
   \<Rightarrow> FabricCatalogError + FabricLayoutCatalog"
where
  "from_config to_vec sha256 ps =
    (if ps = [] \<or> length ps > MAX_PROFILES then Inl (Invalid ''profile count must be 1 through 64'')
     else bind_result (map_err Invalid (to_vec ps)) (\<lambda>bytes.
       if length bytes > MAX_CATALOG_BYTES then Inl (Invalid ''document exceeds 2 MiB'')
       else bind_result
         (fold_result (\<lambda>(index, p) _.
             map_err (\<lambda>e. Invalid (located ''profiles'' index @ '': '' @ e)) (profile_validate p))
           (enumerate 0 ps) ()) (\<lambda>_.
         if ambiguous_profiles ps then Inl (Invalid ''ambiguous profile selectors'')
         else Inr \<lparr> profiles = ps, identity = sha256 bytes \<rparr>)))"

definition selects :: "string \<Rightarrow> string list \<Rightarrow> FabricLayoutProfile \<Rightarrow> bool" where
  "selects topology types p \<longleftrightarrow>
    physical_topology p = topology \<and> types \<noteq> [] \<and> list_all (\<lambda>t. t \<in> set (switch_node_types p)) types"

definition select_profile :: "FabricLayoutCatalog \<Rightarrow> string \<Rightarrow> string list \<Rightarrow> FabricLayoutProfile option" where
  "select_profile catalog topology types = find (selects topology types) (profiles catalog)"

end
