(* ===== verification/Layout_Properties.thy ===== *)
theory Layout_Properties
  imports Fabric_Layout
begin

text \<open>
  What the fabric layout calculation guarantees: grouping puts a compute and a switch
  together exactly when their transformed coordinates agree, and link expansion assigns
  exactly the interfaces of the numbering formula computed without overflow.
\<close>

section \<open>Results, sets and maps\<close>

lemma ok_or_Inr_iff [simp]: "ok_or e x = Inr v \<longleftrightarrow> x = Some v"
  by (cases x) (simp_all add: ok_or_def)

lemma map_err_Inr_iff [simp]: "map_err f r = Inr v \<longleftrightarrow> r = Inr v"
  by (cases r) (simp_all add: map_err_def)

lemma checked_i64_Some [simp]: "checked_i64 n = Some m \<longleftrightarrow> m = n \<and> i64_range n"
  by (auto simp: checked_i64_def)

lemma set_bs_insert [simp]: "set (bs_insert x xs) = insert x (set xs)"
  by (auto simp: bs_insert_def set_insort_key)

lemma bs_ok_insert: "bs_ok xs \<Longrightarrow> bs_ok (bs_insert x xs)"
  by (auto simp: bs_insert_def bs_ok_def strict_sorted_iff sorted_insort distinct_insort)

lemma bs_ok_distinct: "bs_ok xs \<Longrightarrow> distinct xs"
  by (simp add: bs_ok_def strict_sorted_iff)

lemma bs_insert_last:
  assumes "bs_ok xs" "\<forall>y \<in> set xs. y < x"
  shows "bs_insert x xs = xs @ [x]"
proof -
  have "sorted xs" "x \<notin> set xs" "\<forall>y \<in> set xs. y \<le> x"
    using assms by (auto simp: bs_ok_def strict_sorted_iff)
  then show ?thesis by (simp add: bs_insert_def sorted_insort_is_snoc)
qed

text \<open>Two ascending maps with the same lookups are the same list.\<close>

lemma bt_ext:
  assumes "bt_ok m" "bt_ok n" "map_of m = map_of n"
  shows "m = n"
proof -
  have mem: "set m = set n"
    using assms map_of_eqI bt_distinct by (metis graph_map_of_if_distinct_dom)
  then have "set (map fst m) = set (map fst n)" by simp
  then have keys: "map fst m = map fst n"
    using assms(1,2) unfolding bt_ok_def by (metis strict_sorted_equal)
  have "map snd m = map (\<lambda>k. the (map_of m k)) (map fst m)"
    using bt_distinct [OF assms(1)] by (auto simp: map_of_is_SomeI intro!: map_cong)
  moreover have "map snd n = map (\<lambda>k. the (map_of n k)) (map fst n)"
    using bt_distinct [OF assms(2)] by (auto simp: map_of_is_SomeI intro!: map_cong)
  ultimately show ?thesis using keys assms(3) by (metis zip_map_fst_snd)
qed


section \<open>Grouping\<close>

text \<open>The group of a position, its members, and the keys that occur.\<close>

lemma group_fold_ok:
  "(\<exists>gs'. fold_result (group_step t) ps gs = Inr gs') \<longleftrightarrow> (\<forall>p \<in> set ps. \<exists>k. evaluate t p p = Inr k)"
proof (induction ps arbitrary: gs)
  case (Cons p ps)
  then show ?case by (cases "evaluate t p p") (auto simp: group_step_def)
qed simp

definition members :: "IndexTerm \<Rightarrow> int \<Rightarrow> FabricPosition list \<Rightarrow> FabricPosition list" where
  "members t k ps = filter (\<lambda>p. evaluate t p p = Inr k) ps"

lemma group_fold_members:
  assumes "fold_result (group_step t) ps [] = Inr gs" "bs_ok ps"
  shows "bt_ok gs \<and> (\<forall>k. hm_get gs k = (if members t k ps = [] then None else Some (members t k ps)))"
  using assms
proof (induction ps arbitrary: gs rule: rev_induct)
  case Nil
  then show ?case by (simp add: members_def bt_ok_def)
next
  case (snoc p ps)
  obtain gs0 where gs0: "fold_result (group_step t) ps [] = Inr gs0" and step: "group_step t p gs0 = Inr gs"
    using snoc.prems(1) by (auto simp: fold_result_append bind_result_Inr_iff)
  obtain k where k: "evaluate t p p = Inr k" and gs: "gs = bt_put k (bs_insert p (hm_or [] gs0 k)) gs0"
    using step by (auto simp: group_step_def bind_result_Inr_iff)
  have less: "\<forall>q \<in> set ps. q < p" and ok: "bs_ok ps" using snoc.prems(2) by (auto simp: bs_ok_def sorted_wrt_append)
  have ih: "bt_ok gs0" "hm_get gs0 j = (if members t j ps = [] then None else Some (members t j ps))" for j
    using snoc.IH [OF gs0 ok] by auto
  have "hm_or [] gs0 k = members t k ps" by (simp add: hm_or_def ih(2))
  moreover have "bs_insert p (members t k ps) = members t k ps @ [p]"
    using less ok by (intro bs_insert_last) (auto simp: members_def bs_ok_def sorted_wrt_filter)
  ultimately have gs': "gs = bt_put k (members t k ps @ [p]) gs0" using gs by simp
  show ?case
    using bt_put_sorted [OF ih(1)] bt_get_put [OF ih(1)] k ih(2) by (auto simp: gs' members_def)
qed

lemma pair_groups_eq:
  "distinct (map fst sg) \<Longrightarrow> pair_groups sg cg =
    map (\<lambda>(k, s). \<lparr> dg_computes = the (hm_get cg k), dg_switches = s \<rparr>) (filter (\<lambda>(k, _). hm_get cg k \<noteq> None) sg)"
proof (induction sg cg rule: pair_groups.induct)
  case (2 k s sg cg)
  have other: "hm_get (hm_del k cg) j = hm_get cg j" if "(j, s) \<in> set sg" for j s
    using that 2(3) by (force simp: hm_get_del)
  have "filter (\<lambda>(j, _). hm_get (hm_del k cg) j \<noteq> None) sg = filter (\<lambda>(j, _). hm_get cg j \<noteq> None) sg"
    "map (\<lambda>(j, s). \<lparr> dg_computes = the (hm_get (hm_del k cg) j), dg_switches = s \<rparr>) (filter (\<lambda>(j, _). hm_get cg j \<noteq> None) sg)
      = map (\<lambda>(j, s). \<lparr> dg_computes = the (hm_get cg j), dg_switches = s \<rparr>) (filter (\<lambda>(j, _). hm_get cg j \<noteq> None) sg)"
    by (auto simp: other intro!: filter_cong map_cong)
  with 2 show ?case by (cases "hm_get cg k") auto
qed simp

text \<open>The keys of the switches, in ascending order, that some compute shares.\<close>

definition shared_keys :: "FabricGrouping \<Rightarrow> FabricPosition list \<Rightarrow> FabricPosition list \<Rightarrow> int list" where
  "shared_keys g computes switches =
    filter (\<lambda>k. members (fg_compute g) k computes \<noteq> [])
      (sort_dedup (map (\<lambda>s. projr (evaluate (fg_switch g) s s)) switches))"

lemma group_fold_list:
  assumes "fold_result (group_step t) ps [] = Inr gs" "bs_ok ps"
  shows "gs = map (\<lambda>k. (k, members t k ps)) (sort_dedup (map (\<lambda>p. projr (evaluate t p p)) ps))"
proof (rule bt_ext)
  note gs = group_fold_members [OF assms]
  let ?ks = "sort_dedup (map (\<lambda>p. projr (evaluate t p p)) ps)"
  have all: "\<forall>p \<in> set ps. \<exists>k. evaluate t p p = Inr k"
    using assms(1) group_fold_ok by metis
  have strict: "sorted_wrt (<) ?ks"
    by (simp add: strict_sorted_iff distinct_sort_dedup)
  show "bt_ok gs" using gs by blast
  show "bt_ok (map (\<lambda>k. (k, members t k ps)) ?ks)" using strict by (simp add: bt_ok_def comp_def)
  have "members t k ps = [] \<longleftrightarrow> k \<notin> set ?ks" for k
    using all by (force simp: members_def filter_empty_conv)
  then show "map_of gs = map_of (map (\<lambda>k. (k, members t k ps)) ?ks)"
    using gs by (auto simp: fun_eq_iff map_of_map_restrict restrict_map_def)
qed

lemma resolve_groups:
  assumes "resolve g computes switches = Inr groups" "bs_ok computes" "bs_ok switches"
  shows "groups = map (\<lambda>k. \<lparr> dg_computes = members (fg_compute g) k computes,
      dg_switches = members (fg_switch g) k switches \<rparr>) (shared_keys g computes switches)"
proof -
  obtain cg sg where cg: "fold_result (group_step (fg_compute g)) computes [] = Inr cg"
    and sg: "fold_result (group_step (fg_switch g)) switches [] = Inr sg" and groups: "groups = pair_groups sg cg"
    using assms(1) by (auto simp: resolve_def bind_result_Inr_iff)
  note c = group_fold_members [OF cg assms(2)]
  note s = group_fold_list [OF sg assms(3)]
  have "distinct (map fst sg)" using group_fold_members [OF sg assms(3)] bt_distinct by blast
  then show ?thesis
    using c by (simp add: groups pair_groups_eq s shared_keys_def filter_map comp_def cong: filter_cong)
qed

text \<open>A calculation with one rule of one lane and a grouping by tray index.\<close>

definition sample_term :: "NodeKind \<Rightarrow> IndexTerm" where
  "sample_term node = \<lparr> it_node = node, it_coordinate = TrayIndex, it_divisor = 1, it_modulus = None, it_remap = None,
    it_multiplier = 1 \<rparr>"

definition sample_grouping :: FabricGrouping where
  "sample_grouping = \<lparr> fg_compute = sample_term Compute, fg_switch = sample_term Switch \<rparr>"

definition sample_calculation :: FabricLinkCalculation where
  "sample_calculation = \<lparr> default_state = Down, link_rules = [\<lparr> lr_prefix = ''acp'', lr_base = 1,
    lr_terms = [sample_term Compute], lr_offsets = [0], lr_width = 1, lr_state = Up \<rparr>] \<rparr>"

text \<open>C27. Grouping is exact: over the discovered positions in order, it succeeds exactly when its
  transforms are valid and evaluate on every position, and then yields one group per key that
  computes and switches share, in ascending order of the keys, holding all the computes and all
  the switches with that key, in order.  So a compute and a switch share a group exactly when
  their transformed coordinates are equal, and no position is in two groups.\<close>

theorem grouping_exact:
  assumes "bs_ok computes" and "bs_ok switches"
  shows "resolve g computes switches = Inr groups \<longleftrightarrow>
    grouping_validate g = Inr ()
    \<and> (\<forall>c \<in> set computes. \<exists>k. evaluate (fg_compute g) c c = Inr k)
    \<and> (\<forall>s \<in> set switches. \<exists>k. evaluate (fg_switch g) s s = Inr k)
    \<and> groups = map (\<lambda>k. \<lparr> dg_computes = members (fg_compute g) k computes,
                           dg_switches = members (fg_switch g) k switches \<rparr>) (shared_keys g computes switches)"
proof -
  have "(\<exists>gs. resolve g computes switches = Inr gs) \<longleftrightarrow> grouping_validate g = Inr ()
      \<and> (\<exists>cg. fold_result (group_step (fg_compute g)) computes [] = Inr cg)
      \<and> (\<exists>sg. fold_result (group_step (fg_switch g)) switches [] = Inr sg)"
    by (auto simp: resolve_def bind_result_Inr_iff)
  then show ?thesis
    using resolve_groups [OF _ assms] unfolding group_fold_ok by blast
qed

theorem grouping_exact_witness:
  "resolve sample_grouping [FabricPosition 0 1, FabricPosition 1 2] [FabricPosition 1 3] =
    Inr (map (\<lambda>k. \<lparr> dg_computes = members (sample_term Compute) k [FabricPosition 0 1, FabricPosition 1 2],
                   dg_switches = members (sample_term Switch) k [FabricPosition 1 3] \<rparr>)
      (shared_keys sample_grouping [FabricPosition 0 1, FabricPosition 1 2] [FabricPosition 1 3]))"
proof -
  have ok: "bs_ok [FabricPosition 0 1, FabricPosition 1 2]" "bs_ok [FabricPosition 1 3]" by code_simp+
  have "grouping_validate sample_grouping = Inr ()"
    "\<forall>c \<in> set [FabricPosition 0 1, FabricPosition 1 2]. \<exists>k. evaluate (fg_compute sample_grouping) c c = Inr k"
    "\<forall>s \<in> set [FabricPosition 1 3]. \<exists>k. evaluate (fg_switch sample_grouping) s s = Inr k"
    by (simp_all add: sample_grouping_def sample_term_def grouping_validate_def index_term_validate_def evaluate_def
        checked_div_def checked_i64_def i64_range_def ok_or_def)
  with grouping_exact [OF ok, of sample_grouping] show ?thesis
    by (simp add: sample_grouping_def)
qed


section \<open>Link expansion\<close>

text \<open>The numbering formula over unbounded integers.\<close>

definition term_number :: "IndexTerm \<Rightarrow> FabricPosition \<Rightarrow> FabricPosition \<Rightarrow> int" where
  "term_number t compute switch =
    (let p = (if it_node t = Compute then compute else switch);
         x = uint (case it_coordinate t of TrayIndex \<Rightarrow> tray_index p | SlotNumber \<Rightarrow> slot_number p);
         q = x div uint (it_divisor t);
         r = (case it_modulus t of None \<Rightarrow> q | Some m \<Rightarrow> q mod uint m);
         y = (case it_remap t of None \<Rightarrow> r | Some m \<Rightarrow> uint (hm_or 0 m (show_nat (nat r))))
     in y * it_multiplier t)"

definition link_number :: "LinkRule \<Rightarrow> FabricPosition \<Rightarrow> FabricPosition \<Rightarrow> int \<Rightarrow> nat \<Rightarrow> int" where
  "link_number rule compute switch offset lane =
    lr_base rule + (\<Sum>t \<leftarrow> lr_terms rule. term_number t compute switch) + offset + int lane"

text \<open>The numbers that the rules emit for the computes of a switch, with the rule of each, in
  order; the interface a number names; and the assignments of states.\<close>

definition emissions ::
  "FabricLinkCalculation \<Rightarrow> FabricPosition list \<Rightarrow> FabricPosition \<Rightarrow> (LinkRule \<times> int) list"
where
  "emissions calc computes switch =
    concat (map (\<lambda>compute. concat (map (\<lambda>rule. concat (map (\<lambda>offset.
      map (\<lambda>lane. (rule, link_number rule compute switch offset lane)) [0..<unat (lr_width rule)])
      (lr_offsets rule))) (link_rules calc))) computes)"

definition link_id :: "LinkRule \<times> int \<Rightarrow> string" where
  "link_id = (\<lambda>(rule, n). lr_prefix rule @ show_nat (nat n))"

definition assignments :: "(LinkRule \<times> int) list \<Rightarrow> (string \<times> FabricLinkState) list" where
  "assignments es = map (\<lambda>e. (link_id e, lr_state (fst e))) es"

lemma evaluate_number:
  assumes "evaluate t compute switch = Inr v"
  shows "v = term_number t compute switch"
proof -
  define p where "p = (if it_node t = Compute then compute else switch)"
  define x where "x = (case it_coordinate t of TrayIndex \<Rightarrow> tray_index p | SlotNumber \<Rightarrow> slot_number p)"
  obtain q r y where q: "checked_div x (it_divisor t) = Some q"
    and r: "(case it_modulus t of None \<Rightarrow> Inr q
      | Some modulus \<Rightarrow> ok_or ''modulus: must be positive'' (checked_rem q modulus)) = Inr r"
    and y: "(case it_remap t of None \<Rightarrow> Inr r
      | Some remap \<Rightarrow> ok_or ''remap: does not cover a supplied coordinate'' (hm_get remap (show_u32 r))) = Inr y"
    and v: "v = uint y * it_multiplier t"
  proof -
    have "(case it_node t of Compute \<Rightarrow> Inr compute | Switch \<Rightarrow> Inr switch
        | Powershelf \<Rightarrow> Inl ''node: must be compute or switch'') = Inr p"
      using assms by (cases "it_node t") (simp_all add: evaluate_def p_def)
    then show ?thesis
      using assms that unfolding evaluate_def Let_def x_def by (auto simp: bind_result_Inr_iff)
  qed
  have q': "uint q = uint x div uint (it_divisor t)"
    using q by (auto simp: checked_div_def uint_div_distrib split: if_splits)
  have r': "uint r = (case it_modulus t of None \<Rightarrow> uint q | Some m \<Rightarrow> uint q mod uint m)"
    using r by (cases "it_modulus t") (auto simp: checked_rem_def uint_mod_distrib split: if_splits)
  have y': "uint y = (case it_remap t of None \<Rightarrow> uint r | Some m \<Rightarrow> uint (hm_or 0 m (show_nat (nat (uint r)))))"
    using y by (cases "it_remap t") (auto simp: show_u32_def)
  show ?thesis unfolding term_number_def Let_def p_def [symmetric] x_def [symmetric] v y' r' q' by (rule refl)
qed

lemma term_steps_sum:
  "fold_result (term_step compute switch) (enumerate i ts) b = Inr n \<Longrightarrow>
    n = b + (\<Sum>t \<leftarrow> ts. term_number t compute switch)"
proof (induction ts arbitrary: i b)
  case (Cons t ts)
  then obtain v where v: "evaluate t compute switch = Inr v"
    and rest: "fold_result (term_step compute switch) (enumerate (Suc i) ts) (b + v) = Inr n"
    by (auto simp: bind_result_Inr_iff term_step_def)
  show ?case using Cons.IH [OF rest] evaluate_number [OF v] by simp
qed simp

text \<open>The state of the expansion after a list of numbers.\<close>

definition expanded :: "string list \<Rightarrow> FabricLinkState \<Rightarrow> (LinkRule \<times> int) list \<Rightarrow> link_targets \<Rightarrow> bool" where
  "expanded interfaces dflt es = (\<lambda>(states, assigned).
    map fst states = interfaces \<and> set assigned = link_id ` set es \<and> distinct (map link_id es)
    \<and> link_id ` set es \<subseteq> set interfaces
    \<and> (\<forall>(rule, n) \<in> set es. 0 < n \<and> n < 2 ^ 32)
    \<and> (\<forall>i \<in> set interfaces. hm_get states i = Some (case hm_get (assignments es) i of Some st \<Rightarrow> st | None \<Rightarrow> dflt)))"

lemma bt_put_existing: "bt_ok m \<Longrightarrow> k \<in> fst ` set m \<Longrightarrow> map fst (bt_put k v m) = map fst m"
proof (induction m)
  case (Cons e m)
  obtain j w where e: "e = (j, w)" by (cases e)
  have "bt_ok m" "\<forall>x \<in> fst ` set m. j < x" using Cons.prems(1) e by (auto simp: bt_ok_def)
  then show ?case using Cons.IH Cons.prems(2) e by (auto simp: not_less)
qed simp

text \<open>A fold that adds its assignments one after the other.\<close>

lemma fold_result_emits:
  assumes "fold_result f xs s = Inr t" and "P es s"
    and "\<And>x s t es. x \<in> set xs \<Longrightarrow> f x s = Inr t \<Longrightarrow> P es s \<Longrightarrow> P (es @ g x) t"
  shows "P (es @ concat (map g xs)) t"
  using assms
proof (induction xs arbitrary: s es)
  case (Cons x xs)
  obtain u where u: "f x s = Inr u" "fold_result f xs u = Inr t"
    using Cons.prems(1) by (auto simp: bind_result_Inr_iff)
  have "P ((es @ g x) @ concat (map g xs)) t"
    using Cons.IH [OF u(2)] Cons.prems(2,3) u(1) by (meson list.set_intros)
  then show ?case by simp
qed simp

lemma lane_step_expanded:
  assumes "lane_step rule index start lane targets = Inr targets'" and "bs_ok interfaces"
    and "expanded interfaces dflt es targets"
  shows "expanded interfaces dflt (es @ [(rule, start + int lane)]) targets'"
proof -
  obtain states assigned where t: "targets = (states, assigned)" by (cases targets)
  define n where "n = start + int lane"
  have n: "0 \<le> n" "n < 2 ^ 32" "(word_of_int n :: u32) \<noteq> 0"
    using assms(1) by (auto simp: lane_step_def t n_def bind_result_Inr_iff u32_try_from_def Let_def split: if_splits)
  then have pos: "0 < n" by (cases "n = 0") auto
  have unat: "unat (word_of_int n :: u32) = nat n"
    using n(1,2) by (simp add: unat_eq_nat_uint uint_word_of_int)
  define i where "i = lr_prefix rule @ show_nat (nat n)"
  have i: "i \<notin> set assigned" "hm_get states i \<noteq> None"
    "targets' = (bt_put i (lr_state rule) states, bs_insert i assigned)"
    using assms(1) n unat
    by (auto simp: lane_step_def t n_def [symmetric] i_def bind_result_Inr_iff u32_try_from_def Let_def show_u32_def
        split: if_splits option.splits)
  have id: "link_id (rule, n) = i" by (simp add: link_id_def i_def)
  have ex: "map fst states = interfaces" "set assigned = link_id ` set es" "distinct (map link_id es)"
    "link_id ` set es \<subseteq> set interfaces" "\<forall>(rule, n) \<in> set es. 0 < n \<and> n < 2 ^ 32"
    "\<forall>j \<in> set interfaces. hm_get states j = Some (case hm_get (assignments es) j of Some st \<Rightarrow> st | None \<Rightarrow> dflt)"
    using assms(3) by (auto simp: expanded_def t)
  have ok: "bt_ok states" using assms(2) ex(1) by (simp add: bs_ok_def bt_ok_def)
  have mem: "i \<in> fst ` set states" using i(2) by (simp add: map_of_eq_None_iff)
  then have "i \<in> set interfaces" using ex(1) by (metis list.set_map)
  have "hm_get (assignments es) i = None" using i(1) ex(2) by (auto simp: assignments_def map_of_eq_None_iff image_image)
  then have "hm_get (assignments (es @ [(rule, n)])) j = (if j = i then Some (lr_state rule) else hm_get (assignments es) j)" for j
    by (auto simp: assignments_def id map_add_def split: option.splits)
  then show ?thesis
    using ex i(1) pos n(2) id \<open>i \<in> set interfaces\<close> bt_put_existing [OF ok mem, of "lr_state rule"] bt_get_put [OF ok]
    by (auto simp: expanded_def i(3) n_def [symmetric])
qed

lemma offset_step_expanded:
  assumes "offset_step rule first (index, offset) targets = Inr targets'" and "bs_ok interfaces"
    and "expanded interfaces dflt es targets"
  shows "expanded interfaces dflt (es @ map (\<lambda>lane. (rule, first + offset + int lane)) [0..<unat (lr_width rule)]) targets'"
proof -
  have fold: "fold_result (lane_step rule index (first + offset)) [0..<unat (lr_width rule)] targets = Inr targets'"
    using assms(1) by (auto simp: offset_step_def bind_result_Inr_iff)
  show ?thesis
    using fold_result_emits [OF fold, where P = "expanded interfaces dflt" and g = "\<lambda>lane. [(rule, first + offset + int lane)]",
        OF assms(3) lane_step_expanded [OF _ assms(2)]]
    by simp
qed

lemma enumerate_map: "map (\<lambda>(i, x). f x) (enumerate n xs) = map f xs"
  by (metis (no_types, lifting) case_prod_unfold map_map comp_apply map_eq_conv map_snd_enumerate)

lemma rule_step_expanded:
  assumes "rule_step compute switch (index, rule) targets = Inr targets'" and "bs_ok interfaces"
    and "expanded interfaces dflt es targets"
  shows "expanded interfaces dflt (es @ concat (map (\<lambda>offset.
      map (\<lambda>lane. (rule, link_number rule compute switch offset lane)) [0..<unat (lr_width rule)]) (lr_offsets rule))) targets'"
proof -
  obtain first where first: "first_number rule compute switch = Inr first"
    and fold: "fold_result (offset_step rule first) (enumerate 0 (lr_offsets rule)) targets = Inr targets'"
    using assms(1) by (auto simp: rule_step_def rule_apply_def bind_result_Inr_iff)
  have n: "link_number rule compute switch = (\<lambda>offset lane. first + offset + int lane)"
    using term_steps_sum first by (simp add: first_number_def link_number_def fun_eq_iff)
  let ?g = "\<lambda>(i, offset). map (\<lambda>lane. (rule, first + offset + int lane)) [0..<unat (lr_width rule)]"
  have "offset_step rule first x s = Inr t \<Longrightarrow> expanded interfaces dflt es s \<Longrightarrow> expanded interfaces dflt (es @ ?g x) t" for x s t es
    using offset_step_expanded [OF _ assms(2)] by (cases x) auto
  from fold_result_emits [OF fold, where P = "expanded interfaces dflt" and g = ?g, OF assms(3) this]
  show ?thesis by (simp add: n enumerate_map [of "\<lambda>offset. map (\<lambda>lane. (rule, first + offset + int lane)) [0..<unat (lr_width rule)]"])
qed

lemma expand_switch_expanded:
  assumes "expand_switch calc computes switch interfaces = Inr states" and "bs_ok interfaces"
  shows "\<exists>assigned. expanded interfaces (default_state calc) (emissions calc computes switch) (states, assigned)"
proof -
  obtain assigned where fold: "fold_result (\<lambda>compute. fold_result (rule_step compute switch) (enumerate 0 (link_rules calc)))
        computes (map (\<lambda>i. (i, default_state calc)) interfaces, []) = Inr (states, assigned)"
    using assms(1) by (auto simp: expand_switch_def bind_result_Inr_iff)
  have init: "expanded interfaces (default_state calc) [] (map (\<lambda>i. (i, default_state calc)) interfaces, [])"
    by (auto simp: expanded_def assignments_def comp_def map_of_map_restrict restrict_map_def)
  let ?r = "\<lambda>compute rule. concat (map (\<lambda>offset.
      map (\<lambda>lane. (rule, link_number rule compute switch offset lane)) [0..<unat (lr_width rule)]) (lr_offsets rule))"
  have step: "expanded interfaces (default_state calc) (es @ concat (map (?r compute) (link_rules calc))) t"
    if f: "fold_result (rule_step compute switch) (enumerate 0 (link_rules calc)) s = Inr t"
      and e: "expanded interfaces (default_state calc) es s" for compute s t es
  proof -
    have "rule_step compute switch x s = Inr t \<Longrightarrow> expanded interfaces (default_state calc) es s \<Longrightarrow>
        expanded interfaces (default_state calc) (es @ (\<lambda>(i, rule). ?r compute rule) x) t" for x s t es
      using rule_step_expanded [OF _ assms(2)] by (cases x) auto
    from fold_result_emits [OF f, where P = "expanded interfaces (default_state calc)" and g = "\<lambda>(i, rule). ?r compute rule", OF e this]
    show ?thesis by (simp add: enumerate_map [of "?r compute"])
  qed
  have "expanded interfaces (default_state calc)
      ([] @ concat (map (\<lambda>compute. concat (map (?r compute) (link_rules calc))) computes)) (states, assigned)"
    by (rule fold_result_emits [where P = "expanded interfaces (default_state calc)", OF fold init]) (rule step)
  then show ?thesis by (auto simp: emissions_def)
qed

text \<open>Collecting a map over ascending keys.\<close>

lemma bt_put_last: "\<forall>x \<in> fst ` set m. x < k \<Longrightarrow> bt_put k v m = m @ [(k, v)]"
  by (induction m) auto

lemma collect_sorted:
  assumes "fold_result (\<lambda>k out. bind_result (f k) (\<lambda>v. Inr (bt_put k v out))) ks [] = Inr m" and "bs_ok ks"
  shows "map fst m = ks \<and> (\<forall>(k, v) \<in> set m. f k = Inr v)"
  using assms
proof (induction ks arbitrary: m rule: rev_induct)
  case (snoc k ks)
  obtain m0 where m0: "fold_result (\<lambda>k out. bind_result (f k) (\<lambda>v. Inr (bt_put k v out))) ks [] = Inr m0"
    and step: "bind_result (f k) (\<lambda>v. Inr (bt_put k v m0)) = Inr m"
    using snoc.prems(1) by (auto simp: fold_result_append bind_result_Inr_iff)
  obtain v where v: "f k = Inr v" "m = bt_put k v m0" using step by (auto simp: bind_result_Inr_iff)
  have ok: "bs_ok ks" "\<forall>x \<in> set ks. x < k" using snoc.prems(2) by (auto simp: bs_ok_def sorted_wrt_append)
  have ih: "map fst m0 = ks \<and> (\<forall>(k, v) \<in> set m0. f k = Inr v)" by (rule snoc.IH [OF m0 ok(1)])
  then have "fst ` set m0 = set ks" by (metis list.set_map)
  then have "m = m0 @ [(k, v)]" using v(2) ok(2) by (simp add: bt_put_last)
  with ih v(1) show ?case by auto
qed simp

lemma link_expand_expanded:
  assumes "link_expand calc computes switches interfaces = Inr targets" "bs_ok switches" "bs_ok interfaces"
  shows "map fst targets = switches"
    and "(switch, states) \<in> set targets \<Longrightarrow>
      \<exists>assigned. expanded interfaces (default_state calc) (emissions calc computes switch) (states, assigned)"
proof -
  let ?f = "\<lambda>position out. bind_result (expand_switch calc computes position interfaces) (\<lambda>states. Inr (bt_put position states out))"
  have fold: "fold_result ?f switches [] = Inr targets"
    using assms(1) by (auto simp: link_expand_def bind_result_Inr_iff split: if_splits)
  note c = collect_sorted [OF fold assms(2)]
  show "map fst targets = switches" using c by blast
  show "\<exists>assigned. expanded interfaces (default_state calc) (emissions calc computes switch) (states, assigned)"
    if "(switch, states) \<in> set targets"
    using c that expand_switch_expanded [OF _ assms(3)] by blast
qed

text \<open>C28. Link expansion follows the numbering formula exactly and without wrap-around: when it
  succeeds it has one entry per switch, in order, and for each switch one state for every owned
  interface, in order.  The numbers of the formula over unbounded integers, for every compute,
  rule, offset and lane, are all between 1 and the largest 32-bit number, name owned interfaces
  only and no interface twice; an interface so named has the state of its rule, and every other
  one the default state.\<close>

theorem expansion_exact:
  assumes "link_expand calc computes switches interfaces = Inr targets"
    and "bs_ok switches" and "bs_ok interfaces"
  shows "map fst targets = switches
    \<and> (\<forall>(switch, states) \<in> set targets.
        let es = emissions calc computes switch in
        map fst states = interfaces
        \<and> (\<forall>(rule, n) \<in> set es. 0 < n \<and> n < 2 ^ 32)
        \<and> distinct (map link_id es) \<and> link_id ` set es \<subseteq> set interfaces
        \<and> (\<forall>i \<in> set interfaces. hm_get states i =
            Some (case hm_get (assignments es) i of Some st \<Rightarrow> st | None \<Rightarrow> default_state calc)))"
proof -
  note e = link_expand_expanded [OF assms]
  have "let es = emissions calc computes switch in
        map fst states = interfaces
        \<and> (\<forall>(rule, n) \<in> set es. 0 < n \<and> n < 2 ^ 32)
        \<and> distinct (map link_id es) \<and> link_id ` set es \<subseteq> set interfaces
        \<and> (\<forall>i \<in> set interfaces. hm_get states i =
            Some (case hm_get (assignments es) i of Some st \<Rightarrow> st | None \<Rightarrow> default_state calc))"
    if "(switch, states) \<in> set targets" for switch states
    using e(2) [OF that] unfolding expanded_def prod.case Let_def by blast
  with e(1) show ?thesis by blast
qed

theorem expansion_exact_witness:
  "\<exists>targets. link_expand sample_calculation [FabricPosition 1 2] [FabricPosition 0 3] [''acp1'', ''acp2''] = Inr targets
    \<and> map fst targets = [FabricPosition 0 3]"
proof -
  have run: "link_expand sample_calculation [FabricPosition 1 2] [FabricPosition 0 3] [''acp1'', ''acp2''] =
      Inr [(FabricPosition 0 3, [(''acp1'', Down), (''acp2'', Up)])]"
    by code_simp
  have ok: "bs_ok [FabricPosition 0 3]" "bs_ok [''acp1'', ''acp2'']" by code_simp+
  show ?thesis by (intro exI conjI, rule run, rule expansion_exact [OF run ok, THEN conjunct1])
qed

end
