(* ===== verification/Catalog_Properties.thy ===== *)
theory Catalog_Properties
  imports Layout_Properties
begin

text \<open>
  What a loaded fabric layout catalogue guarantees: at most one profile matches an observation,
  a validated profile has a restoration rule for every controller topology and one set of owned
  settings, and interface ranges expand to distinct owned names within the limit, which load
  again as themselves.
\<close>

section \<open>The catalogue\<close>

lemma ambiguous_filter:
  "\<not> ambiguous_profiles ps \<Longrightarrow> length (filter (selects topology types) ps) \<le> 1"
proof (induction ps)
  case (Cons p ps)
  have "filter (selects topology types) ps = []" if "selects topology types p"
  proof -
    have "\<not> selects topology types q" if "q \<in> set ps" for q
    proof
      assume q: "selects topology types q"
      then obtain t where "t \<in> set types" by (cases types) (auto simp: selects_def)
      then have "ambiguous_with p q"
        using q \<open>selects topology types p\<close> by (auto simp: selects_def ambiguous_with_def list_all_iff list_ex_iff)
      then show False using Cons.prems that by (auto simp: list_ex_iff)
    qed
    then show ?thesis by (simp add: filter_empty_conv)
  qed
  with Cons show ?case by auto
qed simp

lemma validated_all:
  assumes "fold_result (\<lambda>(index, x) _. map_err (f index) (v x)) (enumerate n xs) u = Inr ()"
  shows "\<forall>x \<in> set xs. v x = Inr ()"
  using assms by (induction xs arbitrary: n u) (auto simp: bind_result_Inr_iff)

text \<open>C30. A loaded catalogue selects unambiguously: it holds between 1 and 64 profiles, every one
  of them valid, and for any topology and set of switch types at most one profile matches, so
  that the first match the code returns is the only one.\<close>

theorem selection_unique:
  assumes "from_config to_vec sha256 ps = Inr catalog"
  shows "1 \<le> length (profiles catalog) \<and> length (profiles catalog) \<le> 64
    \<and> (\<forall>p \<in> set (profiles catalog). profile_validate p = Inr ())
    \<and> length (filter (selects topology types) (profiles catalog)) \<le> 1
    \<and> (select_profile catalog topology types = Some p \<longleftrightarrow>
        p \<in> set (profiles catalog) \<and> selects topology types p)"
proof -
  have cat: "profiles catalog = ps" "ps \<noteq> []" "length ps \<le> 64" "\<not> ambiguous_profiles ps"
    and valid: "fold_result (\<lambda>(index, p) _. map_err (\<lambda>e. Invalid (located ''profiles'' index @ '': '' @ e)) (profile_validate p))
           (enumerate 0 ps) () = Inr ()"
    using assms by (auto simp: from_config_def bind_result_Inr_iff MAX_PROFILES_def split: if_splits)
  have all: "\<forall>p \<in> set ps. profile_validate p = Inr ()" by (rule validated_all [OF valid])
  have one: "length (filter (selects topology types) ps) \<le> 1" by (rule ambiguous_filter [OF cat(4)])
  have "select_profile catalog topology types = Some p \<longleftrightarrow> p \<in> set ps \<and> selects topology types p"
  proof -
    have "find (selects topology types) ps = (case filter (selects topology types) ps of [] \<Rightarrow> None | q # _ \<Rightarrow> Some q)"
      by (induction ps) auto
    moreover have "p \<in> set ps \<and> selects topology types p \<longleftrightarrow> p \<in> set (filter (selects topology types) ps)"
      by auto
    ultimately show ?thesis
      using one unfolding select_profile_def cat(1) by (cases "filter (selects topology types) ps") auto
  qed
  with cat all one show ?thesis by (cases ps) auto
qed

section \<open>Controller rules\<close>

lemma targets_fold:
  assumes "fold_result (validate_target location) (enumerate n ts) keys = Inr keys'" and "bs_ok keys"
  shows "bs_ok keys' \<and> set keys' = set keys \<union> target_key ` set ts
    \<and> distinct (map target_key ts) \<and> set keys \<inter> target_key ` set ts = {}
    \<and> (\<forall>t \<in> set ts. validate_static_config_key (config_file_name t) (config_key_name t) = Inr ()
        \<and> (\<forall>v. config_action t = SetValue v \<longrightarrow> validate_static_config_value v = Inr ()))"
  using assms
proof (induction ts arbitrary: n keys)
  case (Cons t ts)
  obtain mid where mid: "validate_target location (n, t) keys = Inr mid"
    and rest: "fold_result (validate_target location) (enumerate (Suc n) ts) mid = Inr keys'"
    using Cons.prems(1) by (auto simp: bind_result_Inr_iff)
  have t: "validate_static_config_key (config_file_name t) (config_key_name t) = Inr ()"
    "\<forall>v. config_action t = SetValue v \<longrightarrow> validate_static_config_value v = Inr ()"
    "target_key t \<notin> set keys" "mid = bs_insert (target_key t) keys"
    using mid by (auto simp: validate_target_def Let_def bind_result_Inr_iff split: if_splits FabricStaticConfigAction.splits)
  then show ?case
    using Cons.IH [OF rest] bs_ok_insert [OF Cons.prems(2)] by auto
qed simp

text \<open>What the scan of the rules has established for those it has passed.\<close>

definition rule_valid :: "(string \<times> string) set \<Rightarrow> FabricControllerRule \<Rightarrow> bool" where
  "rule_valid managed rule \<longleftrightarrow>
    validate_static_config_value (topology_type rule) = Inr ()
    \<and> target_key ` set (static_configs rule) = managed \<and> distinct (map target_key (static_configs rule))
    \<and> (\<forall>t \<in> set (static_configs rule). validate_static_config_key (config_file_name t) (config_key_name t) = Inr ()
        \<and> (\<forall>v. config_action t = SetValue v \<longrightarrow> validate_static_config_value v = Inr ()))"

definition full_size :: "FabricLayoutProfile \<Rightarrow> FabricRule \<Rightarrow> bool" where
  "full_size p fabric \<longleftrightarrow>
    fr_compute_tray_count fabric = compute_tray_count p \<and> fr_switch_tray_count fabric = switch_tray_count p"

definition rules_passed :: "FabricLayoutProfile \<Rightarrow> (string \<times> string) list \<Rightarrow> indexed_rule list \<Rightarrow> rule_scan \<Rightarrow> bool" where
  "rules_passed p managed rs = (\<lambda>(selectors, topologies, restoration).
    set topologies = set (map (\<lambda>(_, _, _, rule). topology_type rule) rs)
    \<and> set restoration = set (map (\<lambda>(_, _, _, rule). topology_type rule) (filter (\<lambda>(_, _, fabric, _). full_size p fabric) rs))
    \<and> list_all (\<lambda>(_, _, _, rule). rule_valid (set managed) rule) rs)"

lemma rules_passed_step:
  assumes "validate_controller_rule p managed r scan = Inr scan'" "rules_passed p managed rs scan"
  shows "rules_passed p managed (rs @ [r]) scan'"
proof -
  obtain i j fabric rule where r: "r = (i, j, fabric, rule)" by (cases r)
  obtain selectors topologies restoration where s: "scan = (selectors, topologies, restoration)" by (cases scan)
  let ?size = "(fr_compute_tray_count fabric, fr_switch_tray_count fabric)"
  obtain keys where v: "validate_static_config_value (topology_type rule) = Inr ()"
    and keys: "fold_result (validate_target (located ''fabric_rules'' i @ ''.'' @ located ''controller_rules'' j))
        (enumerate 0 (static_configs rule)) [] = Inr keys" "keys = managed"
    and scan': "scan' = ((topology_type rule, ?size) # selectors, bs_insert (topology_type rule) topologies,
        if ?size = (compute_tray_count p, switch_tray_count p) then bs_insert (topology_type rule) restoration else restoration)"
    using assms(1) by (auto simp: validate_controller_rule_def r s Let_def bind_result_Inr_iff split: if_splits)
  note t = targets_fold [OF keys(1)]
  show ?thesis
    using assms(2) v t keys(2)
    by (simp add: rules_passed_def r s scan' bs_ok_def rule_valid_def full_size_def)
qed

lemma rules_passed_fold:
  assumes "fold_result (validate_controller_rule p managed) rs scan = Inr scan'" "rules_passed p managed rs0 scan"
  shows "rules_passed p managed (rs0 @ rs) scan'"
  using fold_result_emits [OF assms(1), where P = "rules_passed p managed" and g = "\<lambda>r. [r]", OF assms(2) rules_passed_step]
  by simp

lemma enumerate_mem: "(\<exists>i. (i, x) \<in> set (enumerate n xs)) \<longleftrightarrow> x \<in> set xs"
  by (induction xs arbitrary: n) auto

lemma indexed_rules_iff:
  "(\<exists>i j. (i, j, fabric, rule) \<in> set (indexed_rules p)) \<longleftrightarrow>
    fabric \<in> set (fabric_rules p) \<and> rule \<in> set (controller_rules fabric)"
proof -
  have "(\<exists>i j. (i, j, fabric, rule) \<in> set (indexed_rules p)) \<longleftrightarrow>
      (\<exists>i. (i, fabric) \<in> set (enumerate 0 (fabric_rules p))) \<and> (\<exists>j. (j, rule) \<in> set (enumerate 0 (controller_rules fabric)))"
    by (force simp: indexed_rules_def)
  then show ?thesis by (simp only: enumerate_mem)
qed

lemma accepted_rule:
  assumes "validate_controller_rules p = Inr ()"
    and "fabric \<in> set (fabric_rules p)" and "rule \<in> set (controller_rules fabric)"
  shows "rule_valid (set (managed_keys (indexed_rules p))) rule"
    and "\<exists>full \<in> set (fabric_rules p). full_size p full
        \<and> (\<exists>r \<in> set (controller_rules full). topology_type r = topology_type rule)"
proof -
  let ?rs = "indexed_rules p"
  obtain i j where mem: "(i, j, fabric, rule) \<in> set ?rs" using assms(2,3) indexed_rules_iff by blast
  obtain sel top where fold: "fold_result (validate_controller_rule p (managed_keys ?rs)) ?rs ([], [], []) = Inr (sel, top, top)"
    using assms(1) mem
    by (auto simp: validate_controller_rules_def Let_def bind_result_Inr_iff split: if_splits option.splits)
  have "rules_passed p (managed_keys ?rs) [] ([], [], [])" by (simp add: rules_passed_def)
  from rules_passed_fold [OF fold this] have passed: "rules_passed p (managed_keys ?rs) ?rs (sel, top, top)" by simp
  have top: "set top = set (map (\<lambda>(_, _, _, rule). topology_type rule) ?rs)"
    "set top = set (map (\<lambda>(_, _, _, rule). topology_type rule) (filter (\<lambda>(_, _, fabric, _). full_size p fabric) ?rs))"
    using passed unfolding rules_passed_def prod.case by blast+
  show "rule_valid (set (managed_keys ?rs)) rule"
    using passed mem by (auto simp: rules_passed_def list_all_iff)
  have "topology_type rule \<in> set top" using mem top(1) by force
  then obtain i' j' full r where full: "(i', j', full, r) \<in> set ?rs" "full_size p full" "topology_type r = topology_type rule"
    using top(2) by auto
  then have "full \<in> set (fabric_rules p)" "r \<in> set (controller_rules full)" using indexed_rules_iff by blast+
  with full show "\<exists>full \<in> set (fabric_rules p). full_size p full
        \<and> (\<exists>r \<in> set (controller_rules full). topology_type r = topology_type rule)" by auto
qed

lemma managed_keys_set:
  "set (managed_keys (indexed_rules p)) =
    (\<Union>f \<in> set (fabric_rules p). \<Union>r \<in> set (controller_rules f). target_key ` set (static_configs r))"
proof -
  have "k \<in> set (managed_keys (indexed_rules p)) \<longleftrightarrow>
      (\<exists>f r. (\<exists>i j. (i, j, f, r) \<in> set (indexed_rules p)) \<and> k \<in> target_key ` set (static_configs r))" for k
    by (force simp: managed_keys_def)
  then show ?thesis unfolding indexed_rules_iff set_eq_iff UN_iff by blast
qed

text \<open>C31. A profile whose controller rules are accepted owns one set of settings and can always be
  restored: every rule of every fabric size targets exactly the keys that any rule of the profile
  targets, each once, with valid names and values and never the reserved topology key, and for
  its topology there is a rule at the full physical size.\<close>

theorem controller_rules_complete:
  assumes "validate_controller_rules p = Inr ()"
    and "fabric \<in> set (fabric_rules p)" and "rule \<in> set (controller_rules fabric)"
  shows "rule_valid (\<Union>f \<in> set (fabric_rules p). \<Union>r \<in> set (controller_rules f). target_key ` set (static_configs r)) rule
    \<and> (\<exists>full \<in> set (fabric_rules p). full_size p full
        \<and> (\<exists>r \<in> set (controller_rules full). topology_type r = topology_type rule))"
  using accepted_rule [OF assms] unfolding managed_keys_set by blast

section \<open>Interface ranges\<close>

lemma show_nat_no_sign: "CHR ''-'' \<notin> set (show_nat n)" "CHR ''+'' \<notin> set (show_nat n)"
proof -
  have digits: "\<forall>c \<in> set (show_nat n). \<exists>d < 10. c = digit d"
  proof (induction n rule: show_nat.induct)
    case (1 n)
    then show ?case
      by (cases "n < 10") (auto simp: show_nat.simps [of n] intro: exI [of _ "n mod 10"] exI [of _ n])
  qed
  have code: "of_char (digit d) = 48 + d" if "d < 10" for d :: nat
    using that by (simp add: digit_def of_char_of)
  have signs: "(of_char CHR ''-'' :: nat) = 45" "(of_char CHR ''+'' :: nat) = 43" by code_simp+
  have "c \<noteq> CHR ''-'' \<and> c \<noteq> CHR ''+''" if "c \<in> set (show_nat n)" for c
  proof -
    obtain d where "d < 10" "c = digit d" using digits \<open>c \<in> set (show_nat n)\<close> by blast
    then have "(of_char c :: nat) \<ge> 48" using code by simp
    then show ?thesis using signs by auto
  qed
  then show "CHR ''-'' \<notin> set (show_nat n)" "CHR ''+'' \<notin> set (show_nat n)" by blast+
qed

lemma show_nat_canonical:
  assumes "0 < n" "n < 2 ^ 32"
  shows "parse_u32 (show_nat n) = Some (word_of_nat n)" "show_u32 (word_of_nat n) = show_nat n"
    "(word_of_nat n :: u32) > 0" "unat (word_of_nat n :: u32) = n"
proof -
  show u: "unat (word_of_nat n :: u32) = n" using assms(2) by (simp add: unat_of_nat)
  then show "show_u32 (word_of_nat n) = show_nat n" by (simp add: show_u32_def)
  show "(word_of_nat n :: u32) > 0" using u assms(1) by (metis unat_gt_0 word_neq_0_conv less_irrefl)
  have "(case show_nat n of c # cs \<Rightarrow> if c = CHR ''+'' then cs else show_nat n | [] \<Rightarrow> show_nat n) = show_nat n"
    using show_nat_no_sign(2) [of n] by (cases "show_nat n") auto
  then show "parse_u32 (show_nat n) = Some (word_of_nat n)"
    using assms(2) by (simp add: parse_u32_def parse_show_nat Let_def)
qed

lemma owned_name: "0 < n \<Longrightarrow> n < 2 ^ 32 \<Longrightarrow> prefix \<in> {''acp'', ''fnm''} \<Longrightarrow> owned_interface (prefix @ show_nat n)"
  using show_nat_canonical [of n]
  by (auto simp: owned_interface_def strip_pre_def canonical_positive_u32_def)

text \<open>The names of the interfaces of a prefix.\<close>

definition names_ok :: "link_states \<Rightarrow> bool" where
  "names_ok states \<longleftrightarrow> bt_ok states \<and> length states \<le> MAX_INTERFACES \<and> list_all owned_interface (map fst states)"

lemma interface_steps:
  assumes "fold_result (interface_step prefix state) ns states = Inr states'"
    and "bt_ok states" "list_all owned_interface (map fst states)"
    and "prefix \<in> {''acp'', ''fnm''}" "\<forall>n \<in> set ns. 0 < n \<and> n < 2 ^ 32"
  shows "bt_ok states' \<and> list_all owned_interface (map fst states') \<and> length states' = length states + length ns"
  using assms
proof (induction ns arbitrary: states)
  case (Cons n ns)
  obtain mid where mid: "interface_step prefix state n states = Inr mid"
    and tail: "fold_result (interface_step prefix state) ns mid = Inr states'"
    using Cons.prems(1) by (auto simp: bind_result_Inr_iff)
  have new: "hm_get states (prefix @ show_nat n) = None" and put: "mid = bt_put (prefix @ show_nat n) state states"
    using mid by (auto simp: interface_step_def Let_def split: if_splits)
  note rest = tail [unfolded put]
  have ok: "bt_ok (bt_put (prefix @ show_nat n) state states)" using Cons.prems(2) by (rule bt_put_sorted)
  have len: "length (bt_put (prefix @ show_nat n) state states) = Suc (length states)"
    using btree.length_put [OF Cons.prems(2), of "prefix @ show_nat n" state] new by simp
  have "list_all owned_interface (map fst (bt_put (prefix @ show_nat n) state states))"
    using Cons.prems(3-5) owned_name [of n prefix] bt_put_keys [of "prefix @ show_nat n" state states]
    by (auto simp: list_all_iff)
  from Cons.IH [OF rest ok this Cons.prems(4)] Cons.prems(5) len show ?case by auto
qed simp

lemma range_index_Inr: "range_index text = Inr n \<Longrightarrow> 0 < n"
  by (auto simp: range_index_def split: option.splits if_splits)

lemma expand_range_ok:
  assumes "expand_range prefix state a b states = Inr states'" "names_ok states" "prefix \<in> {''acp'', ''fnm''}"
  shows "names_ok states' \<and> length states < length states'"
proof -
  obtain first last :: u32 where pos: "0 < first" and range: "\<not> last < first"
      "unat last - unat first + 1 + length states \<le> MAX_INTERFACES"
    and fold: "fold_result (interface_step prefix state) [unat first..<Suc (unat last)] states = Inr states'"
  proof -
    obtain first last where idx: "range_index a = Inr first"
      and rest: "(if last < first then Inl ''interface ranges must be ascending''
        else if unat last - unat first + 1 + length states > MAX_INTERFACES
        then Inl ''expanded controlled interfaces exceed 1024''
        else fold_result (interface_step prefix state) [unat first..<Suc (unat last)] states) = Inr states'"
      using assms(1) unfolding expand_range_def bind_result_Inr_iff by blast
    have "\<not> last < first \<and> unat last - unat first + 1 + length states \<le> MAX_INTERFACES"
      using rest by (metis Inl_Inr_False not_less)
    with rest show thesis using that [OF range_index_Inr [OF idx], of last] by (simp del: upt_Suc)
  qed
  have "\<forall>n \<in> set [unat first..<Suc (unat last)]. 0 < n \<and> n < 2 ^ 32"
  proof
    fix n assume "n \<in> set [unat first..<Suc (unat last)]"
    moreover have "0 < unat first" using pos by (simp add: unat_gt_0)
    moreover have "unat last < 2 ^ 32" using unsigned_less [of last] by simp
    ultimately show "0 < n \<and> n < 2 ^ 32" by auto
  qed
  from interface_steps [OF fold _ _ assms(3) this] assms(2) range show ?thesis
    by (auto simp: names_ok_def word_le_nat_alt not_less)
qed

lemma expand_entry_ok:
  assumes "expand_entry entry states = Inr states'" "names_ok states"
  shows "names_ok states' \<and> length states < length states'"
proof -
  obtain prefix a b where "prefix \<in> {''acp'', ''fnm''}" "expand_range prefix (snd entry) a b states = Inr states'"
    using assms(1) by (cases entry, auto simp: expand_entry_def bind_result_Inr_iff split: option.splits) blast
  with assms(2) expand_range_ok show ?thesis by blast
qed

text \<open>An expanded name is a range of one interface.\<close>

lemma owned_interface_cases:
  assumes "owned_interface i"
  obtains prefix n where "prefix \<in> {''acp'', ''fnm''}" "i = prefix @ show_nat n" "0 < n" "n < 2 ^ 32"
proof -
  obtain prefix suffix where p: "prefix \<in> {''acp'', ''fnm''}" "i = prefix @ suffix" "canonical_positive_u32 suffix"
    using assms unfolding owned_interface_def strip_pre_def
    by (auto split: if_splits) (metis append_take_drop_id)+
  then obtain w :: u32 where "0 < w" "show_nat (unat w) = suffix"
    by (auto simp: canonical_positive_u32_def show_u32_def split: option.splits)
  then show ?thesis
    using p that [of prefix "unat w"] unsigned_less [of w] by (auto simp: unat_gt_0)
qed

lemma expand_entry_name:
  assumes "owned_interface i" "bt_ok (m @ [(i, state)])" "length m < MAX_INTERFACES"
  shows "expand_entry (i, state) m = Inr (m @ [(i, state)])"
proof -
  obtain prefix n where p: "prefix \<in> {''acp'', ''fnm''}" "i = prefix @ show_nat n" "0 < n" "n < 2 ^ 32"
    using owned_interface_cases [OF assms(1)] by blast
  note c = show_nat_canonical [OF p(3,4)]
  have idx: "range_index (show_nat n) = Inr (word_of_nat n)" using c by (simp add: range_index_def)
  have last: "\<forall>x \<in> fst ` set m. x < i" using assms(2) by (auto simp: bt_ok_def sorted_wrt_append)
  then have "hm_get m i = None" by (force simp: map_of_eq_None_iff)
  then have range: "expand_range prefix state (show_nat n) (show_nat n) m = Inr (m @ [(i, state)])"
    using assms(3) c(4) bt_put_last [OF last, of state] p(2)
    by (simp add: expand_range_def idx interface_step_def)
  have once: "split_once (CHR ''-'') (show_nat n) = None" using show_nat_no_sign(1) by (simp add: split_once_def)
  show ?thesis using p(1,2) range once by (auto simp: expand_entry_def strip_pre_def ok_or_def)
qed

lemma names_load:
  assumes "names_ok (m @ rest)"
  shows "fold_result expand_entry rest m = Inr (m @ rest)"
  using assms
proof (induction rest arbitrary: m)
  case (Cons e rest)
  obtain i state where e: "e = (i, state)" by (cases e)
  have "expand_entry e m = Inr (m @ [e])"
    using Cons.prems unfolding e by (intro expand_entry_name) (auto simp: names_ok_def bt_ok_def sorted_wrt_append)
  with Cons show ?case by simp
qed simp

text \<open>C32. Interface ranges load into distinct owned names and back: when the configured entries
  are accepted, the states are in ascending order of the names, at most 1024, every name is one
  that a profile accepts, no entry is empty, and the expanded form, which is what is written
  out, loads again as itself.\<close>

theorem interfaces_load_roundtrip:
  assumes "deserialize_full_link_states entries = Inr states"
  shows "bt_ok states \<and> length entries \<le> length states \<and> length states \<le> 1024
    \<and> (\<forall>i \<in> set (map fst states). owned_interface i)
    \<and> deserialize_full_link_states states = Inr states"
proof -
  have "fold_result expand_entry es m = Inr m' \<Longrightarrow> names_ok m \<Longrightarrow> names_ok m' \<and> length m + length es \<le> length m'" for es m m'
  proof (induction es arbitrary: m)
    case (Cons e es)
    then obtain u where "expand_entry e m = Inr u" "fold_result expand_entry es u = Inr m'"
      by (auto simp: bind_result_Inr_iff)
    then show ?case using Cons.IH [of u] expand_entry_ok [of e m u] Cons.prems(2) by auto
  qed simp
  from this [of entries "[]" states] assms have ok: "names_ok states" "length entries \<le> length states"
    by (auto simp: deserialize_full_link_states_def names_ok_def bt_ok_def)
  then have "deserialize_full_link_states states = Inr states"
    using names_load [of "[]" states] by (simp add: deserialize_full_link_states_def)
  with ok show ?thesis by (auto simp: names_ok_def list_all_iff MAX_INTERFACES_def)
qed


section \<open>A sample profile\<close>

text \<open>A profile of two switches and two computes, with a smaller size of one each.\<close>

definition sample_rule :: FabricControllerRule where
  "sample_rule = \<lparr> topology_type = ''topo'', static_configs =
    [\<lparr> config_file_name = ''cfg'', config_key_name = ''A'', config_action = SetValue ''1'' \<rparr>,
     \<lparr> config_file_name = ''cfg'', config_key_name = ''B'', config_action = Remove \<rparr>] \<rparr>"

definition sample_profile :: FabricLayoutProfile where
  "sample_profile = \<lparr> switch_node_types = [''switch_gb200_nvidia''], compute_node_types = [''compute_gb200_nvidia''],
    physical_topology = ''rack'', compute_tray_count = 2, switch_tray_count = 2,
    full_link_states = [(''acp1'', Up), (''acp2'', Up)],
    fabric_rules =
      [\<lparr> fr_compute_tray_count = 1, fr_switch_tray_count = 1, fr_grouping = Some sample_grouping,
         controller_rules = [sample_rule] \<rparr>,
       \<lparr> fr_compute_tray_count = 2, fr_switch_tray_count = 2, fr_grouping = None, controller_rules = [sample_rule] \<rparr>],
    link_calculation = sample_calculation \<rparr>"

lemma sample_numbers: "show_nat 1 = ''1''" "show_nat (Suc 0) = ''1''" "show_nat (Suc (Suc 0)) = ''2''" "show_nat 2 = ''2''"
  by code_simp+

lemma sample_rules_valid: "validate_controller_rules sample_profile = Inr ()"
proof -
  have keys: "managed_keys (indexed_rules sample_profile) = [(''cfg'', ''A''), (''cfg'', ''B'')]" by code_simp
  have "fold_result (validate_controller_rule sample_profile [(''cfg'', ''A''), (''cfg'', ''B'')])
      (indexed_rules sample_profile) ([], [], []) = Inr ([(''topo'', 2, 2), (''topo'', 1, 1)], [''topo''], [''topo''])"
    by code_simp
  moreover have "length (indexed_rules sample_profile) = 2" "first_without_rules sample_profile = None" by code_simp+
  ultimately show ?thesis
    by (auto simp: validate_controller_rules_def keys MAX_OPTIONS_def MAX_STATIC_CONFIG_KEYS_def Let_def)
qed

lemma sample_profile_valid: "profile_validate sample_profile = Inr ()"
proof -
  have owned: "owned_interface ''acp1''" "owned_interface ''acp2''"
    using owned_name [of 1 "''acp''"] owned_name [of 2 "''acp''"] by (simp_all add: sample_numbers)
  have "kind_selector (switch_node_types sample_profile) Switch = Inr ()"
    "kind_selector (compute_node_types sample_profile) Compute = Inr ()"
    "calculation_validate (link_calculation sample_profile) = Inr ()"
    "fold_result (validate_placement sample_profile) (fabric_rules sample_profile) [] = Inr [(2, 2), (1, 1)]"
    "trim (physical_topology sample_profile) = ''rack''"
    by code_simp+
  moreover have "full_link_states sample_profile = [(''acp1'', Up), (''acp2'', Up)]"
    "compute_tray_count sample_profile = 2" "switch_tray_count sample_profile = 2"
    "length (fabric_rules sample_profile) = 2" "fabric_rules sample_profile \<noteq> []"
    by (simp_all add: sample_profile_def)
  ultimately show ?thesis
    by (simp add: profile_validate_def owned sample_rules_valid MAX_OPTIONS_def MAX_POSITIONS_def MAX_INTERFACES_def)
qed

theorem selection_unique_witness:
  "\<exists>catalog. from_config (\<lambda>_. Inr ''{}'') (\<lambda>_. ''digest'') [sample_profile] = Inr catalog
    \<and> length (filter (selects ''rack'' [''switch_gb200_nvidia'']) (profiles catalog)) \<le> 1"
proof -
  have run: "from_config (\<lambda>_. Inr ''{}'') (\<lambda>_. ''digest'') [sample_profile] =
      Inr \<lparr> profiles = [sample_profile], identity = ''digest'' \<rparr>"
    by (simp add: from_config_def MAX_PROFILES_def MAX_CATALOG_BYTES_def map_err_def sample_profile_valid)
  show ?thesis using run selection_unique [OF run] by blast
qed

theorem controller_rules_complete_witness:
  "\<exists>full \<in> set (fabric_rules sample_profile). full_size sample_profile full
    \<and> (\<exists>r \<in> set (controller_rules full). topology_type r = topology_type sample_rule)"
proof -
  note ok = sample_rules_valid
  have mem: "fabric_rules sample_profile ! 0 \<in> set (fabric_rules sample_profile)"
    "sample_rule \<in> set (controller_rules (fabric_rules sample_profile ! 0))"
    by (simp_all add: sample_profile_def)
  from controller_rules_complete [OF ok mem] show ?thesis by blast
qed

theorem interfaces_load_roundtrip_witness:
  "\<exists>states. deserialize_full_link_states [(''acp1-2'', Up), (''fnm2'', Down)] = Inr states
    \<and> deserialize_full_link_states states = Inr states"
proof -
  have idx: "range_index ''1'' = Inr 1" "range_index ''2'' = Inr 2"
    using show_nat_canonical [of 1] show_nat_canonical [of 2] by (simp_all add: range_index_def sample_numbers)
  have "expand_entry (''acp1-2'', Up) [] = Inr [(''acp1'', Up), (''acp2'', Up)]"
    "expand_entry (''fnm2'', Down) [(''acp1'', Up), (''acp2'', Up)] = Inr [(''acp1'', Up), (''acp2'', Up), (''fnm2'', Down)]"
    by (simp_all add: expand_entry_def strip_pre_def ok_or_def split_once_def expand_range_def idx MAX_INTERFACES_def
        interface_step_def sample_numbers upt_rec Let_def)
  then have run: "deserialize_full_link_states [(''acp1-2'', Up), (''fnm2'', Down)] =
      Inr [(''acp1'', Up), (''acp2'', Up), (''fnm2'', Down)]"
    by (simp add: deserialize_full_link_states_def)
  show ?thesis using run interfaces_load_roundtrip [OF run] by blast
qed

end
