(* ===== verification/Fabric_Planner.thy ===== *)
theory Fabric_Planner
  imports Catalog_Properties
begin

text \<open>
  The layout planner of the scale-up fabric handlers (\<open>handlers_v2/layout_planner.rs\<close>, with
  \<open>validate_scale_up_fabric_config\<close> of \<open>handlers_v2.rs\<close> and the controller targets of
  \<open>handlers_v2/layout/controller_targets.rs\<close>): from a profile, the observed inventory and the
  requested fabrics it computes disjoint memberships, the state of every owned interface of
  every switch, and the controller settings of each fabric.  The search for disjoint placements
  keeps a cache of the states it has found to fail.
\<close>

section \<open>Requests, observations and plans\<close>

record ScaleUpFabricStaticConfig =
  sc_file_name :: string
  sc_key :: string
  sc_value :: string

record ScaleUpFabricConfig =
  sf_topology_type :: string
  extra_static_configs :: "ScaleUpFabricStaticConfig list"

record ScaleUpFabricSpec =
  sp_compute_tray_count :: u32
  sp_switch_tray_count :: u32
  sp_primary_switch_node_id :: "string option"

record ScaleUpFabricMembers =
  compute_node_ids :: "string list"
  switch_node_ids :: "string list"
  primary_switch_node_id :: string

record ResolvedPlacement =
  rp_computes :: "FabricPosition list"
  rp_switches :: "FabricPosition list"
  rp_links :: "(FabricPosition, link_states) hmap"

type_synonym FailedPlacementState = "nat \<times> FabricPosition list \<times> FabricPosition list"

record ObservedPlacement =
  node_id :: string
  op_node_type :: string
  chassis_serial_number :: string
  op_position :: FabricPosition
  op_physical_topology :: "string option"

record PlannedFabric =
  pf_assignment :: ScaleUpFabricMembers
  pf_config :: ScaleUpFabricConfig
  absent_static_configs :: "(string \<times> string) list"

record FabricPlan =
  fp_fabrics :: "PlannedFabric list"
  fp_links :: "(string, link_states) hmap"
  full_topology :: bool


section \<open>Caller configuration\<close>

definition NMX_TOPOLOGY_UNKNOWN :: string where "NMX_TOPOLOGY_UNKNOWN = ''unknown''"

definition trim_entry :: "ScaleUpFabricStaticConfig \<Rightarrow> ScaleUpFabricStaticConfig" where
  "trim_entry e = \<lparr> sc_file_name = trim (sc_file_name e), sc_key = trim (sc_key e), sc_value = trim (sc_value e) \<rparr>"

type_synonym entry_scan = "ScaleUpFabricStaticConfig list \<times> (string \<times> string) list"

definition extra_step :: "ScaleUpFabricStaticConfig \<Rightarrow> entry_scan \<Rightarrow> string + entry_scan" where
  "extra_step entry = (\<lambda>(done_entries, keys).
    let e = trim_entry entry; key = (sc_file_name e, sc_key e) in
    if sc_file_name e = [] \<or> sc_key e = []
    then Inl ''extra static config file names and keys must be non-empty''
    else if sc_file_name e = NMX_C_FM_CONFIG_FILE \<and> sc_key e = NMX_C_TOPOLOGY_KEY
    then Inl ''extra static config fm_config/MNNVL_TOPOLOGY conflicts with config.topology_type''
    else if key \<in> set keys
    then Inl (''duplicate extra static config '' @ sc_file_name e @ ''/'' @ sc_key e)
    else Inr (done_entries @ [e], key # keys))"

definition validate_scale_up_fabric_config :: "ScaleUpFabricConfig \<Rightarrow> string + ScaleUpFabricConfig" where
  "validate_scale_up_fabric_config config =
    (let topology = trim (sf_topology_type config) in
     if topology = [] then Inl ''config.topology_type is required''
     else if topology = NMX_TOPOLOGY_UNKNOWN
     then Inl ''config.topology_type must identify a configured topology''
     else bind_result (fold_result extra_step (extra_static_configs config) ([], [])) (\<lambda>(entries, _).
       Inr \<lparr> sf_topology_type = topology, extra_static_configs = entries \<rparr>))"

definition validate_managed_config :: "ScaleUpFabricConfig \<Rightarrow> string + ScaleUpFabricConfig" where
  "validate_managed_config config0 =
    bind_result (validate_scale_up_fabric_config config0) (\<lambda>config.
    bind_result (validate_static_config_value (sf_topology_type config)) (\<lambda>_.
    bind_result (fold_result (\<lambda>entry _.
      bind_result (validate_static_config_key (sc_file_name entry) (sc_key entry)) (\<lambda>_.
        validate_static_config_value (sc_value entry))) (extra_static_configs config) ()) (\<lambda>_.
    Inr config)))"

type_synonym config_values = "((string \<times> string), string) hmap \<times> (string \<times> string) list"

definition target_step :: "FabricStaticConfigTarget \<Rightarrow> config_values \<Rightarrow> string + config_values" where
  "target_step target = (\<lambda>(vals, absent).
    case config_action target of
      SetValue v \<Rightarrow>
        if hm_get vals (target_key target) \<noteq> None \<and> hm_get vals (target_key target) \<noteq> Some v
        then Inl ''caller static configuration conflicts with a controller set target''
        else Inr (bt_put (target_key target) v vals, absent)
    | Remove \<Rightarrow>
        if hm_get vals (target_key target) \<noteq> None
        then Inl ''caller static configuration conflicts with a controller removal target''
        else Inr (vals, bs_insert (target_key target) absent))"

definition matching_rule :: "FabricLayoutProfile \<Rightarrow> string \<Rightarrow> u32 \<Rightarrow> u32 \<Rightarrow> FabricControllerRule option" where
  "matching_rule profile topology compute_count switch_count =
    (case find (\<lambda>fabric. fr_compute_tray_count fabric = compute_count \<and> fr_switch_tray_count fabric = switch_count)
        (fabric_rules profile) of
      None \<Rightarrow> None
    | Some fabric \<Rightarrow> find (\<lambda>rule. topology_type rule = topology) (controller_rules fabric))"

definition resolve_controller_config ::
  "FabricLayoutProfile \<Rightarrow> ScaleUpFabricConfig \<Rightarrow> u32 \<Rightarrow> u32 \<Rightarrow> string + ScaleUpFabricConfig \<times> (string \<times> string) list"
where
  "resolve_controller_config profile config compute_count switch_count =
    bind_result (ok_or ''no controller rule matches the requested topology and fabric size''
      (matching_rule profile (sf_topology_type config) compute_count switch_count)) (\<lambda>rule.
    bind_result (fold_result target_step (static_configs rule)
      (fold (\<lambda>e. bt_put (sc_file_name e, sc_key e) (sc_value e)) (extra_static_configs config) [], [])) (\<lambda>(vals, absent).
    if length vals > 1024 then Inl ''resolved managed static config targets exceed 1024''
    else Inr (\<lparr> sf_topology_type = sf_topology_type config,
        extra_static_configs = map (\<lambda>((name, key), v). \<lparr> sc_file_name = name, sc_key = key, sc_value = v \<rparr>) vals \<rparr>,
      absent)))"

definition desired_config :: "PlannedFabric \<Rightarrow> config_entries" where
  "desired_config fabric =
    fold (\<lambda>k. bt_put k None) (absent_static_configs fabric)
      (bt_put (NMX_C_FM_CONFIG_FILE, NMX_C_TOPOLOGY_KEY) (Some (sf_topology_type (pf_config fabric)))
        (fold (\<lambda>e. bt_put (sc_file_name e, sc_key e) (Some (sc_value e))) (extra_static_configs (pf_config fabric)) []))"

text \<open>\<open>to_vec\<close> and \<open>sha256\<close> are the JSON encoder and the digest.\<close>

definition config_digest ::
  "(config_entries \<Rightarrow> string option) \<Rightarrow> (string \<Rightarrow> string) \<Rightarrow> PlannedFabric \<Rightarrow> string + string"
where
  "config_digest to_vec sha256 fabric =
    bind_result (ok_or ''cannot encode managed controller configuration'' (to_vec (desired_config fabric)))
      (\<lambda>bytes. Inr (sha256 bytes))"


section \<open>Inventory\<close>

definition slot_step :: "ObservedPlacement \<Rightarrow> u32 list \<times> u32 list \<Rightarrow> string + u32 list \<times> u32 list" where
  "slot_step node = (\<lambda>(indices, slots).
    if tray_index (op_position node) \<in> set indices \<or> slot_number (op_position node) \<in> set slots
    then Inl ''observed inventory contains duplicate tray indices or shared slots''
    else Inr (tray_index (op_position node) # indices, slot_number (op_position node) # slots))"

definition validate_inventory ::
  "FabricLayoutProfile \<Rightarrow> ObservedPlacement list \<Rightarrow> ObservedPlacement list \<Rightarrow> string + unit"
where
  "validate_inventory profile switches computes =
    (let serials = sort_dedup (map chassis_serial_number (switches @ computes));
         ids = sort_dedup (map node_id (switches @ computes)) in
     if length serials \<noteq> 1 \<or> list_ex (\<lambda>s. trim s = []) serials
       \<or> length ids \<noteq> length switches + length computes \<or> list_ex (\<lambda>i. trim i = []) ids
       \<or> length switches \<noteq> unat (switch_tray_count profile)
       \<or> length computes > unat (compute_tray_count profile)
     then Inl ''observed inventory must contain every configured switch, fit within compute capacity, and have unique node IDs in one chassis''
     else
       bind_result (fold_result slot_step switches ([], [])) (\<lambda>(_, slots).
       bind_result (fold_result slot_step computes ([], slots)) (\<lambda>_.
       if list_ex (\<lambda>node. op_node_type node \<notin> set (switch_node_types profile)
            \<or> op_physical_topology node \<noteq> Some (physical_topology profile)) switches
         \<or> list_ex (\<lambda>node. op_node_type node \<notin> set (compute_node_types profile)) computes
       then Inl ''observed hardware identity does not match the installed fabric profile''
       else Inr ())))"


section \<open>Placements\<close>

definition wants :: "ScaleUpFabricSpec list \<Rightarrow> FabricRule \<Rightarrow> bool" where
  "wants requested rule \<longleftrightarrow>
    list_ex (\<lambda>spec. sp_compute_tray_count spec = fr_compute_tray_count rule
      \<and> sp_switch_tray_count spec = fr_switch_tray_count rule) requested"

definition group_placement ::
  "FabricLayoutProfile \<Rightarrow> string list \<Rightarrow> FabricRule \<Rightarrow> DiscoveredGroup \<Rightarrow> ResolvedPlacement list
   \<Rightarrow> string + ResolvedPlacement list"
where
  "group_placement profile interfaces rule grp placements =
    (if length (dg_computes grp) \<noteq> unat (fr_compute_tray_count rule)
       \<or> length (dg_switches grp) \<noteq> unat (fr_switch_tray_count rule)
     then Inr placements
     else bind_result (link_expand (link_calculation profile) (dg_computes grp) (dg_switches grp) interfaces) (\<lambda>links.
       Inr (placements @ [\<lparr> rp_computes = dg_computes grp, rp_switches = dg_switches grp, rp_links = links \<rparr>])))"

definition rule_placements ::
  "FabricLayoutProfile \<Rightarrow> FabricPosition list \<Rightarrow> FabricPosition list \<Rightarrow> string list \<Rightarrow> FabricRule
   \<Rightarrow> ResolvedPlacement list \<Rightarrow> string + ResolvedPlacement list"
where
  "rule_placements profile computes switches interfaces rule placements =
    (case fr_grouping rule of
      None \<Rightarrow> Inr placements
    | Some grouping \<Rightarrow>
        bind_result (resolve grouping computes switches) (\<lambda>groups.
        fold_result (group_placement profile interfaces rule) groups placements))"

definition resolve_placements ::
  "FabricLayoutProfile \<Rightarrow> ObservedPlacement list \<Rightarrow> ObservedPlacement list \<Rightarrow> ScaleUpFabricSpec list
   \<Rightarrow> string + ResolvedPlacement list"
where
  "resolve_placements profile switches computes requested =
    (let compute_positions = sort_dedup (map op_position computes);
         switch_positions = sort_dedup (map op_position switches);
         interfaces = map fst (full_link_states profile) in
     bind_result
       (fold_result (rule_placements profile compute_positions switch_positions interfaces)
         (filter (wants requested) (fabric_rules profile)) [])
       (\<lambda>placements. Inr (sort_key (\<lambda>p. (rp_switches p, rp_computes p)) placements)))"

definition candidate_ok ::
  "ScaleUpFabricSpec list \<Rightarrow> (string, FabricPosition) hmap \<Rightarrow> nat \<Rightarrow> ScaleUpFabricSpec \<Rightarrow> ResolvedPlacement \<Rightarrow> bool"
where
  "candidate_ok requested switch_positions index spec placement \<longleftrightarrow>
    \<not> (length (rp_computes placement) \<noteq> unat (sp_compute_tray_count spec)
       \<or> length (rp_switches placement) \<noteq> unat (sp_switch_tray_count spec))
    \<and> \<not> (case sp_primary_switch_node_id spec of
         None \<Rightarrow> False
       | Some i \<Rightarrow> (case hm_get switch_positions i of
             None \<Rightarrow> True | Some position \<Rightarrow> position \<notin> set (rp_switches placement)))
    \<and> \<not> list_ex (\<lambda>(other_index, other). other_index \<noteq> index
         \<and> (case sp_primary_switch_node_id other of
             None \<Rightarrow> False
           | Some i \<Rightarrow> (case hm_get switch_positions i of
                 None \<Rightarrow> False | Some position \<Rightarrow> position \<in> set (rp_switches placement)))) (enumerate 0 requested)"

definition matching_placements ::
  "ResolvedPlacement list \<Rightarrow> ScaleUpFabricSpec list \<Rightarrow> (string, FabricPosition) hmap \<Rightarrow> ResolvedPlacement list list"
where
  "matching_placements placements requested switch_positions =
    map (\<lambda>(index, spec). filter (candidate_ok requested switch_positions index spec) placements) (enumerate 0 requested)"

definition occupied :: "ResolvedPlacement list \<Rightarrow> FailedPlacementState" where
  "occupied selected =
    (length selected, sort_dedup (concat (map rp_computes selected)), sort_dedup (concat (map rp_switches selected)))"

definition overlaps :: "ResolvedPlacement \<Rightarrow> FailedPlacementState \<Rightarrow> bool" where
  "overlaps placement = (\<lambda>(_, computes, switches).
    list_ex (\<lambda>c. c \<in> set computes) (rp_computes placement) \<or> list_ex (\<lambda>s. s \<in> set switches) (rp_switches placement))"

text \<open>The recursive search over the candidates of the requests that remain, and its loop over
  the options of the next one.  The vector of selected placements is restored when a branch
  fails, so it is passed down; the cache of failed states is threaded through.\<close>

function (sequential) search_placements ::
  "ResolvedPlacement list list \<Rightarrow> ResolvedPlacement list \<Rightarrow> FailedPlacementState list
   \<Rightarrow> ResolvedPlacement list option \<times> FailedPlacementState list"
and try_options ::
  "ResolvedPlacement list \<Rightarrow> ResolvedPlacement list list \<Rightarrow> ResolvedPlacement list \<Rightarrow> FailedPlacementState list
   \<Rightarrow> ResolvedPlacement list option \<times> FailedPlacementState list"
where
  "search_placements [] selected failed = (Some selected, failed)"
| "search_placements (options # rest) selected failed =
    (if list_ex (\<lambda>os. os = []) (options # rest) then (None, failed)
     else if occupied selected \<in> set failed then (None, failed)
     else try_options options rest selected failed)"
| "try_options [] rest selected failed = (None, occupied selected # failed)"
| "try_options (placement # options) rest selected failed =
    (if overlaps placement (occupied selected) then try_options options rest selected failed
     else case search_placements rest (selected @ [placement]) failed of
       (Some found, failed') \<Rightarrow> (Some found, failed')
     | (None, failed') \<Rightarrow> try_options options rest selected failed')"
  by pat_completeness auto
termination
  by (relation "measures [case_sum (\<lambda>(cs, _, _). 2 * length cs) (\<lambda>(_, rest, _, _). 2 * length rest + 1),
        case_sum (\<lambda>_. 0) (\<lambda>(os, _, _, _). length os)]") auto

definition select_placements :: "ResolvedPlacement list list \<Rightarrow> ResolvedPlacement list option" where
  "select_placements candidates = fst (search_placements candidates [] [])"


section \<open>Plans\<close>

definition members_at :: "FabricPosition list \<Rightarrow> ObservedPlacement list \<Rightarrow> ObservedPlacement list" where
  "members_at positions nodes = sort_key op_position (filter (\<lambda>node. op_position node \<in> set positions) nodes)"

definition link_step ::
  "ObservedPlacement list \<Rightarrow> FabricPosition \<times> link_states \<Rightarrow> (string, link_states) hmap
   \<Rightarrow> string + (string, link_states) hmap"
where
  "link_step switch_members = (\<lambda>(position, states) links.
    bind_result (ok_or ''private link target has no discovered switch''
      (find (\<lambda>node. op_position node = position) switch_members)) (\<lambda>node.
    Inr (bt_put (node_id node) states links)))"

definition fabric_step ::
  "FabricLayoutProfile \<Rightarrow> ObservedPlacement list \<Rightarrow> ObservedPlacement list \<Rightarrow> ScaleUpFabricConfig
   \<Rightarrow> ScaleUpFabricSpec \<times> ResolvedPlacement \<Rightarrow> PlannedFabric list \<times> (string, link_states) hmap
   \<Rightarrow> string + PlannedFabric list \<times> (string, link_states) hmap"
where
  "fabric_step profile switches computes config = (\<lambda>(spec, placement) (fabrics, links).
    bind_result (resolve_controller_config profile config (sp_compute_tray_count spec) (sp_switch_tray_count spec))
      (\<lambda>(fabric_config, absent).
    let switch_members = members_at (rp_switches placement) switches in
    bind_result (ok_or ''resolved fabric has no primary candidate''
      (case sp_primary_switch_node_id spec of
        Some i \<Rightarrow> Some i
      | None \<Rightarrow> (case switch_members of [] \<Rightarrow> None | node # _ \<Rightarrow> Some (node_id node)))) (\<lambda>primary.
    bind_result (fold_result (link_step switch_members) (rp_links placement) links) (\<lambda>links'.
    Inr (fabrics @ [\<lparr> pf_assignment = \<lparr> compute_node_ids = map node_id (members_at (rp_computes placement) computes),
          switch_node_ids = map node_id switch_members, primary_switch_node_id = primary \<rparr>,
        pf_config = fabric_config, absent_static_configs = absent \<rparr>], links')))))"

definition count_step :: "ScaleUpFabricSpec \<Rightarrow> nat \<times> nat \<Rightarrow> string + nat \<times> nat" where
  "count_step spec = (\<lambda>(computes, switches).
    if computes < unat (sp_compute_tray_count spec)
    then Inl ''requested fabric compute count exceeds supplied inventory''
    else if switches < unat (sp_switch_tray_count spec)
    then Inl ''requested fabric switch count exceeds supplied inventory''
    else Inr (computes - unat (sp_compute_tray_count spec), switches - unat (sp_switch_tray_count spec)))"

definition plan_full_rack ::
  "FabricLayoutProfile \<Rightarrow> ObservedPlacement list \<Rightarrow> ObservedPlacement list \<Rightarrow> ScaleUpFabricConfig \<Rightarrow> string option
   \<Rightarrow> string + FabricPlan"
where
  "plan_full_rack profile switches computes requested_config preferred =
    (if computes \<noteq> [] \<and> length computes \<noteq> unat (compute_tray_count profile)
     then Inl ''full-topology compute inventory must be complete when supplied''
     else
       bind_result (validate_managed_config requested_config) (\<lambda>config.
       bind_result (resolve_controller_config profile config (compute_tray_count profile) (switch_tray_count profile))
         (\<lambda>(fabric_config, absent).
       let ordered = sort_key op_position switches in
       bind_result
         (case preferred of
           Some i \<Rightarrow>
             if list_ex (\<lambda>node. node_id node = i) ordered then Inr i
             else Inl ''preferred primary is absent from the supplied switch inventory''
         | None \<Rightarrow>
             (case ordered of
               [] \<Rightarrow> Inl ''full-inventory restoration has no switch''
             | node # _ \<Rightarrow> Inr (node_id node))) (\<lambda>primary.
       Inr \<lparr> fp_fabrics = [\<lparr> pf_assignment =
               \<lparr> compute_node_ids = map node_id (sort_key op_position computes),
                 switch_node_ids = map node_id ordered, primary_switch_node_id = primary \<rparr>,
             pf_config = fabric_config, absent_static_configs = absent \<rparr>],
           fp_links = fold (\<lambda>node. bt_put (node_id node) (full_link_states profile)) ordered [],
           full_topology = True \<rparr>))))"

definition plan_smaller ::
  "FabricLayoutProfile \<Rightarrow> ObservedPlacement list \<Rightarrow> ObservedPlacement list \<Rightarrow> ScaleUpFabricSpec list
   \<Rightarrow> ScaleUpFabricConfig \<Rightarrow> string + FabricPlan"
where
  "plan_smaller profile switches computes requested requested_config =
    (if requested = [] \<or> computes = []
     then Inl ''smaller fabric layouts require compute inventory and nonempty fabrics''
     else
       bind_result (validate_managed_config requested_config) (\<lambda>config.
       bind_result (fold_result count_step requested (length computes, length switches)) (\<lambda>_.
       let switch_positions = fold (\<lambda>node. bt_put (node_id node) (op_position node)) switches [] in
       bind_result (resolve_placements profile switches computes requested) (\<lambda>placements.
       bind_result (ok_or ''requested fabric memberships have no supported disjoint placement''
         (select_placements (matching_placements placements requested switch_positions))) (\<lambda>selected.
       bind_result (fold_result (fabric_step profile switches computes config) (zip requested selected)
         ([], fold (\<lambda>node. bt_put (node_id node) (map (\<lambda>(i, _). (i, Down)) (full_link_states profile))) switches []))
         (\<lambda>(fabrics, links).
       Inr \<lparr> fp_fabrics = fabrics, fp_links = links, full_topology = False \<rparr>))))))"

definition plan_layout ::
  "FabricLayoutProfile \<Rightarrow> ObservedPlacement list \<Rightarrow> ObservedPlacement list \<Rightarrow> ScaleUpFabricSpec list
   \<Rightarrow> ScaleUpFabricConfig \<Rightarrow> string + FabricPlan"
where
  "plan_layout profile switches computes requested requested_config =
    bind_result (profile_validate profile) (\<lambda>_.
    bind_result (validate_inventory profile switches computes) (\<lambda>_.
    case requested of
      [fabric] \<Rightarrow>
        if sp_compute_tray_count fabric = compute_tray_count profile
          \<and> sp_switch_tray_count fabric = switch_tray_count profile
        then plan_full_rack profile switches computes requested_config (sp_primary_switch_node_id fabric)
        else plan_smaller profile switches computes requested requested_config
    | _ \<Rightarrow> plan_smaller profile switches computes requested requested_config))"

end
