(* ===== verification/Planner_Properties.thy ===== *)
theory Planner_Properties
  imports Fabric_Planner
begin

text \<open>
  What the planner guarantees: the search with its cache of failed states finds exactly what
  plain backtracking finds, which is an assignment whenever one exists; a plan assigns disjoint
  members of the requested sizes, gives every owned interface of every switch a state, and
  produces controller settings that the managed configuration accepts.
\<close>

section \<open>The search\<close>

text \<open>Backtracking without a cache, over the sets of occupied positions.\<close>

definition clear_of :: "FabricPosition set \<Rightarrow> FabricPosition set \<Rightarrow> ResolvedPlacement \<Rightarrow> bool" where
  "clear_of cs ss p \<longleftrightarrow> set (rp_computes p) \<inter> cs = {} \<and> set (rp_switches p) \<inter> ss = {}"

function (sequential) backtrack ::
  "ResolvedPlacement list list \<Rightarrow> FabricPosition set \<Rightarrow> FabricPosition set \<Rightarrow> ResolvedPlacement list option"
and backtrack_options ::
  "ResolvedPlacement list \<Rightarrow> ResolvedPlacement list list \<Rightarrow> FabricPosition set \<Rightarrow> FabricPosition set
   \<Rightarrow> ResolvedPlacement list option"
where
  "backtrack [] cs ss = Some []"
| "backtrack (options # rest) cs ss = backtrack_options options rest cs ss"
| "backtrack_options [] rest cs ss = None"
| "backtrack_options (p # options) rest cs ss =
    (if \<not> clear_of cs ss p then backtrack_options options rest cs ss
     else case backtrack rest (cs \<union> set (rp_computes p)) (ss \<union> set (rp_switches p)) of
       Some ps \<Rightarrow> Some (p # ps)
     | None \<Rightarrow> backtrack_options options rest cs ss)"
  by pat_completeness auto
termination
  by (relation "measures [case_sum (\<lambda>(c, _, _). 2 * length c) (\<lambda>(_, rest, _, _). 2 * length rest + 1),
        case_sum (\<lambda>_. 0) (\<lambda>(os, _, _, _). length os)]") auto

text \<open>A choice of one candidate per request, pairwise disjoint and clear of what is occupied.\<close>

fun disjoint_choice ::
  "ResolvedPlacement list list \<Rightarrow> FabricPosition set \<Rightarrow> FabricPosition set \<Rightarrow> ResolvedPlacement list \<Rightarrow> bool"
where
  "disjoint_choice [] cs ss ps \<longleftrightarrow> ps = []"
| "disjoint_choice (options # rest) cs ss ps \<longleftrightarrow>
    (case ps of [] \<Rightarrow> False
     | p # qs \<Rightarrow> p \<in> set options \<and> clear_of cs ss p
         \<and> disjoint_choice rest (cs \<union> set (rp_computes p)) (ss \<union> set (rp_switches p)) qs)"

lemma backtrack_sound:
  "backtrack cands cs ss = Some ps \<Longrightarrow> disjoint_choice cands cs ss ps"
  "backtrack_options options rest cs ss = Some ps \<Longrightarrow> disjoint_choice (options # rest) cs ss ps"
proof (induction cands cs ss and options rest cs ss arbitrary: ps and ps rule: backtrack_backtrack_options.induct)
  case (4 p options rest cs ss)
  show ?case
  proof (cases "clear_of cs ss p")
    case False
    then show ?thesis using 4 by (auto split: list.splits)
  next
    case True
    then show ?thesis
      using 4 by (cases "backtrack rest (cs \<union> set (rp_computes p)) (ss \<union> set (rp_switches p))") (auto split: list.splits)
  qed
qed auto

lemma backtrack_complete:
  "backtrack cands cs ss = None \<Longrightarrow> \<not> disjoint_choice cands cs ss ps"
  "backtrack_options options rest cs ss = None \<Longrightarrow> \<not> disjoint_choice (options # rest) cs ss ps"
proof (induction cands cs ss and options rest cs ss arbitrary: ps and ps rule: backtrack_backtrack_options.induct)
  case (4 p options rest cs ss)
  let ?rest = "backtrack rest (cs \<union> set (rp_computes p)) (ss \<union> set (rp_switches p))"
  have opts: "backtrack_options options rest cs ss = None" and p: "clear_of cs ss p \<Longrightarrow> ?rest = None"
    using 4(4) by (auto split: if_splits option.splits)
  have tail: "\<not> disjoint_choice (options # rest) cs ss ps"
    using 4(1,3) opts p by (cases "clear_of cs ss p") auto
  show ?case
  proof
    assume d: "disjoint_choice ((p # options) # rest) cs ss ps"
    then obtain q qs where ps: "ps = q # qs" by (cases ps) auto
    with d tail have "q = p" by auto
    with d ps have "clear_of cs ss p" "disjoint_choice rest (cs \<union> set (rp_computes p)) (ss \<union> set (rp_switches p)) qs"
      by auto
    then show False using 4(2) p by auto
  qed
qed (auto split: list.splits)

text \<open>The positions a partial choice occupies, and the states a cache may hold: those from
  which backtracking fails.\<close>

abbreviation taken_computes :: "ResolvedPlacement list \<Rightarrow> FabricPosition set" where
  "taken_computes ps \<equiv> set (concat (map rp_computes ps))"

abbreviation taken_switches :: "ResolvedPlacement list \<Rightarrow> FabricPosition set" where
  "taken_switches ps \<equiv> set (concat (map rp_switches ps))"

definition failures :: "ResolvedPlacement list list \<Rightarrow> FailedPlacementState list \<Rightarrow> bool" where
  "failures cands failed \<longleftrightarrow>
    (\<forall>(i, cs, ss) \<in> set failed. backtrack (drop i cands) (set cs) (set ss) = None)"

lemma overlaps_occupied: "overlaps p (occupied sel) \<longleftrightarrow> \<not> clear_of (taken_computes sel) (taken_switches sel) p"
  by (auto simp: overlaps_def occupied_def clear_of_def list_ex_iff)

lemma backtrack_empty: "[] \<in> set cands \<Longrightarrow> backtrack cands cs ss = None"
proof -
  assume "[] \<in> set cands"
  then have "\<not> disjoint_choice cands cs ss ps" for ps
    by (induction cands arbitrary: cs ss ps) (auto split: list.splits)
  then show ?thesis using backtrack_sound(1) [of cands cs ss] by (cases "backtrack cands cs ss") blast+
qed

lemma search_cut:
  assumes "list_ex (\<lambda>os. os = []) (options # rest) \<or> occupied sel \<in> set failed"
    and "options # rest = drop (length sel) all" "failures all failed"
  shows "search_placements (options # rest) sel failed = (None, failed)
    \<and> backtrack (options # rest) (taken_computes sel) (taken_switches sel) = None"
proof (cases "list_ex (\<lambda>os. os = []) (options # rest)")
  case True
  then have "backtrack (options # rest) (taken_computes sel) (taken_switches sel) = None"
    by (intro backtrack_empty) (auto simp: list_ex_iff)
  with True show ?thesis by simp
next
  case False
  then have "backtrack (drop (length sel) all) (taken_computes sel) (taken_switches sel) = None"
    using assms(1,3) by (force simp: failures_def occupied_def)
  moreover have "search_placements (options # rest) sel failed = (None, failed)" using False assms(1) by simp
  ultimately show ?thesis by (simp only: assms(2))
qed

lemma search_backtrack:
  "search_placements cands sel failed = (r, failed') \<Longrightarrow> cands = drop (length sel) all \<Longrightarrow> failures all failed \<Longrightarrow>
    r = map_option ((@) sel) (backtrack cands (taken_computes sel) (taken_switches sel)) \<and> failures all failed'"
  "try_options options rest sel failed = (r, failed') \<Longrightarrow> drop (length sel) all = (tried @ options) # rest \<Longrightarrow>
    backtrack_options (tried @ options) rest (taken_computes sel) (taken_switches sel) =
      backtrack_options options rest (taken_computes sel) (taken_switches sel) \<Longrightarrow> failures all failed \<Longrightarrow>
    r = map_option ((@) sel) (backtrack_options options rest (taken_computes sel) (taken_switches sel)) \<and> failures all failed'"
proof (induction cands sel failed and options rest sel failed arbitrary: r failed' and r failed' tried
    rule: search_placements_try_options.induct)
  case (1 sel failed)
  then show ?case by auto
next
  case (2 options rest sel failed)
  show ?case
  proof (cases "list_ex (\<lambda>os. os = []) (options # rest) \<or> occupied sel \<in> set failed")
    case True
    from search_cut [OF True 2(3,4)] 2(2,4) show ?thesis by (metis option.map(1) prod.inject)
  next
    case False
    then have go: "\<not> list_ex (\<lambda>os. os = []) (options # rest)" "occupied sel \<notin> set failed" by auto
    then have "try_options options rest sel failed = (r, failed')" using 2(2) by auto
    from 2(1) [OF go this, of "[]"] 2(3) [symmetric] 2(4) show ?thesis by simp
  qed
next
  case (3 rest sel failed)
  then show ?case
    by (auto simp: failures_def occupied_def)
next
  case (4 p options rest sel failed)
  show ?case
  proof (cases "overlaps p (occupied sel)")
    case True
    then have "try_options options rest sel failed = (r, failed')" using 4(4) by simp
    from 4(1) [OF True this, of "tried @ [p]"] True 4(5-7) show ?thesis by (simp add: overlaps_occupied)
  next
    case False
    obtain r1 failed1 where s: "search_placements rest (sel @ [p]) failed = (r1, failed1)" by (cases "search_placements rest (sel @ [p]) failed")
    have drop: "rest = drop (length (sel @ [p])) all" using 4(5) by (metis drop_Suc length_append_singleton list.sel(3) tl_drop)
    have ih: "r1 = map_option (\<lambda>a. sel @ p # a) (backtrack rest (taken_computes sel \<union> set (rp_computes p)) (taken_switches sel \<union> set (rp_switches p)))"
      "failures all failed1"
      using 4(2) [OF False s drop 4(7)] by auto
    show ?thesis
    proof (cases r1)
      case (Some found)
      then have "(r, failed') = (r1, failed1)" using 4(4) s False by simp
      then show ?thesis
        using Some ih False
        by (cases "backtrack rest (taken_computes sel \<union> set (rp_computes p)) (taken_switches sel \<union> set (rp_switches p))")
          (auto simp: overlaps_occupied)
    next
      case None
      then have t: "try_options options rest sel failed1 = (r, failed')" using 4(4) s False by simp
      have bt: "backtrack_options (p # options) rest (taken_computes sel) (taken_switches sel) =
          backtrack_options options rest (taken_computes sel) (taken_switches sel)"
        using False ih(1) None by (simp add: overlaps_occupied)
      from 4(3) [OF False s [symmetric] None t, of "tried @ [p]"] 4(5,6) bt ih(2)
      show ?thesis by simp
    qed
  qed
qed

lemma select_backtrack: "select_placements cands = backtrack cands {} {}"
proof -
  obtain r failed where s: "search_placements cands [] [] = (r, failed)" by (cases "search_placements cands [] []")
  from search_backtrack(1) [OF s, of cands] have "r = backtrack cands {} {}"
    by (cases "backtrack cands {} {}") (auto simp: failures_def)
  then show ?thesis using s by (simp add: select_placements_def)
qed

lemma disjoint_choice_iff:
  "disjoint_choice cands cs ss ps \<longleftrightarrow>
    list_all2 (\<lambda>p options. p \<in> set options \<and> clear_of cs ss p) ps cands
    \<and> (\<forall>j < length ps. \<forall>i < j. set (rp_computes (ps ! i)) \<inter> set (rp_computes (ps ! j)) = {}
        \<and> set (rp_switches (ps ! i)) \<inter> set (rp_switches (ps ! j)) = {})"
proof (induction cands arbitrary: cs ss ps)
  case (Cons options rest)
  note IH = Cons.IH
  show ?case
  proof (cases ps)
    case (Cons p qs)
    have clear: "list_all2 (\<lambda>q options. q \<in> set options \<and> clear_of (cs \<union> set (rp_computes p)) (ss \<union> set (rp_switches p)) q) qs rest \<longleftrightarrow>
        list_all2 (\<lambda>q options. q \<in> set options \<and> clear_of cs ss q) qs rest
        \<and> (\<forall>j < length qs. set (rp_computes p) \<inter> set (rp_computes (qs ! j)) = {} \<and> set (rp_switches p) \<inter> set (rp_switches (qs ! j)) = {})"
      by (auto simp: list_all2_conv_all_nth clear_of_def)
    show ?thesis
      unfolding Cons by (simp add: IH clear All_less_Suc2) blast
  qed simp
qed (auto)

text \<open>One candidate per request, with pairwise disjoint members.\<close>

definition disjoint_assignment :: "ResolvedPlacement list list \<Rightarrow> ResolvedPlacement list \<Rightarrow> bool" where
  "disjoint_assignment cands ps \<longleftrightarrow>
    list_all2 (\<lambda>p options. p \<in> set options) ps cands
    \<and> (\<forall>j < length ps. \<forall>i < j. set (rp_computes (ps ! i)) \<inter> set (rp_computes (ps ! j)) = {}
        \<and> set (rp_switches (ps ! i)) \<inter> set (rp_switches (ps ! j)) = {})"

lemma disjoint_assignment_iff: "disjoint_choice cands {} {} ps \<longleftrightarrow> disjoint_assignment cands ps"
  by (simp add: disjoint_choice_iff disjoint_assignment_def clear_of_def)

lemma select_assignment: "select_placements cands = Some ps \<Longrightarrow> disjoint_assignment cands ps"
  using backtrack_sound(1) by (simp add: select_backtrack disjoint_assignment_iff [symmetric])

text \<open>C13. The search for disjoint placements is exact: with its cache of failed states and its
  early exits it returns what plain backtracking over the candidates returns, which is an
  assignment of one candidate to every request with pairwise disjoint computes and switches, and
  it returns none only when there is no such assignment.\<close>

theorem search_exact:
  "select_placements candidates = backtrack candidates {} {}
   \<and> (case select_placements candidates of
        Some ps \<Rightarrow> disjoint_assignment candidates ps
      | None \<Rightarrow> \<nexists>ps. disjoint_assignment candidates ps)"
  using backtrack_complete(1) [of candidates "{}" "{}"] select_assignment
  by (cases "select_placements candidates") (auto simp: select_backtrack disjoint_assignment_iff)


section \<open>Inventory and members\<close>

lemma length_sort_dedup: "length (sort_dedup xs) = card (set xs)"
  using distinct_card [OF distinct_sort_dedup, of xs] by simp

lemma slot_steps:
  "fold_result slot_step nodes (indices, slots) = Inr (indices', slots') \<Longrightarrow>
    distinct (map (tray_index \<circ> op_position) nodes)
    \<and> set indices \<inter> (tray_index \<circ> op_position) ` set nodes = {}"
proof (induction nodes arbitrary: indices slots)
  case (Cons n nodes)
  obtain u where u: "slot_step n (indices, slots) = Inr u" "fold_result slot_step nodes u = Inr (indices', slots')"
    using Cons.prems by (auto simp: bind_result_Inr_iff)
  then have n: "tray_index (op_position n) \<notin> set indices"
    "u = (tray_index (op_position n) # indices, slot_number (op_position n) # slots)"
    by (auto simp: slot_step_def split: if_splits)
  from Cons.IH [OF u(2) [unfolded n(2)]] n(1) show ?case by auto
qed simp

lemma slot_steps_distinct:
  assumes "fold_result slot_step nodes s = Inr t"
  shows "distinct (map op_position nodes)"
proof -
  have "distinct (map (tray_index \<circ> op_position) nodes)"
    using assms slot_steps by (metis surj_pair)
  then show ?thesis by (metis distinct_map map_map)
qed

lemma inventory_distinct:
  assumes "validate_inventory profile switches computes = Inr ()"
  shows "distinct (map node_id (switches @ computes))" "distinct (map op_position switches)"
    "distinct (map op_position computes)" "length switches = unat (switch_tray_count profile)"
proof -
  have ids: "length (sort_dedup (map node_id (switches @ computes))) = length (map node_id (switches @ computes))"
    and len: "length switches = unat (switch_tray_count profile)"
    and slots: "\<exists>t. fold_result slot_step switches ([], []) = Inr t"
      "\<exists>s t. fold_result slot_step computes s = Inr t"
    using assms by (auto simp: validate_inventory_def Let_def bind_result_Inr_iff split: if_splits)
  show "distinct (map node_id (switches @ computes))"
    using ids card_distinct unfolding length_sort_dedup by fastforce
  show "distinct (map op_position switches)" "distinct (map op_position computes)"
    using slots slot_steps_distinct by blast+
  show "length switches = unat (switch_tray_count profile)" by (rule len)
qed

lemma set_members_at [simp]: "set (members_at ps nodes) = {n \<in> set nodes. op_position n \<in> set ps}"
  by (auto simp: members_at_def)

lemma members_at_positions:
  assumes "distinct (map op_position nodes)" "bs_ok ps" "set ps \<subseteq> op_position ` set nodes"
  shows "map op_position (members_at ps nodes) = ps"
proof -
  have "sorted (map op_position (members_at ps nodes))" by (simp add: members_at_def)
  moreover have "distinct (map op_position (members_at ps nodes))"
    using assms(1) by (simp add: members_at_def distinct_map inj_on_def)
  moreover have "set (map op_position (members_at ps nodes)) = set ps" using assms(3) by auto
  ultimately show ?thesis using assms(2) unfolding bs_ok_def strict_sorted_iff
    by (metis sorted_distinct_set_unique)
qed


section \<open>Placements\<close>

text \<open>A placement over an inventory: members in order, all of them observed, and the links that
  the calculation gives for exactly these members.\<close>

definition placement_ok ::
  "FabricLayoutProfile \<Rightarrow> ObservedPlacement list \<Rightarrow> ObservedPlacement list \<Rightarrow> ResolvedPlacement \<Rightarrow> bool"
where
  "placement_ok profile switches computes p \<longleftrightarrow>
    bs_ok (rp_computes p) \<and> bs_ok (rp_switches p)
    \<and> set (rp_computes p) \<subseteq> op_position ` set computes \<and> set (rp_switches p) \<subseteq> op_position ` set switches
    \<and> link_expand (link_calculation profile) (rp_computes p) (rp_switches p) (map fst (full_link_states profile)) = Inr (rp_links p)"

lemma bs_ok_sort_dedup: "bs_ok (sort_dedup xs)"
  by (simp add: bs_ok_def strict_sorted_iff distinct_sort_dedup)

lemma group_placement_ok:
  assumes "group_placement profile (map fst (full_link_states profile)) rule grp ps = Inr ps'"
    and "\<forall>p \<in> set ps. placement_ok profile switches computes p"
    and "bs_ok (dg_computes grp)" "bs_ok (dg_switches grp)"
    and "set (dg_computes grp) \<subseteq> op_position ` set computes" "set (dg_switches grp) \<subseteq> op_position ` set switches"
  shows "\<forall>p \<in> set ps'. placement_ok profile switches computes p"
proof -
  consider "ps' = ps"
    | links where "link_expand (link_calculation profile) (dg_computes grp) (dg_switches grp) (map fst (full_link_states profile)) = Inr links"
      "ps' = ps @ [\<lparr> rp_computes = dg_computes grp, rp_switches = dg_switches grp, rp_links = links \<rparr>]"
    using assms(1) by (auto simp: group_placement_def bind_result_Inr_iff split: if_splits)
  then show ?thesis
  proof cases
    case (2 links)
    then have "placement_ok profile switches computes \<lparr> rp_computes = dg_computes grp, rp_switches = dg_switches grp, rp_links = links \<rparr>"
      using assms(3-6) by (simp add: placement_ok_def)
    then show ?thesis using assms(2) 2(2) by simp
  qed (use assms(2) in simp)
qed

lemma rule_placements_ok:
  assumes "rule_placements profile (sort_dedup (map op_position computes)) (sort_dedup (map op_position switches))
      (map fst (full_link_states profile)) rule ps = Inr ps'"
    and "\<forall>p \<in> set ps. placement_ok profile switches computes p"
  shows "\<forall>p \<in> set ps'. placement_ok profile switches computes p"
proof (cases "fr_grouping rule")
  case None
  then show ?thesis using assms by (simp add: rule_placements_def)
next
  case (Some g)
  let ?cs = "sort_dedup (map op_position computes)" and ?ss = "sort_dedup (map op_position switches)"
  obtain groups where groups: "resolve g ?cs ?ss = Inr groups"
    and fold: "fold_result (group_placement profile (map fst (full_link_states profile)) rule) groups ps = Inr ps'"
    using assms(1) Some by (auto simp: rule_placements_def bind_result_Inr_iff)
  have grp: "bs_ok (dg_computes grp) \<and> bs_ok (dg_switches grp)
      \<and> set (dg_computes grp) \<subseteq> op_position ` set computes \<and> set (dg_switches grp) \<subseteq> op_position ` set switches"
    if "grp \<in> set groups" for grp
    using that bs_ok_sort_dedup [of "map op_position computes"] bs_ok_sort_dedup [of "map op_position switches"]
    unfolding resolve_groups [OF groups bs_ok_sort_dedup bs_ok_sort_dedup]
    by (auto simp: members_def bs_ok_def sorted_wrt_filter)
  show ?thesis
    by (rule fold_result_inv [where P = "\<lambda>ps. \<forall>p \<in> set ps. placement_ok profile switches computes p", OF fold assms(2)])
      (use grp group_placement_ok in blast)
qed

lemma resolve_placements_ok:
  assumes "resolve_placements profile switches computes requested = Inr ps" "p \<in> set ps"
  shows "placement_ok profile switches computes p"
proof -
  obtain qs where fold: "fold_result (rule_placements profile (sort_dedup (map op_position computes))
        (sort_dedup (map op_position switches)) (map fst (full_link_states profile)))
      (filter (wants requested) (fabric_rules profile)) [] = Inr qs" and ps: "set ps = set qs"
    using assms(1) by (auto simp: resolve_placements_def Let_def bind_result_Inr_iff)
  have "\<forall>p \<in> set qs. placement_ok profile switches computes p"
    by (rule fold_result_inv [where P = "\<lambda>ps. \<forall>p \<in> set ps. placement_ok profile switches computes p", OF fold])
      (use rule_placements_ok in auto)
  then show ?thesis using assms(2) ps by blast
qed

lemma placement_links:
  assumes "placement_ok profile switches computes p" "bt_ok (full_link_states profile)"
  shows "map fst (rp_links p) = rp_switches p" "rp_switches p \<noteq> []"
    "(s, states) \<in> set (rp_links p) \<Longrightarrow> map fst states = map fst (full_link_states profile)"
proof -
  have ok: "bs_ok (rp_switches p)" "bs_ok (map fst (full_link_states profile))"
    and links: "link_expand (link_calculation profile) (rp_computes p) (rp_switches p) (map fst (full_link_states profile)) = Inr (rp_links p)"
    using assms by (auto simp: placement_ok_def bs_ok_def bt_ok_def)
  note e = link_expand_expanded [OF links ok]
  show "map fst (rp_links p) = rp_switches p" by (rule e(1))
  show "rp_switches p \<noteq> []" using links by (auto simp: link_expand_def bind_result_Inr_iff split: if_splits)
  show "map fst states = map fst (full_link_states profile)" if "(s, states) \<in> set (rp_links p)"
    using e(2) [OF that] by (auto simp: expanded_def)
qed

text \<open>The candidates of a request have its sizes and its primary.\<close>

lemma matching_candidate:
  assumes "list_all2 (\<lambda>p options. p \<in> set options) ps (matching_placements qs requested positions)" "i < length requested"
  shows "length ps = length requested" "ps ! i \<in> set qs" "candidate_ok requested positions i (requested ! i) (ps ! i)"
  using assms by (auto simp: matching_placements_def list_all2_conv_all_nth nth_enumerate_eq)

end
