(* ===== verification/Plan_Properties.thy ===== *)
theory Plan_Properties
  imports Planner_Properties
begin

text \<open>
  What a plan contains: the members of each fabric are observed nodes in the requested numbers,
  with the requested primary, disjoint from the members of the other fabrics; every owned
  interface of every switch has a state, computed from the members of the switch's own fabric,
  or down when the switch is in none; and the controller settings of each fabric are accepted
  by the managed configuration that applies them.
\<close>

section \<open>The loop over the fabrics\<close>

definition downs :: "FabricLayoutProfile \<Rightarrow> link_states" where
  "downs profile = map (\<lambda>(i, _). (i, Down)) (full_link_states profile)"

text \<open>The states that a sequence of placements leaves to a node.\<close>

definition links_value ::
  "(ScaleUpFabricSpec \<times> ResolvedPlacement) list \<Rightarrow> FabricPosition \<Rightarrow> link_states \<Rightarrow> link_states"
where
  "links_value es position init =
    fold (\<lambda>(_, p) acc. case hm_get (rp_links p) position of Some st \<Rightarrow> st | None \<Rightarrow> acc) es init"

lemma links_value_none:
  "\<forall>(_, p) \<in> set es. hm_get (rp_links p) position = None \<Longrightarrow> links_value es position init = init"
  by (induction es arbitrary: init) (auto simp: links_value_def)

lemma links_value_one:
  assumes "hm_get (rp_links p) position = Some st" "\<forall>(_, q) \<in> set ys. hm_get (rp_links q) position = None"
  shows "links_value (xs @ (spec, p) # ys) position init = st"
  using assms links_value_none [OF assms(2)] by (simp add: links_value_def)

definition fabric_for ::
  "FabricLayoutProfile \<Rightarrow> ObservedPlacement list \<Rightarrow> ObservedPlacement list \<Rightarrow> ScaleUpFabricConfig
   \<Rightarrow> ScaleUpFabricSpec \<times> ResolvedPlacement \<Rightarrow> PlannedFabric \<Rightarrow> bool"
where
  "fabric_for profile switches computes config = (\<lambda>(spec, p) fabric.
    compute_node_ids (pf_assignment fabric) = map node_id (members_at (rp_computes p) computes)
    \<and> switch_node_ids (pf_assignment fabric) = map node_id (members_at (rp_switches p) switches)
    \<and> (case sp_primary_switch_node_id spec of
         Some i \<Rightarrow> primary_switch_node_id (pf_assignment fabric) = i
       | None \<Rightarrow> primary_switch_node_id (pf_assignment fabric) \<in> set (switch_node_ids (pf_assignment fabric)))
    \<and> resolve_controller_config profile config (sp_compute_tray_count spec) (sp_switch_tray_count spec) =
        Inr (pf_config fabric, absent_static_configs fabric))"

definition planned ::
  "FabricLayoutProfile \<Rightarrow> ObservedPlacement list \<Rightarrow> ObservedPlacement list \<Rightarrow> ScaleUpFabricConfig
   \<Rightarrow> (ScaleUpFabricSpec \<times> ResolvedPlacement) list \<Rightarrow> PlannedFabric list \<times> (string, link_states) hmap \<Rightarrow> bool"
where
  "planned profile switches computes config es = (\<lambda>(fabrics, links).
    list_all2 (fabric_for profile switches computes config) es fabrics
    \<and> bt_ok links \<and> fst ` set links = node_id ` set switches
    \<and> (\<forall>n \<in> set switches. hm_get links (node_id n) = Some (links_value es (op_position n) (downs profile))))"

lemma link_steps:
  assumes "fold_result (link_step ms) l links = Inr links'" "bt_ok links" "distinct (map fst l)"
    and "set ms \<subseteq> set switches" "distinct (map op_position switches)" "distinct (map node_id switches)"
    and "fst ` set links = node_id ` set switches"
  shows "bt_ok links' \<and> fst ` set links' = node_id ` set switches
    \<and> (\<forall>n \<in> set switches. hm_get links' (node_id n) =
        (case hm_get l (op_position n) of Some st \<Rightarrow> Some st | None \<Rightarrow> hm_get links (node_id n)))"
  using assms(1-3,7)
proof (induction l arbitrary: links)
  case (Cons e l)
  obtain position st where e: "e = (position, st)" by (cases e)
  obtain u where u: "link_step ms e links = Inr u" and rest: "fold_result (link_step ms) l u = Inr links'"
    using Cons.prems(1) by (auto simp: bind_result_Inr_iff)
  obtain m where find: "find (\<lambda>n. op_position n = position) ms = Some m" and put: "u = bt_put (node_id m) st links"
    using u by (auto simp: link_step_def e bind_result_Inr_iff)
  have m: "m \<in> set ms" "op_position m = position" "u = bt_put (node_id m) st links"
    using find put by (auto simp: find_Some_iff)
  have ms: "m \<in> set switches" using m(1) assms(4) by blast
  have ok: "bt_ok u" "fst ` set u = node_id ` set switches"
    using Cons.prems(2,4) ms by (auto simp: m(3) bt_put_sorted bt_put_keys)
  have get: "hm_get u (node_id n) = (if op_position n = position then Some st else hm_get links (node_id n))"
    if "n \<in> set switches" for n
  proof -
    have "node_id n = node_id m \<longleftrightarrow> n = m" "op_position n = op_position m \<longleftrightarrow> n = m"
      using that ms assms(5,6) by (auto simp: distinct_map inj_on_def)
    then show ?thesis using bt_get_put [OF Cons.prems(2)] m(2) by (simp add: m(3))
  qed
  have "hm_get l position = None" using Cons.prems(3) e by (simp add: map_of_eq_None_iff)
  with Cons.IH [OF rest ok(1) _ ok(2)] Cons.prems(3) get e show ?case
    by (auto split: option.splits)
qed simp

lemma fabric_step_planned:
  assumes "fabric_step profile switches computes config (spec, p) s = Inr t"
    and "planned profile switches computes config es s"
    and "distinct (map op_position switches)" "distinct (map node_id switches)" "distinct (map fst (rp_links p))"
  shows "planned profile switches computes config (es @ [(spec, p)]) t"
proof -
  obtain fabrics links where s: "s = (fabrics, links)" by (cases s)
  let ?ms = "members_at (rp_switches p) switches"
  obtain cfg absent primary links' where cfg: "resolve_controller_config profile config (sp_compute_tray_count spec) (sp_switch_tray_count spec) = Inr (cfg, absent)"
    and primary: "(case sp_primary_switch_node_id spec of Some i \<Rightarrow> Some i
        | None \<Rightarrow> (case ?ms of [] \<Rightarrow> None | node # _ \<Rightarrow> Some (node_id node))) = Some primary"
    and links': "fold_result (link_step ?ms) (rp_links p) links = Inr links'"
    and t: "t = (fabrics @ [\<lparr> pf_assignment = \<lparr> compute_node_ids = map node_id (members_at (rp_computes p) computes),
          switch_node_ids = map node_id ?ms, primary_switch_node_id = primary \<rparr>,
        pf_config = cfg, absent_static_configs = absent \<rparr>], links')"
    using assms(1) by (auto simp: fabric_step_def s Let_def bind_result_Inr_iff)
  have old: "list_all2 (fabric_for profile switches computes config) es fabrics" "bt_ok links"
      "fst ` set links = node_id ` set switches"
      "\<forall>n \<in> set switches. hm_get links (node_id n) = Some (links_value es (op_position n) (downs profile))"
    using assms(2) by (auto simp: planned_def s)
  note l = link_steps [OF links' old(2) assms(5) _ assms(3,4) old(3)]
  have val: "hm_get links' (node_id n) = Some (links_value (es @ [(spec, p)]) (op_position n) (downs profile))"
    if "n \<in> set switches" for n
    using l old(4) that by (auto simp: links_value_def split: option.splits)
  have "fabric_for profile switches computes config (spec, p)
      \<lparr> pf_assignment = \<lparr> compute_node_ids = map node_id (members_at (rp_computes p) computes),
          switch_node_ids = map node_id ?ms, primary_switch_node_id = primary \<rparr>,
        pf_config = cfg, absent_static_configs = absent \<rparr>"
    using cfg primary by (cases ?ms) (auto simp: fabric_for_def simp del: set_members_at split: option.splits)
  with old(1) l val show ?thesis by (simp add: planned_def t list_all2_appendI)
qed

lemma collect_nodes:
  assumes "bt_ok m"
  shows "bt_ok (fold (\<lambda>x. bt_put (f x) (g x)) xs m)"
    "fst ` set (fold (\<lambda>x. bt_put (f x) (g x)) xs m) = f ` set xs \<union> fst ` set m"
    "distinct (map f xs) \<Longrightarrow> x \<in> set xs \<Longrightarrow> hm_get (fold (\<lambda>x. bt_put (f x) (g x)) xs m) (f x) = Some (g x)"
    "k \<notin> f ` set xs \<Longrightarrow> hm_get (fold (\<lambda>x. bt_put (f x) (g x)) xs m) k = hm_get m k"
proof -
  show "bt_ok (fold (\<lambda>x. bt_put (f x) (g x)) xs m)"
    using assms by (induction xs arbitrary: m) (auto simp: bt_put_sorted)
  show "fst ` set (fold (\<lambda>x. bt_put (f x) (g x)) xs m) = f ` set xs \<union> fst ` set m"
    by (induction xs arbitrary: m) (auto simp: bt_put_keys)
  have other: "k \<notin> f ` set ys \<Longrightarrow> bt_ok n \<Longrightarrow> hm_get (fold (\<lambda>x. bt_put (f x) (g x)) ys n) k = hm_get n k" for k ys n
    by (induction ys arbitrary: n) (auto simp: bt_put_sorted bt_get_put)
  show "k \<notin> f ` set xs \<Longrightarrow> hm_get (fold (\<lambda>x. bt_put (f x) (g x)) xs m) k = hm_get m k"
    using other assms by blast
  show "hm_get (fold (\<lambda>x. bt_put (f x) (g x)) xs m) (f x) = Some (g x)" if "distinct (map f xs)" "x \<in> set xs"
    using that assms
  proof (induction xs arbitrary: m)
    case (Cons y xs)
    have "bt_ok (bt_put (f y) (g y) m)" using Cons.prems(3) by (rule bt_put_sorted)
    then show ?case
      using Cons other [of "f y" xs] bt_get_put [OF Cons.prems(3)] by auto
  qed simp
qed

abbreviation switch_table :: "ObservedPlacement list \<Rightarrow> (string, FabricPosition) hmap" where
  "switch_table switches \<equiv> fold (\<lambda>node. bt_put (node_id node) (op_position node)) switches []"

lemma plan_smaller_facts:
  assumes "plan_smaller profile switches computes requested cfg = Inr plan"
    and "validate_inventory profile switches computes = Inr ()" "bt_ok (full_link_states profile)"
  obtains config ps where "validate_managed_config cfg = Inr config" "length ps = length requested"
    "\<forall>i < length requested. placement_ok profile switches computes (ps ! i)
      \<and> candidate_ok requested (switch_table switches) i (requested ! i) (ps ! i)"
    "\<forall>j < length ps. \<forall>i < j. set (rp_computes (ps ! i)) \<inter> set (rp_computes (ps ! j)) = {}
        \<and> set (rp_switches (ps ! i)) \<inter> set (rp_switches (ps ! j)) = {}"
    "planned profile switches computes config (zip requested ps) (fp_fabrics plan, fp_links plan)"
    "\<not> full_topology plan"
proof -
  let ?init = "fold (\<lambda>node. bt_put (node_id node) (downs profile)) switches []"
  obtain config qs ps fabrics links where config: "validate_managed_config cfg = Inr config"
    and qs: "resolve_placements profile switches computes requested = Inr qs"
    and ps: "select_placements (matching_placements qs requested (switch_table switches)) = Some ps"
    and fold: "fold_result (fabric_step profile switches computes config) (zip requested ps) ([], ?init) = Inr (fabrics, links)"
    and plan: "plan = \<lparr> fp_fabrics = fabrics, fp_links = links, full_topology = False \<rparr>"
    using assms(1) by (auto simp: plan_smaller_def Let_def bind_result_Inr_iff downs_def split: if_splits)
  have assign: "disjoint_assignment (matching_placements qs requested (switch_table switches)) ps"
    by (rule select_assignment [OF ps])
  then have all: "list_all2 (\<lambda>p options. p \<in> set options) ps (matching_placements qs requested (switch_table switches))"
    by (simp add: disjoint_assignment_def)
  have len: "length ps = length requested"
    using list_all2_lengthD [OF all] by (simp add: matching_placements_def)
  have each: "placement_ok profile switches computes (ps ! i)
      \<and> candidate_ok requested (switch_table switches) i (requested ! i) (ps ! i)" if "i < length requested" for i
    using matching_candidate [OF all that] resolve_placements_ok [OF qs] by blast
  note inv = inventory_distinct [OF assms(2)]
  have ids: "distinct (map node_id switches)" using inv(1) by simp
  have "planned profile switches computes config [] ([], ?init)"
    using collect_nodes [where m = "[]" and f = node_id and g = "\<lambda>_. downs profile" and xs = switches] ids
    by (simp add: planned_def links_value_def bt_ok_def)
  moreover have "planned profile switches computes config (es @ [x]) t"
    if x: "x \<in> set (zip requested ps)" and step: "fabric_step profile switches computes config x s = Inr t"
      and pl: "planned profile switches computes config es s" for x s t es
  proof -
    obtain spec p where sp: "x = (spec, p)" by (cases x)
    then have "p \<in> set ps" using x by (auto dest: set_zip_rightD)
    then have "placement_ok profile switches computes p" using each len by (metis in_set_conv_nth)
    then have "map fst (rp_links p) = rp_switches p" "bs_ok (rp_switches p)"
      using placement_links(1) assms(3) by (auto simp: placement_ok_def)
    then have "distinct (map fst (rp_links p))" by (simp add: bs_ok_distinct)
    then show ?thesis using fabric_step_planned step pl inv(2) ids unfolding sp by blast
  qed
  ultimately have "planned profile switches computes config ([] @ concat (map (\<lambda>x. [x]) (zip requested ps))) (fabrics, links)"
    using fold_result_emits [OF fold, where P = "planned profile switches computes config" and g = "\<lambda>x. [x]"] by blast
  then have pl: "planned profile switches computes config (zip requested ps) (fabrics, links)" by simp
  show thesis
    using that [OF config len] each assign pl plan by (simp add: disjoint_assignment_def)
qed


section \<open>Members\<close>

lemma plan_layout_cases:
  assumes "plan_layout profile switches computes requested cfg = Inr plan"
  shows "profile_validate profile = Inr ()" "validate_inventory profile switches computes = Inr ()"
    and "(\<exists>spec. requested = [spec] \<and> sp_compute_tray_count spec = compute_tray_count profile
        \<and> sp_switch_tray_count spec = switch_tray_count profile
        \<and> plan_full_rack profile switches computes cfg (sp_primary_switch_node_id spec) = Inr plan)
      \<or> plan_smaller profile switches computes requested cfg = Inr plan"
  using assms by (auto simp: plan_layout_def bind_result_Inr_iff split: list.splits if_splits)

lemma plan_full_facts:
  assumes "plan_full_rack profile switches computes cfg preferred = Inr plan"
  obtains config fabric where "validate_managed_config cfg = Inr config" "fp_fabrics plan = [fabric]"
    "resolve_controller_config profile config (compute_tray_count profile) (switch_tray_count profile) =
      Inr (pf_config fabric, absent_static_configs fabric)"
    "compute_node_ids (pf_assignment fabric) = map node_id (sort_key op_position computes)"
    "switch_node_ids (pf_assignment fabric) = map node_id (sort_key op_position switches)"
    "primary_switch_node_id (pf_assignment fabric) \<in> node_id ` set switches"
    "preferred \<in> {None, Some (primary_switch_node_id (pf_assignment fabric))}"
    "computes = [] \<or> length computes = unat (compute_tray_count profile)" "full_topology plan"
    "fp_links plan = fold (\<lambda>node. bt_put (node_id node) (full_link_states profile)) (sort_key op_position switches) []"
proof -
  have first: "sort_key op_position switches = n # ns \<Longrightarrow> n \<in> set switches" for n ns
    by (metis list.set_intros(1) set_sort)
  show thesis
    using assms that first
    by (fastforce simp: plan_full_rack_def Let_def bind_result_Inr_iff list_ex_iff split: if_splits option.splits list.splits)
qed

text \<open>The members of one fabric of a plan against its request.\<close>

definition members_ok ::
  "ObservedPlacement list \<Rightarrow> ObservedPlacement list \<Rightarrow> bool \<Rightarrow> ScaleUpFabricSpec \<Rightarrow> ScaleUpFabricMembers \<Rightarrow> bool"
where
  "members_ok switches computes full spec m \<longleftrightarrow>
    distinct (switch_node_ids m) \<and> set (switch_node_ids m) \<subseteq> node_id ` set switches
    \<and> length (switch_node_ids m) = unat (sp_switch_tray_count spec)
    \<and> distinct (compute_node_ids m) \<and> set (compute_node_ids m) \<subseteq> node_id ` set computes
    \<and> (length (compute_node_ids m) = unat (sp_compute_tray_count spec) \<or> full \<and> computes = [] \<and> compute_node_ids m = [])
    \<and> primary_switch_node_id m \<in> set (switch_node_ids m)
    \<and> sp_primary_switch_node_id spec \<in> {None, Some (primary_switch_node_id m)}"

lemma member_ids:
  assumes "distinct (map node_id nodes)" "distinct (map op_position nodes)" "bs_ok ps" "set ps \<subseteq> op_position ` set nodes"
  shows "distinct (map node_id (members_at ps nodes))" "length (map node_id (members_at ps nodes)) = length ps"
    "set (map node_id (members_at ps nodes)) \<subseteq> node_id ` set nodes"
proof -
  have "length (members_at ps nodes) = length ps"
    using arg_cong [OF members_at_positions [OF assms(2-4)], of length] by simp
  then show "length (map node_id (members_at ps nodes)) = length ps" by simp
  show "distinct (map node_id (members_at ps nodes))"
    using assms(1) by (auto simp: members_at_def distinct_map inj_on_def)
  show "set (map node_id (members_at ps nodes)) \<subseteq> node_id ` set nodes" by auto
qed

lemma fabric_members_ok:
  assumes "fabric_for profile switches computes config (spec, p) fabric"
    and "placement_ok profile switches computes p" "candidate_ok requested (switch_table switches) i spec p"
    and "distinct (map node_id (switches @ computes))" "distinct (map op_position switches)" "distinct (map op_position computes)"
  shows "members_ok switches computes full spec (pf_assignment fabric)"
proof -
  have ids: "distinct (map node_id switches)" "distinct (map node_id computes)" using assms(4) by auto
  have ok: "bs_ok (rp_computes p)" "bs_ok (rp_switches p)" "set (rp_computes p) \<subseteq> op_position ` set computes"
    "set (rp_switches p) \<subseteq> op_position ` set switches"
    using assms(2) by (auto simp: placement_ok_def)
  have len: "length (rp_computes p) = unat (sp_compute_tray_count spec)" "length (rp_switches p) = unat (sp_switch_tray_count spec)"
    using assms(3) by (auto simp: candidate_ok_def)
  have f: "compute_node_ids (pf_assignment fabric) = map node_id (members_at (rp_computes p) computes)"
    "switch_node_ids (pf_assignment fabric) = map node_id (members_at (rp_switches p) switches)"
    using assms(1) by (auto simp: fabric_for_def)
  have "primary_switch_node_id (pf_assignment fabric) \<in> set (switch_node_ids (pf_assignment fabric))
      \<and> sp_primary_switch_node_id spec \<in> {None, Some (primary_switch_node_id (pf_assignment fabric))}"
  proof (cases "sp_primary_switch_node_id spec")
    case None
    then show ?thesis using assms(1) by (auto simp: fabric_for_def)
  next
    case (Some j)
    then obtain pos where pos: "hm_get (switch_table switches) j = Some pos" "pos \<in> set (rp_switches p)"
      using assms(3) by (auto simp: candidate_ok_def split: option.splits)
    have "j \<in> node_id ` set switches"
      using pos(1) collect_nodes(4) [where m = "[]" and f = node_id and g = op_position and xs = switches and k = j]
      by (auto simp: bt_ok_def)
    then obtain n where n: "n \<in> set switches" "node_id n = j" by auto
    then have "op_position n = pos"
      using pos(1) collect_nodes(3) [where m = "[]" and f = node_id and g = op_position and xs = switches and x = n] ids(1)
      by (auto simp: bt_ok_def)
    then have "j \<in> set (switch_node_ids (pf_assignment fabric))" using n pos(2) f(2) by auto
    then show ?thesis using Some assms(1) by (auto simp: fabric_for_def)
  qed
  then show ?thesis
    using member_ids [OF ids(1) assms(5) ok(2,4)] member_ids [OF ids(2) assms(6) ok(1,3)] len f by (simp add: members_ok_def)
qed

lemma members_disjoint:
  assumes "distinct (map node_id nodes)" "set ps \<inter> set qs = {}"
  shows "set (map node_id (members_at ps nodes)) \<inter> set (map node_id (members_at qs nodes)) = {}"
  using assms by (auto simp: distinct_map inj_on_def)

lemma full_members_ok:
  assumes "plan_full_rack profile switches computes cfg (sp_primary_switch_node_id spec) = Inr plan"
    and "sp_compute_tray_count spec = compute_tray_count profile" "sp_switch_tray_count spec = switch_tray_count profile"
    and "distinct (map node_id switches)" "distinct (map node_id computes)" "length switches = unat (switch_tray_count profile)"
  shows "\<exists>fabric. fp_fabrics plan = [fabric] \<and> members_ok switches computes (full_topology plan) spec (pf_assignment fabric)"
proof -
  have sorted: "distinct (map node_id (sort_key op_position nodes))" if "distinct (map node_id nodes)" for nodes
    using that by (auto simp: distinct_map)
  obtain fabric where f: "fp_fabrics plan = [fabric]"
    "compute_node_ids (pf_assignment fabric) = map node_id (sort_key op_position computes)"
    "switch_node_ids (pf_assignment fabric) = map node_id (sort_key op_position switches)"
    "primary_switch_node_id (pf_assignment fabric) \<in> node_id ` set switches"
    "sp_primary_switch_node_id spec \<in> {None, Some (primary_switch_node_id (pf_assignment fabric))}"
    "computes = [] \<or> length computes = unat (compute_tray_count profile)" "full_topology plan"
    using plan_full_facts [OF assms(1)] by metis
  then show ?thesis
    using sorted [OF assms(4)] sorted [OF assms(5)] assms(2,3,6) by (auto simp: members_ok_def)
qed

lemma smaller_members_ok:
  assumes "plan_smaller profile switches computes requested cfg = Inr plan"
    and inventory: "validate_inventory profile switches computes = Inr ()" and ok: "bt_ok (full_link_states profile)"
  shows "list_all2 (\<lambda>spec fabric. members_ok switches computes (full_topology plan) spec (pf_assignment fabric))
      requested (fp_fabrics plan)"
    and "j < length (fp_fabrics plan) \<Longrightarrow> i < j \<Longrightarrow>
      set (switch_node_ids (pf_assignment (fp_fabrics plan ! i))) \<inter> set (switch_node_ids (pf_assignment (fp_fabrics plan ! j))) = {}
      \<and> set (compute_node_ids (pf_assignment (fp_fabrics plan ! i))) \<inter> set (compute_node_ids (pf_assignment (fp_fabrics plan ! j))) = {}"
proof -
  note inv = inventory_distinct [OF inventory]
  have ids: "distinct (map node_id switches)" "distinct (map node_id computes)" using inv(1) by auto
  obtain config ps where "validate_managed_config cfg = Inr config" and ps: "length ps = length requested"
    "\<forall>i < length requested. placement_ok profile switches computes (ps ! i)
      \<and> candidate_ok requested (switch_table switches) i (requested ! i) (ps ! i)"
    "\<forall>j < length ps. \<forall>i < j. set (rp_computes (ps ! i)) \<inter> set (rp_computes (ps ! j)) = {}
      \<and> set (rp_switches (ps ! i)) \<inter> set (rp_switches (ps ! j)) = {}"
    and pl: "planned profile switches computes config (zip requested ps) (fp_fabrics plan, fp_links plan)"
    and "\<not> full_topology plan"
    by (rule plan_smaller_facts [OF assms(1) inventory ok])
  have len: "length (fp_fabrics plan) = length requested"
    and each: "\<forall>i < length requested. fabric_for profile switches computes config (requested ! i, ps ! i) (fp_fabrics plan ! i)"
    using pl ps(1) by (auto simp: planned_def list_all2_conv_all_nth)
  have "members_ok switches computes (full_topology plan) (requested ! i) (pf_assignment (fp_fabrics plan ! i))" if "i < length requested" for i
    using fabric_members_ok each ps(2) inv that by blast
  then show "list_all2 (\<lambda>spec fabric. members_ok switches computes (full_topology plan) spec (pf_assignment fabric))
      requested (fp_fabrics plan)"
    using len by (simp add: list_all2_conv_all_nth)
  show "set (switch_node_ids (pf_assignment (fp_fabrics plan ! i))) \<inter> set (switch_node_ids (pf_assignment (fp_fabrics plan ! j))) = {}
      \<and> set (compute_node_ids (pf_assignment (fp_fabrics plan ! i))) \<inter> set (compute_node_ids (pf_assignment (fp_fabrics plan ! j))) = {}"
    if "j < length (fp_fabrics plan)" "i < j"
  proof -
    have "set (rp_computes (ps ! i)) \<inter> set (rp_computes (ps ! j)) = {}" "set (rp_switches (ps ! i)) \<inter> set (rp_switches (ps ! j)) = {}"
      using ps(1,3) that len by auto
    moreover have "fabric_for profile switches computes config (requested ! i, ps ! i) (fp_fabrics plan ! i)"
      "fabric_for profile switches computes config (requested ! j, ps ! j) (fp_fabrics plan ! j)"
      using each that len by auto
    ultimately show ?thesis
      using members_disjoint [OF ids(1), of "rp_switches (ps ! i)" "rp_switches (ps ! j)"]
        members_disjoint [OF ids(2), of "rp_computes (ps ! i)" "rp_computes (ps ! j)"]
      unfolding fabric_for_def prod.case by simp
  qed
qed

text \<open>C11. A plan keeps to the request and to the inventory: it has one fabric per request, whose
  switches and computes are distinct observed nodes in the requested numbers (the computes may
  be left out only when the whole rack is restored without compute inventory), whose primary is
  one of its switches and the requested one if the request names one, and different fabrics
  share no switch and no compute.\<close>

theorem plan_members:
  assumes "plan_layout profile switches computes requested cfg = Inr plan"
    and "bt_ok (full_link_states profile)"
  shows "list_all2 (\<lambda>spec fabric. members_ok switches computes (full_topology plan) spec (pf_assignment fabric))
      requested (fp_fabrics plan)
    \<and> (\<forall>j < length (fp_fabrics plan). \<forall>i < j.
        set (switch_node_ids (pf_assignment (fp_fabrics plan ! i))) \<inter> set (switch_node_ids (pf_assignment (fp_fabrics plan ! j))) = {}
        \<and> set (compute_node_ids (pf_assignment (fp_fabrics plan ! i))) \<inter> set (compute_node_ids (pf_assignment (fp_fabrics plan ! j))) = {})"
proof -
  note inv = inventory_distinct [OF plan_layout_cases(2) [OF assms(1)]]
  have ids: "distinct (map node_id switches)" "distinct (map node_id computes)" using inv(1) by auto
  from plan_layout_cases(3) [OF assms(1)] show ?thesis
  proof
    assume "\<exists>spec. requested = [spec] \<and> sp_compute_tray_count spec = compute_tray_count profile
        \<and> sp_switch_tray_count spec = switch_tray_count profile
        \<and> plan_full_rack profile switches computes cfg (sp_primary_switch_node_id spec) = Inr plan"
    then obtain spec where spec: "requested = [spec]" "sp_compute_tray_count spec = compute_tray_count profile"
        "sp_switch_tray_count spec = switch_tray_count profile"
      and full: "plan_full_rack profile switches computes cfg (sp_primary_switch_node_id spec) = Inr plan" by blast
    show ?thesis
      using full_members_ok [OF full spec(2,3) ids inv(4)] spec(1) by auto
  next
    assume small: "plan_smaller profile switches computes requested cfg = Inr plan"
    show ?thesis
      using smaller_members_ok [OF small plan_layout_cases(2) [OF assms(1)] assms(2)] by blast
  qed
qed


section \<open>Links\<close>

text \<open>The positions of the nodes with given identifiers, in order.\<close>

definition positions_of :: "string list \<Rightarrow> ObservedPlacement list \<Rightarrow> FabricPosition list" where
  "positions_of ids nodes = sort (map op_position (filter (\<lambda>n. node_id n \<in> set ids) nodes))"

lemma positions_of_members:
  assumes "distinct (map node_id nodes)" "distinct (map op_position nodes)" "bs_ok ps" "set ps \<subseteq> op_position ` set nodes"
  shows "positions_of (map node_id (members_at ps nodes)) nodes = ps"
proof -
  have "filter (\<lambda>n. node_id n \<in> set (map node_id (members_at ps nodes))) nodes = filter (\<lambda>n. op_position n \<in> set ps) nodes"
    using assms(1) by (intro filter_cong) (auto simp: distinct_map inj_on_def)
  then have "positions_of (map node_id (members_at ps nodes)) nodes = sort (map op_position (filter (\<lambda>n. op_position n \<in> set ps) nodes))"
    by (simp add: positions_of_def)
  also have "\<dots> = map op_position (members_at ps nodes)"
    by (rule properties_for_sort) (simp_all add: members_at_def)
  finally show ?thesis using members_at_positions [OF assms(2-4)] by simp
qed

text \<open>The states a plan must give to a switch.\<close>

definition links_ok ::
  "FabricLayoutProfile \<Rightarrow> ObservedPlacement list \<Rightarrow> ObservedPlacement list \<Rightarrow> FabricPlan \<Rightarrow> ObservedPlacement \<Rightarrow> link_states \<Rightarrow> bool"
where
  "links_ok profile switches computes plan n states \<longleftrightarrow>
    (if full_topology plan then states = full_link_states profile
     else if list_ex (\<lambda>fabric. node_id n \<in> set (switch_node_ids (pf_assignment fabric))) (fp_fabrics plan)
     then \<exists>fabric \<in> set (fp_fabrics plan). \<exists>targets.
       node_id n \<in> set (switch_node_ids (pf_assignment fabric))
       \<and> link_expand (link_calculation profile)
           (positions_of (compute_node_ids (pf_assignment fabric)) computes)
           (positions_of (switch_node_ids (pf_assignment fabric)) switches)
           (map fst (full_link_states profile)) = Inr targets
       \<and> hm_get targets (op_position n) = Some states
     else states = downs profile)"

lemma member_links_ok:
  assumes "fabric_for profile switches computes config (spec, p) fabric" "placement_ok profile switches computes p"
    and "hm_get (rp_links p) (op_position n) = Some states"
    and "fabric \<in> set (fp_fabrics plan)" "node_id n \<in> set (switch_node_ids (pf_assignment fabric))" "\<not> full_topology plan"
    and "distinct (map node_id switches)" "distinct (map node_id computes)"
    and "distinct (map op_position switches)" "distinct (map op_position computes)"
  shows "links_ok profile switches computes plan n states"
proof -
  have "positions_of (compute_node_ids (pf_assignment fabric)) computes = rp_computes p"
    "positions_of (switch_node_ids (pf_assignment fabric)) switches = rp_switches p"
    using assms(1,2,7-10) positions_of_members by (auto simp: fabric_for_def placement_ok_def)
  with assms(2-6) show ?thesis
    unfolding links_ok_def placement_ok_def list_ex_iff by auto
qed

lemma smaller_links_ok:
  assumes "planned profile switches computes config (zip requested ps) (fp_fabrics plan, fp_links plan)"
    and "length ps = length requested" "\<forall>i < length requested. placement_ok profile switches computes (ps ! i)"
    and "\<forall>j < length ps. \<forall>i < j. set (rp_computes (ps ! i)) \<inter> set (rp_computes (ps ! j)) = {}
        \<and> set (rp_switches (ps ! i)) \<inter> set (rp_switches (ps ! j)) = {}"
    and "bt_ok (full_link_states profile)" "\<not> full_topology plan" "n \<in> set switches"
    and "distinct (map node_id (switches @ computes))" "distinct (map op_position switches)" "distinct (map op_position computes)"
  shows "\<exists>states. hm_get (fp_links plan) (node_id n) = Some states \<and> map fst states = map fst (full_link_states profile)
    \<and> links_ok profile switches computes plan n states"
proof -
  let ?es = "zip requested ps" and ?pos = "op_position n"
  have val: "hm_get (fp_links plan) (node_id n) = Some (links_value ?es ?pos (downs profile))"
    and each: "\<forall>i < length requested. fabric_for profile switches computes config (requested ! i, ps ! i) (fp_fabrics plan ! i)"
    and len: "length (fp_fabrics plan) = length requested"
    using assms(1,2,7) by (auto simp: planned_def list_all2_conv_all_nth)
  have links: "hm_get (rp_links (ps ! i)) ?pos \<noteq> None \<longleftrightarrow> ?pos \<in> set (rp_switches (ps ! i))" if "i < length requested" for i
    using placement_links(1) [OF assms(3) [rule_format, OF that] assms(5)] by (metis hm_keys_get)
  have ids: "distinct (map node_id switches)" "distinct (map node_id computes)" using assms(8) by auto
  have mem: "node_id n \<in> set (switch_node_ids (pf_assignment (fp_fabrics plan ! i))) \<longleftrightarrow> ?pos \<in> set (rp_switches (ps ! i))"
    if "i < length requested" for i
    using each [rule_format, OF that] assms(7) ids(1) by (auto simp: fabric_for_def distinct_map inj_on_def)
  show ?thesis
  proof (cases "\<exists>i < length requested. ?pos \<in> set (rp_switches (ps ! i))")
    case False
    then have "\<forall>(_, p) \<in> set ?es. hm_get (rp_links p) ?pos = None"
      using links assms(2) by (auto simp: set_zip)
    then have "links_value ?es ?pos (downs profile) = downs profile" by (rule links_value_none)
    moreover have "\<not> list_ex (\<lambda>fabric. node_id n \<in> set (switch_node_ids (pf_assignment fabric))) (fp_fabrics plan)"
      using False mem len unfolding list_ex_iff by (metis in_set_conv_nth)
    ultimately show ?thesis using val assms(6) by (auto simp: links_ok_def downs_def)
  next
    case True
    then obtain i where i: "i < length requested" "?pos \<in> set (rp_switches (ps ! i))" by blast
    then obtain st where st: "hm_get (rp_links (ps ! i)) ?pos = Some st" using links by auto
    have later: "hm_get (rp_links (ps ! j)) ?pos = None" if "j < length requested" "i < j" for j
      using assms(2,4) i that links [OF that(1)] by (metis disjoint_iff)
    have split: "?es = take i ?es @ (requested ! i, ps ! i) # drop (Suc i) ?es"
      using i(1) assms(2) by (metis id_take_nth_drop length_zip min.idem nth_zip)
    have "\<forall>(_, q) \<in> set (drop (Suc i) ?es). hm_get (rp_links q) ?pos = None"
      using later assms(2) by (auto simp: in_set_conv_nth)
    from links_value_one [OF st this, of "take i ?es" "requested ! i" "downs profile"]
    have v: "links_value ?es ?pos (downs profile) = st" using split by simp
    note ok = assms(3) [rule_format, OF i(1)]
    have "map fst st = map fst (full_link_states profile)"
      using placement_links(3) [OF ok assms(5)] map_of_SomeD [OF st] by blast
    moreover have "links_ok profile switches computes plan n st"
      using member_links_ok [OF each [rule_format, OF i(1)] ok st _ _ assms(6) ids assms(9,10)] i len mem by simp
    ultimately show ?thesis using val v by auto
  qed
qed

lemma full_links_ok:
  assumes "plan_full_rack profile switches computes cfg preferred = Inr plan" "distinct (map node_id switches)"
  shows "bt_ok (fp_links plan) \<and> fst ` set (fp_links plan) = node_id ` set switches
    \<and> (\<forall>n \<in> set switches. hm_get (fp_links plan) (node_id n) = Some (full_link_states profile)
        \<and> links_ok profile switches computes plan n (full_link_states profile))"
proof -
  have links: "fp_links plan = fold (\<lambda>node. bt_put (node_id node) (full_link_states profile)) (sort_key op_position switches) []"
    and full: "full_topology plan"
    using plan_full_facts [OF assms(1)] by metis+
  have "distinct (map node_id (sort_key op_position switches))" using assms(2) by (auto simp: distinct_map)
  then show ?thesis
    using collect_nodes [where m = "[]" and f = node_id and g = "\<lambda>_. full_link_states profile" and xs = "sort_key op_position switches"] full
    by (simp add: links links_ok_def bt_ok_def)
qed

text \<open>C15. A plan decides the state of every owned interface of every switch: its links are keyed by
  exactly the observed switches, each with exactly the owned interfaces in order.  When the whole
  rack is restored these are the configured full-inventory states; otherwise a switch of a fabric
  has the states that the link calculation gives for the computes and switches of that fabric,
  and a switch of no fabric has every interface down.\<close>

theorem plan_links:
  assumes "plan_layout profile switches computes requested cfg = Inr plan"
    and "bt_ok (full_link_states profile)"
  shows "bt_ok (fp_links plan) \<and> fst ` set (fp_links plan) = node_id ` set switches
    \<and> (\<forall>n \<in> set switches. \<exists>states. hm_get (fp_links plan) (node_id n) = Some states
        \<and> map fst states = map fst (full_link_states profile)
        \<and> links_ok profile switches computes plan n states)"
proof -
  note inv = inventory_distinct [OF plan_layout_cases(2) [OF assms(1)]]
  have ids: "distinct (map node_id switches)" using inv(1) by simp
  from plan_layout_cases(3) [OF assms(1)] show ?thesis
  proof
    assume "\<exists>spec. requested = [spec] \<and> sp_compute_tray_count spec = compute_tray_count profile
        \<and> sp_switch_tray_count spec = switch_tray_count profile
        \<and> plan_full_rack profile switches computes cfg (sp_primary_switch_node_id spec) = Inr plan"
    then show ?thesis using full_links_ok [OF _ ids] by blast
  next
    assume small: "plan_smaller profile switches computes requested cfg = Inr plan"
    obtain config ps where "validate_managed_config cfg = Inr config" and len: "length ps = length requested"
      and ps: "\<forall>i < length requested. placement_ok profile switches computes (ps ! i)
        \<and> candidate_ok requested (switch_table switches) i (requested ! i) (ps ! i)"
      and disj: "\<forall>j < length ps. \<forall>i < j. set (rp_computes (ps ! i)) \<inter> set (rp_computes (ps ! j)) = {}
        \<and> set (rp_switches (ps ! i)) \<inter> set (rp_switches (ps ! j)) = {}"
      and pl: "planned profile switches computes config (zip requested ps) (fp_fabrics plan, fp_links plan)"
      and full: "\<not> full_topology plan"
      by (rule plan_smaller_facts [OF small plan_layout_cases(2) [OF assms(1)] assms(2)])
    have ok: "\<forall>i < length requested. placement_ok profile switches computes (ps ! i)" using ps by blast
    have "bt_ok (fp_links plan)" "fst ` set (fp_links plan) = node_id ` set switches"
      using pl by (auto simp: planned_def)
    then show ?thesis
      using smaller_links_ok [OF pl len ok disj assms(2) full _ inv(1-3)] by blast
  qed
qed


section \<open>Controller settings\<close>

lemma managed_try_from_ok:
  "(\<forall>((f, k), v) \<in> set es. validate_static_config_name f k = Inr ()
      \<and> (\<forall>x. v = Some x \<longrightarrow> validate_static_config_value x = Inr ())) \<Longrightarrow> managed_try_from es = Inr es"
proof -
  have "(\<forall>((f, k), v) \<in> set xs. validate_static_config_name f k = Inr ()
      \<and> (\<forall>x. v = Some x \<longrightarrow> validate_static_config_value x = Inr ())) \<Longrightarrow>
    fold_result (\<lambda>((file, key), value) acc.
      case validate_static_config_name file key of
        Inl _ \<Rightarrow> Inl ''managed configuration requires a file basename and an identifier key''
      | Inr _ \<Rightarrow>
          (case value of
            None \<Rightarrow> Inr acc
          | Some v \<Rightarrow>
              (case validate_static_config_value v of
                Inl _ \<Rightarrow> Inl ''managed configuration requires nonempty unquoted literal values''
              | Inr _ \<Rightarrow> Inr acc))) xs es = Inr es" for xs
    by (induction xs) (auto split: option.splits)
  then show "(\<forall>((f, k), v) \<in> set es. validate_static_config_name f k = Inr ()
      \<and> (\<forall>x. v = Some x \<longrightarrow> validate_static_config_value x = Inr ())) \<Longrightarrow> managed_try_from es = Inr es"
    by (simp add: managed_try_from_def)
qed

text \<open>A setting with a valid name that is not the reserved one, and a valid value.\<close>

definition setting_ok :: "string \<times> string \<Rightarrow> string \<Rightarrow> bool" where
  "setting_ok k v \<longleftrightarrow> validate_static_config_key (fst k) (snd k) = Inr () \<and> validate_static_config_value v = Inr ()"

lemma validate_managed_config_ok:
  assumes "validate_managed_config cfg = Inr config"
  shows "validate_static_config_value (sf_topology_type config) = Inr ()"
    "sf_topology_type config = trim (sf_topology_type cfg)"
    "e \<in> set (extra_static_configs config) \<Longrightarrow> setting_ok (sc_file_name e, sc_key e) (sc_value e)"
proof -
  have each: "fold_result (\<lambda>entry _.
      bind_result (validate_static_config_key (sc_file_name entry) (sc_key entry)) (\<lambda>_.
        validate_static_config_value (sc_value entry))) es u = Inr () \<Longrightarrow> e \<in> set es \<Longrightarrow>
      setting_ok (sc_file_name e, sc_key e) (sc_value e)" for es u
    by (induction es arbitrary: u) (auto simp: bind_result_Inr_iff setting_ok_def)
  show "validate_static_config_value (sf_topology_type config) = Inr ()"
    "sf_topology_type config = trim (sf_topology_type cfg)"
    using assms by (auto simp: validate_managed_config_def validate_scale_up_fabric_config_def Let_def bind_result_Inr_iff
        split: if_splits)
  show "setting_ok (sc_file_name e, sc_key e) (sc_value e)" if "e \<in> set (extra_static_configs config)"
    using assms each that by (auto simp: validate_managed_config_def bind_result_Inr_iff)
qed

text \<open>The settings of the caller, trimmed, by file and key.\<close>

definition caller_settings :: "ScaleUpFabricConfig \<Rightarrow> ((string \<times> string), string) hmap" where
  "caller_settings cfg =
    map (\<lambda>e. ((sc_file_name e, sc_key e), sc_value e)) (map trim_entry (extra_static_configs cfg))"

lemma extra_steps:
  assumes "fold_result extra_step es (ds, ks) = Inr (ds', ks')" "set ks = (\<lambda>e. (sc_file_name e, sc_key e)) ` set ds"
    and "distinct (map (\<lambda>e. (sc_file_name e, sc_key e)) ds)"
  shows "ds' = ds @ map trim_entry es \<and> distinct (map (\<lambda>e. (sc_file_name e, sc_key e)) ds')"
  using assms
proof (induction es arbitrary: ds ks)
  case (Cons e es)
  obtain u where u: "extra_step e (ds, ks) = Inr u" "fold_result extra_step es u = Inr (ds', ks')"
    using Cons.prems(1) by (auto simp: bind_result_Inr_iff)
  let ?key = "(sc_file_name (trim_entry e), sc_key (trim_entry e))"
  have e: "u = (ds @ [trim_entry e], ?key # ks)" "?key \<notin> set ks"
    using u(1) by (auto simp: extra_step_def Let_def split: if_splits)
  have "ds' = (ds @ [trim_entry e]) @ map trim_entry es \<and> distinct (map (\<lambda>e. (sc_file_name e, sc_key e)) ds')"
    by (rule Cons.IH [OF u(2) [unfolded e(1)]]) (use Cons.prems(2,3) e(2) in simp_all)
  moreover have "(ds @ [trim_entry e]) @ map trim_entry es = ds @ map trim_entry (e # es)" by simp
  ultimately show ?case by metis
qed simp

lemma validated_extras:
  assumes "validate_managed_config cfg = Inr config"
  shows "extra_static_configs config = map trim_entry (extra_static_configs cfg)"
    "distinct (map (\<lambda>e. (sc_file_name e, sc_key e)) (extra_static_configs config))"
proof -
  obtain ks where "fold_result extra_step (extra_static_configs cfg) ([], []) = Inr (extra_static_configs config, ks)"
    using assms by (auto simp: validate_managed_config_def validate_scale_up_fabric_config_def Let_def bind_result_Inr_iff
        split: if_splits)
  note steps = extra_steps [OF this, unfolded append_Nil]
  show "extra_static_configs config = map trim_entry (extra_static_configs cfg)" using steps by simp
  show "distinct (map (\<lambda>e. (sc_file_name e, sc_key e)) (extra_static_configs config))"
    by (rule conjunct2 [OF steps]) simp_all
qed

lemma collected_extras:
  assumes "validate_managed_config cfg = Inr config"
  shows "hm_get (fold (\<lambda>e. bt_put (sc_file_name e, sc_key e) (sc_value e)) (extra_static_configs config) []) k =
    hm_get (caller_settings cfg) k"
proof -
  let ?f = "\<lambda>e. (sc_file_name e, sc_key e)" and ?es = "extra_static_configs config"
  have nil: "bt_ok ([] :: ((string \<times> string) \<times> string) list)" by (simp add: bt_ok_def)
  note es = validated_extras [OF assms]
  have caller: "caller_settings cfg = map (\<lambda>e. (?f e, sc_value e)) ?es" by (simp add: caller_settings_def es(1))
  have "map fst (caller_settings cfg) = map ?f ?es" by (simp add: caller)
  with es(2) have dist: "distinct (map fst (caller_settings cfg))" by metis
  show ?thesis
  proof (cases "k \<in> ?f ` set ?es")
    case True
    then obtain e where e: "e \<in> set ?es" "k = ?f e" by blast
    then have "(k, sc_value e) \<in> set (caller_settings cfg)" by (force simp: caller)
    then have "hm_get (caller_settings cfg) k = Some (sc_value e)" using dist by simp
    with collect_nodes(3) [OF nil es(2) e(1), of sc_value] e(2) show ?thesis by simp
  next
    case False
    then have "hm_get (caller_settings cfg) k = None" by (auto simp: caller map_of_eq_None_iff)
    with collect_nodes(4) [OF nil False] show ?thesis by simp
  qed
qed

definition target_ok :: "FabricStaticConfigTarget \<Rightarrow> bool" where
  "target_ok t \<longleftrightarrow> validate_static_config_key (config_file_name t) (config_key_name t) = Inr ()
    \<and> (\<forall>v. config_action t = SetValue v \<longrightarrow> validate_static_config_value v = Inr ())"

definition action_value :: "FabricStaticConfigTarget \<Rightarrow> string option" where
  "action_value t = (case config_action t of SetValue v \<Rightarrow> Some v | Remove \<Rightarrow> None)"

lemma target_steps:
  assumes "fold_result target_step ts (vals, absent) = Inr (vals', absent')" "bt_ok vals" "bs_ok absent"
    and "distinct (map target_key ts)" "\<forall>k v. hm_get vals k = Some v \<longrightarrow> setting_ok k v" "\<forall>t \<in> set ts. target_ok t"
  shows "bt_ok vals' \<and> bs_ok absent' \<and> (\<forall>k v. hm_get vals' k = Some v \<longrightarrow> setting_ok k v)
    \<and> set absent' = set absent \<union> target_key ` {t \<in> set ts. action_value t = None}
    \<and> (\<forall>t \<in> set ts. hm_get vals' (target_key t) = action_value t)
    \<and> (\<forall>k. k \<notin> target_key ` set ts \<longrightarrow> hm_get vals' k = hm_get vals k)"
  using assms
proof (induction ts arbitrary: vals absent)
  case (Cons t ts)
  obtain mid gone where step: "target_step t (vals, absent) = Inr (mid, gone)"
    and rest: "fold_result target_step ts (mid, gone) = Inr (vals', absent')"
    using Cons.prems(1) by (auto simp: bind_result_Inr_iff)
  have t: "target_ok t" "target_key t \<notin> target_key ` set ts" using Cons.prems(4,6) by auto
  have key: "setting_ok (target_key t) v" if "config_action t = SetValue v" for v
    using t(1) that by (auto simp: target_ok_def setting_ok_def target_key_def)
  have mid: "bt_ok mid" "bs_ok gone" "hm_get mid (target_key t) = action_value t"
      "set gone = set absent \<union> (if action_value t = None then {target_key t} else {})"
      "\<forall>k. k \<noteq> target_key t \<longrightarrow> hm_get mid k = hm_get vals k"
    using step Cons.prems(2,3) bt_get_put [OF Cons.prems(2), of "target_key t"]
    by (auto simp: target_step_def action_value_def bt_put_sorted bs_ok_insert split: FabricStaticConfigAction.splits if_splits)
  have ok: "\<forall>k v. hm_get mid k = Some v \<longrightarrow> setting_ok k v"
  proof (intro allI impI)
    fix k v assume v: "hm_get mid k = Some v"
    show "setting_ok k v"
    proof (cases "k = target_key t")
      case True
      then show ?thesis using v mid(3) key by (simp add: action_value_def split: FabricStaticConfigAction.splits)
    next
      case False
      then have "hm_get vals k = Some v" using v mid(5) by metis
      then show ?thesis using Cons.prems(5) by blast
    qed
  qed
  note ih = Cons.IH [OF rest mid(1,2) _ ok]
  have fin: "bt_ok vals' \<and> bs_ok absent' \<and> (\<forall>k v. hm_get vals' k = Some v \<longrightarrow> setting_ok k v)"
    "set absent' = set gone \<union> target_key ` {t \<in> set ts. action_value t = None}"
    "\<forall>t \<in> set ts. hm_get vals' (target_key t) = action_value t"
    "\<forall>k. k \<notin> target_key ` set ts \<longrightarrow> hm_get vals' k = hm_get mid k"
    using ih Cons.prems(4,6) by auto
  have "hm_get vals' (target_key t) = action_value t" using fin(4) t(2) mid(3) by metis
  then show ?case using fin mid(4,5) by auto
qed auto

lemma collect_value:
  "hm_get (fold (\<lambda>x. bt_put (f x) (g x)) xs m) k = Some v \<Longrightarrow> bt_ok m \<Longrightarrow>
    hm_get m k = Some v \<or> (\<exists>x \<in> set xs. f x = k \<and> g x = v)"
proof (induction xs arbitrary: m)
  case (Cons x xs)
  have "bt_ok (bt_put (f x) (g x) m)" using Cons.prems(2) by (rule bt_put_sorted)
  from Cons.IH [OF _ this] Cons.prems(1) have "hm_get (bt_put (f x) (g x) m) k = Some v \<or> (\<exists>x \<in> set xs. f x = k \<and> g x = v)"
    by simp
  then show ?case using bt_get_put [OF Cons.prems(2), of "f x" "g x"] by (auto split: if_splits)
qed simp

lemma find_SomeD: "find P xs = Some x \<Longrightarrow> x \<in> set xs \<and> P x"
  by (induction xs) (auto split: if_splits)

lemma matching_rule_in:
  assumes "matching_rule profile topology cc sc = Some rule"
  shows "\<exists>fab \<in> set (fabric_rules profile). fr_compute_tray_count fab = cc \<and> fr_switch_tray_count fab = sc
    \<and> rule \<in> set (controller_rules fab) \<and> topology_type rule = topology"
  using assms by (auto simp: matching_rule_def split: option.splits dest!: find_SomeD)

text \<open>The settings of one fabric: those of a rule, and otherwise what the caller supplied.\<close>

definition settled ::
  "string \<Rightarrow> FabricControllerRule \<Rightarrow> ((string \<times> string), string) hmap \<Rightarrow> ((string \<times> string), string) hmap
   \<Rightarrow> PlannedFabric \<Rightarrow> bool"
where
  "settled topology rule extras vals fabric \<longleftrightarrow>
    bt_ok vals \<and> bs_ok (absent_static_configs fabric) \<and> (\<forall>k v. hm_get vals k = Some v \<longrightarrow> setting_ok k v)
    \<and> set (absent_static_configs fabric) = target_key ` {t \<in> set (static_configs rule). action_value t = None}
    \<and> (\<forall>t \<in> set (static_configs rule). target_ok t \<and> hm_get vals (target_key t) = action_value t)
    \<and> (\<forall>k. k \<notin> target_key ` set (static_configs rule) \<longrightarrow> hm_get vals k = hm_get extras k)
    \<and> pf_config fabric = \<lparr> sf_topology_type = topology,
        extra_static_configs = map (\<lambda>((name, key), v). \<lparr> sc_file_name = name, sc_key = key, sc_value = v \<rparr>) vals \<rparr>"

lemma resolved_settings:
  assumes "resolve_controller_config profile config cc sc = Inr (pf_config fabric, absent_static_configs fabric)"
    and "validate_managed_config cfg = Inr config" "validate_controller_rules profile = Inr ()"
  shows "\<exists>rule vals. matching_rule profile (sf_topology_type config) cc sc = Some rule
    \<and> settled (sf_topology_type config) rule (caller_settings cfg) vals fabric"
proof -
  let ?init = "fold (\<lambda>e. bt_put (sc_file_name e, sc_key e) (sc_value e)) (extra_static_configs config) []"
  obtain rule vals where rule: "matching_rule profile (sf_topology_type config) cc sc = Some rule"
    and fold: "fold_result target_step (static_configs rule) (?init, []) = Inr (vals, absent_static_configs fabric)"
    and cfg': "pf_config fabric = \<lparr> sf_topology_type = sf_topology_type config,
      extra_static_configs = map (\<lambda>((name, key), v). \<lparr> sc_file_name = name, sc_key = key, sc_value = v \<rparr>) vals \<rparr>"
    using assms(1) by (auto simp: resolve_controller_config_def bind_result_Inr_iff split: if_splits)
  obtain fab where "fab \<in> set (fabric_rules profile)" "rule \<in> set (controller_rules fab)"
    using matching_rule_in [OF rule] by blast
  from accepted_rule(1) [OF assms(3) this]
  have valid: "distinct (map target_key (static_configs rule))" "\<forall>t \<in> set (static_configs rule). target_ok t"
    by (auto simp: rule_valid_def target_ok_def)
  have nil: "bt_ok ([] :: ((string \<times> string) \<times> string) list)" "bs_ok ([] :: (string \<times> string) list)"
    by (simp_all add: bt_ok_def bs_ok_def)
  have init: "\<forall>k v. hm_get ?init k = Some v \<longrightarrow> setting_ok k v"
    using collect_value [OF _ nil(1)] validate_managed_config_ok(3) [OF assms(2)] by fastforce
  have "bt_ok ?init" using collect_nodes(1) [OF nil(1)] .
  from target_steps [OF fold this nil(2) valid(1) init valid(2)]
  have "settled (sf_topology_type config) rule (caller_settings cfg) vals fabric"
    using cfg' valid(2) collected_extras [OF assms(2)] unfolding settled_def by simp
  with rule show ?thesis by blast
qed

lemma desired_config_get:
  assumes "bt_ok vals" "bs_ok (absent_static_configs fabric)"
    and "pf_config fabric = \<lparr> sf_topology_type = topology,
      extra_static_configs = map (\<lambda>((name, key), v). \<lparr> sc_file_name = name, sc_key = key, sc_value = v \<rparr>) vals \<rparr>"
  shows "bt_ok (desired_config fabric)"
    "hm_get (desired_config fabric) k =
      (if k \<in> set (absent_static_configs fabric) then Some None
       else if k = (NMX_C_FM_CONFIG_FILE, NMX_C_TOPOLOGY_KEY) then Some (Some topology)
       else map_option Some (hm_get vals k))"
proof -
  let ?es = "extra_static_configs (pf_config fabric)" and ?f = "\<lambda>e. (sc_file_name e, sc_key e)"
  let ?d1 = "fold (\<lambda>e. bt_put (?f e) (Some (sc_value e))) ?es []"
  let ?d2 = "bt_put (NMX_C_FM_CONFIG_FILE, NMX_C_TOPOLOGY_KEY) (Some topology) ?d1"
  have d: "desired_config fabric = fold (\<lambda>k. bt_put k None) (absent_static_configs fabric) ?d2"
    by (simp add: desired_config_def assms(3))
  have nil: "bt_ok ([] :: ((string \<times> string) \<times> string option) list)" by (simp add: bt_ok_def)
  have keys: "map ?f ?es = map fst vals" by (auto simp: assms(3))
  then have dist: "distinct (map ?f ?es)" using bt_distinct [OF assms(1)] by simp
  have d1: "hm_get ?d1 k = map_option Some (hm_get vals k)"
  proof (cases "hm_get vals k")
    case None
    then have "k \<notin> fst ` set vals" by (simp add: map_of_eq_None_iff)
    then have "k \<notin> ?f ` set ?es" using keys by (metis list.set_map)
    then show ?thesis using collect_nodes(4) [OF nil] None by simp
  next
    case (Some v)
    obtain name key where k: "k = (name, key)" by (cases k)
    have "((name, key), v) \<in> set vals" using map_of_SomeD [OF Some] k by simp
    then have "\<lparr> sc_file_name = name, sc_key = key, sc_value = v \<rparr> \<in> set ?es" by (force simp: assms(3))
    from collect_nodes(3) [OF nil dist this, of "\<lambda>e. Some (sc_value e)"] Some k show ?thesis by simp
  qed
  have ok1: "bt_ok ?d1" by (rule collect_nodes(1) [OF nil])
  have ok2: "bt_ok ?d2" by (rule bt_put_sorted [OF ok1])
  show "bt_ok (desired_config fabric)" unfolding d by (rule collect_nodes(1) [OF ok2, where f = "\<lambda>k. k"])
  have "k \<in> set (absent_static_configs fabric) \<Longrightarrow> hm_get (desired_config fabric) k = Some None"
    unfolding d using collect_nodes(3) [OF ok2, where f = "\<lambda>k. k" and g = "\<lambda>_. None"] bs_ok_distinct [OF assms(2)] by simp
  moreover have "k \<notin> set (absent_static_configs fabric) \<Longrightarrow> hm_get (desired_config fabric) k = hm_get ?d2 k"
    unfolding d using collect_nodes(4) [OF ok2, where f = "\<lambda>k. k" and g = "\<lambda>_. None"] by simp
  ultimately show "hm_get (desired_config fabric) k =
      (if k \<in> set (absent_static_configs fabric) then Some None
       else if k = (NMX_C_FM_CONFIG_FILE, NMX_C_TOPOLOGY_KEY) then Some (Some topology)
       else map_option Some (hm_get vals k))"
    using d1 bt_get_put [OF ok1, of "(NMX_C_FM_CONFIG_FILE, NMX_C_TOPOLOGY_KEY)" "Some topology"] by (cases k) simp
qed

lemma reserved_key: "validate_static_config_key NMX_C_FM_CONFIG_FILE NMX_C_TOPOLOGY_KEY \<noteq> Inr ()"
  "validate_static_config_name NMX_C_FM_CONFIG_FILE NMX_C_TOPOLOGY_KEY = Inr ()"
  by code_simp+

lemma valid_key_name: "validate_static_config_key f k = Inr () \<Longrightarrow> validate_static_config_name f k = Inr ()"
  by (auto simp: validate_static_config_key_def bind_result_Inr_iff)

lemma settled_target_key:
  assumes "settled topology rule extras vals fabric" "t \<in> set (static_configs rule)"
  shows "target_key t \<noteq> (NMX_C_FM_CONFIG_FILE, NMX_C_TOPOLOGY_KEY)"
    "validate_static_config_name (fst (target_key t)) (snd (target_key t)) = Inr ()"
  using assms reserved_key(1) valid_key_name by (auto simp: settled_def target_ok_def target_key_def)

lemma settled_get:
  assumes "settled topology rule extras vals fabric"
  shows "bt_ok (desired_config fabric)"
    and "hm_get (desired_config fabric) (NMX_C_FM_CONFIG_FILE, NMX_C_TOPOLOGY_KEY) = Some (Some topology)"
    and "t \<in> set (static_configs rule) \<Longrightarrow> hm_get (desired_config fabric) (target_key t) = Some (action_value t)"
    and "k \<noteq> (NMX_C_FM_CONFIG_FILE, NMX_C_TOPOLOGY_KEY) \<Longrightarrow> k \<notin> target_key ` set (static_configs rule) \<Longrightarrow>
      hm_get (desired_config fabric) k = map_option Some (hm_get extras k)"
proof -
  have ok: "bt_ok vals" "bs_ok (absent_static_configs fabric)"
    and gone: "set (absent_static_configs fabric) = target_key ` {t \<in> set (static_configs rule). action_value t = None}"
    and ts: "\<forall>t \<in> set (static_configs rule). target_ok t \<and> hm_get vals (target_key t) = action_value t"
    and pf: "pf_config fabric = \<lparr> sf_topology_type = topology,
        extra_static_configs = map (\<lambda>((name, key), v). \<lparr> sc_file_name = name, sc_key = key, sc_value = v \<rparr>) vals \<rparr>"
    using assms by (simp_all add: settled_def)
  note get = desired_config_get(2) [OF ok pf]
  show "hm_get (desired_config fabric) k = map_option Some (hm_get extras k)"
    if "k \<noteq> (NMX_C_FM_CONFIG_FILE, NMX_C_TOPOLOGY_KEY)" "k \<notin> target_key ` set (static_configs rule)"
  proof -
    have "hm_get vals k = hm_get extras k" using assms that(2) unfolding settled_def by blast
    moreover have "k \<notin> set (absent_static_configs fabric)" using that(2) gone by auto
    ultimately show ?thesis using get [of k] that(1) by simp
  qed
  show "bt_ok (desired_config fabric)" by (rule desired_config_get(1) [OF ok pf])
  have "(NMX_C_FM_CONFIG_FILE, NMX_C_TOPOLOGY_KEY) \<notin> set (absent_static_configs fabric)"
    using gone settled_target_key(1) [OF assms] by force
  then show "hm_get (desired_config fabric) (NMX_C_FM_CONFIG_FILE, NMX_C_TOPOLOGY_KEY) = Some (Some topology)"
    using get [of "(NMX_C_FM_CONFIG_FILE, NMX_C_TOPOLOGY_KEY)"] by simp
  assume t: "t \<in> set (static_configs rule)"
  have "target_key t \<in> set (absent_static_configs fabric) \<longleftrightarrow> action_value t = None"
  proof
    assume "target_key t \<in> set (absent_static_configs fabric)"
    then obtain x where "x \<in> set (static_configs rule)" "action_value x = None" "target_key x = target_key t"
      using gone by force
    then show "action_value t = None" using ts t by metis
  qed (use gone t in auto)
  then show "hm_get (desired_config fabric) (target_key t) = Some (action_value t)"
    using get [of "target_key t"] settled_target_key(1) [OF assms t] ts t by (cases "action_value t") auto
qed

lemma settled_accepted:
  assumes "settled topology rule extras vals fabric" "validate_static_config_value topology = Inr ()"
  shows "managed_try_from (desired_config fabric) = Inr (desired_config fabric)"
proof -
  have ok: "bt_ok vals" "bs_ok (absent_static_configs fabric)"
    and set: "\<forall>k v. hm_get vals k = Some v \<longrightarrow> setting_ok k v"
    and gone: "set (absent_static_configs fabric) = target_key ` {t \<in> set (static_configs rule). action_value t = None}"
    and pf: "pf_config fabric = \<lparr> sf_topology_type = topology,
        extra_static_configs = map (\<lambda>((name, key), v). \<lparr> sc_file_name = name, sc_key = key, sc_value = v \<rparr>) vals \<rparr>"
    using assms(1) by (simp_all add: settled_def)
  have "validate_static_config_name f k = Inr () \<and> (\<forall>x. v = Some x \<longrightarrow> validate_static_config_value x = Inr ())"
    if mem: "((f, k), v) \<in> set (desired_config fabric)" for f k v
  proof -
    have v: "hm_get (desired_config fabric) (f, k) = Some v"
      using mem bt_distinct [OF settled_get(1) [OF assms(1)]] by simp
    consider t where "t \<in> set (static_configs rule)" "target_key t = (f, k)" "v = None"
      | "(f, k) = (NMX_C_FM_CONFIG_FILE, NMX_C_TOPOLOGY_KEY)" "v = Some topology"
      | w where "v = Some w" "setting_ok (f, k) w"
      using v desired_config_get(2) [OF ok pf, of "(f, k)"] gone set by (force split: if_splits)
    then show ?thesis
    proof cases
      case (1 t)
      then show ?thesis using settled_target_key(2) [OF assms(1) 1(1)] by simp
    next
      case 2
      then show ?thesis using assms(2) reserved_key(2) by auto
    next
      case (3 w)
      then show ?thesis using valid_key_name by (auto simp: setting_ok_def)
    qed
  qed
  then show ?thesis by (intro managed_try_from_ok) blast
qed

lemma plan_fabric_config:
  assumes "plan_layout profile switches computes requested cfg = Inr plan" "bt_ok (full_link_states profile)"
  shows "\<exists>config. validate_managed_config cfg = Inr config
    \<and> list_all2 (\<lambda>spec fabric. resolve_controller_config profile config (sp_compute_tray_count spec) (sp_switch_tray_count spec) =
        Inr (pf_config fabric, absent_static_configs fabric)) requested (fp_fabrics plan)"
  using plan_layout_cases(3) [OF assms(1)]
proof
  assume "\<exists>spec. requested = [spec] \<and> sp_compute_tray_count spec = compute_tray_count profile
        \<and> sp_switch_tray_count spec = switch_tray_count profile
        \<and> plan_full_rack profile switches computes cfg (sp_primary_switch_node_id spec) = Inr plan"
  then obtain spec where spec: "requested = [spec]" "sp_compute_tray_count spec = compute_tray_count profile"
      "sp_switch_tray_count spec = switch_tray_count profile"
    and full: "plan_full_rack profile switches computes cfg (sp_primary_switch_node_id spec) = Inr plan" by blast
  show ?thesis
    by (rule plan_full_facts [OF full]) (use spec in auto)
next
  assume small: "plan_smaller profile switches computes requested cfg = Inr plan"
  show ?thesis
  proof (rule plan_smaller_facts [OF small plan_layout_cases(2) [OF assms(1)] assms(2)])
    fix config ps
    assume config: "validate_managed_config cfg = Inr config" "length ps = length requested"
      and pl: "planned profile switches computes config (zip requested ps) (fp_fabrics plan, fp_links plan)"
    then show ?thesis by (auto simp: planned_def fabric_for_def list_all2_conv_all_nth)
  qed
qed

lemma profile_validate_rules: "profile_validate p = Inr () \<Longrightarrow> validate_controller_rules p = Inr ()"
  by (auto simp: profile_validate_def bind_result_Inr_iff split: if_splits)

text \<open>What a rule and the caller ask of a key: the topology under the reserved key, the value or the
  removal of the rule under the keys it targets, and what the caller supplied elsewhere.\<close>

definition desired_setting ::
  "ScaleUpFabricConfig \<Rightarrow> FabricControllerRule \<Rightarrow> string \<times> string \<Rightarrow> string option option"
where
  "desired_setting cfg rule k =
    (if k = (NMX_C_FM_CONFIG_FILE, NMX_C_TOPOLOGY_KEY) then Some (Some (trim (sf_topology_type cfg)))
     else case find (\<lambda>t. target_key t = k) (static_configs rule) of
       Some t \<Rightarrow> Some (action_value t)
     | None \<Rightarrow> map_option Some (hm_get (caller_settings cfg) k))"

definition settings_ok ::
  "FabricLayoutProfile \<Rightarrow> ScaleUpFabricConfig \<Rightarrow> ScaleUpFabricSpec \<Rightarrow> PlannedFabric \<Rightarrow> bool"
where
  "settings_ok profile cfg spec fabric \<longleftrightarrow>
    bt_ok (desired_config fabric)
    \<and> managed_try_from (desired_config fabric) = Inr (desired_config fabric)
    \<and> (\<exists>size \<in> set (fabric_rules profile). \<exists>rule \<in> set (controller_rules size).
        fr_compute_tray_count size = sp_compute_tray_count spec \<and> fr_switch_tray_count size = sp_switch_tray_count spec
        \<and> topology_type rule = trim (sf_topology_type cfg)
        \<and> (\<forall>k. hm_get (desired_config fabric) k = desired_setting cfg rule k))"

lemma settled_desired:
  assumes "settled (trim (sf_topology_type cfg)) rule (caller_settings cfg) vals fabric"
  shows "hm_get (desired_config fabric) k = desired_setting cfg rule k"
proof (cases "find (\<lambda>t. target_key t = k) (static_configs rule)")
  case None
  then have "k \<notin> target_key ` set (static_configs rule)" by (auto simp: find_None_iff)
  then show ?thesis using settled_get(2,4) [OF assms] None by (auto simp: desired_setting_def)
next
  case (Some t)
  then have t: "t \<in> set (static_configs rule)" "target_key t = k" using find_SomeD by fastforce+
  then show ?thesis
    using settled_get(3) [OF assms t(1)] settled_target_key(1) [OF assms t(1)] Some by (simp add: desired_setting_def)
qed

text \<open>C16. The fabric that a plan has for a request has the controller settings of that request's own size:
  there is a rule of the profile for exactly the requested compute and switch counts and the requested
  topology, and for every file and key the desired entry is the topology under the reserved key, the
  value or the removal that the rule demands, what the caller supplied under any other key, and nothing
  else.  The entries are a map in key order that the validation of the managed configuration accepts.\<close>

theorem plan_settings_accepted:
  assumes "plan_layout profile switches computes requested cfg = Inr plan" and "bt_ok (full_link_states profile)"
  shows "list_all2 (settings_ok profile cfg) requested (fp_fabrics plan)"
proof -
  obtain config where config: "validate_managed_config cfg = Inr config"
    and each: "list_all2 (\<lambda>spec fabric. resolve_controller_config profile config (sp_compute_tray_count spec)
        (sp_switch_tray_count spec) = Inr (pf_config fabric, absent_static_configs fabric)) requested (fp_fabrics plan)"
    using plan_fabric_config [OF assms] by blast
  note topo = validate_managed_config_ok(1,2) [OF config]
  note rules = profile_validate_rules [OF plan_layout_cases(1) [OF assms(1)]]
  have "settings_ok profile cfg spec fabric"
    if res: "resolve_controller_config profile config (sp_compute_tray_count spec) (sp_switch_tray_count spec) =
        Inr (pf_config fabric, absent_static_configs fabric)" for spec fabric
  proof -
    obtain rule vals where rule: "matching_rule profile (sf_topology_type config) (sp_compute_tray_count spec) (sp_switch_tray_count spec) = Some rule"
      and settled: "settled (sf_topology_type config) rule (caller_settings cfg) vals fabric"
      using resolved_settings [OF res config rules] by blast
    have "\<forall>k. hm_get (desired_config fabric) k = desired_setting cfg rule k"
      using settled_desired [OF settled [unfolded topo(2)]] by blast
    then show ?thesis
      using matching_rule_in [OF rule] settled_get(1) [OF settled] settled_accepted [OF settled topo(1)]
      unfolding settings_ok_def topo(2) by metis
  qed
  with each show ?thesis by (auto elim: list_all2_mono)
qed


section \<open>A sample rack\<close>

text \<open>Two switches and two computes, and a request for two fabrics of one each, the second of
  which names the first switch as its primary: the first fabric is planned around it.\<close>

definition sample_switches :: "ObservedPlacement list" where
  "sample_switches =
    [\<lparr> node_id = ''s1'', op_node_type = ''switch_gb200_nvidia'', chassis_serial_number = ''c'',
       op_position = FabricPosition 0 3, op_physical_topology = Some ''rack'' \<rparr>,
     \<lparr> node_id = ''s2'', op_node_type = ''switch_gb200_nvidia'', chassis_serial_number = ''c'',
       op_position = FabricPosition 1 4, op_physical_topology = Some ''rack'' \<rparr>]"

definition sample_computes :: "ObservedPlacement list" where
  "sample_computes =
    [\<lparr> node_id = ''n1'', op_node_type = ''compute_gb200_nvidia'', chassis_serial_number = ''c'',
       op_position = FabricPosition 0 1, op_physical_topology = None \<rparr>,
     \<lparr> node_id = ''n2'', op_node_type = ''compute_gb200_nvidia'', chassis_serial_number = ''c'',
       op_position = FabricPosition 1 2, op_physical_topology = None \<rparr>]"

definition sample_specs :: "ScaleUpFabricSpec list" where
  "sample_specs =
    [\<lparr> sp_compute_tray_count = 1, sp_switch_tray_count = 1, sp_primary_switch_node_id = None \<rparr>,
     \<lparr> sp_compute_tray_count = 1, sp_switch_tray_count = 1, sp_primary_switch_node_id = Some ''s1'' \<rparr>]"

definition sample_config :: ScaleUpFabricConfig where
  "sample_config = \<lparr> sf_topology_type = '' topo'',
    extra_static_configs = [\<lparr> sc_file_name = ''cfg'', sc_key = ''C'', sc_value = ''x'' \<rparr>] \<rparr>"

lemma sample_plan:
  obtains plan where
    "plan_layout sample_profile sample_switches sample_computes sample_specs sample_config = Inr plan"
    "map (switch_node_ids \<circ> pf_assignment) (fp_fabrics plan) = [[''s2''], [''s1'']]"
    "bt_ok (full_link_states sample_profile)"
proof -
  have inv: "validate_inventory sample_profile sample_switches sample_computes = Inr ()" by code_simp
  have run: "case plan_smaller sample_profile sample_switches sample_computes sample_specs sample_config of
      Inl _ \<Rightarrow> False | Inr plan \<Rightarrow> map (switch_node_ids \<circ> pf_assignment) (fp_fabrics plan) = [[''s2''], [''s1'']]"
    by code_simp
  have ok: "bt_ok (full_link_states sample_profile)" by code_simp
  have "plan_layout sample_profile sample_switches sample_computes sample_specs sample_config =
      plan_smaller sample_profile sample_switches sample_computes sample_specs sample_config"
    by (simp add: plan_layout_def sample_profile_valid inv) (simp add: sample_specs_def)
  with run ok show thesis by (auto intro: that split: sum.splits)
qed

theorem plan_members_witness:
  "\<exists>plan. plan_layout sample_profile sample_switches sample_computes sample_specs sample_config = Inr plan
    \<and> list_all2 (\<lambda>spec fabric. members_ok sample_switches sample_computes (full_topology plan) spec (pf_assignment fabric))
      sample_specs (fp_fabrics plan)"
proof -
  obtain plan where run: "plan_layout sample_profile sample_switches sample_computes sample_specs sample_config = Inr plan"
    and ok: "bt_ok (full_link_states sample_profile)"
    by (rule sample_plan)
  from run plan_members [OF run ok, THEN conjunct1] show ?thesis by blast
qed

theorem plan_links_witness:
  "\<exists>plan. plan_layout sample_profile sample_switches sample_computes sample_specs sample_config = Inr plan
    \<and> fst ` set (fp_links plan) = node_id ` set sample_switches
    \<and> (\<exists>states. links_ok sample_profile sample_switches sample_computes plan (hd sample_switches) states)"
proof -
  obtain plan where run: "plan_layout sample_profile sample_switches sample_computes sample_specs sample_config = Inr plan"
    and ok: "bt_ok (full_link_states sample_profile)"
    by (rule sample_plan)
  have "hd sample_switches \<in> set sample_switches" by (simp add: sample_switches_def)
  with run plan_links [OF run ok] show ?thesis by blast
qed

theorem plan_settings_accepted_witness:
  "\<exists>plan. plan_layout sample_profile sample_switches sample_computes sample_specs sample_config = Inr plan
    \<and> length (fp_fabrics plan) = 2
    \<and> list_all2 (settings_ok sample_profile sample_config) sample_specs (fp_fabrics plan)"
proof -
  obtain plan where run: "plan_layout sample_profile sample_switches sample_computes sample_specs sample_config = Inr plan"
    and fabrics: "map (switch_node_ids \<circ> pf_assignment) (fp_fabrics plan) = [[''s2''], [''s1'']]"
    and ok: "bt_ok (full_link_states sample_profile)"
    by (rule sample_plan)
  from arg_cong [OF fabrics, of length] have "length (fp_fabrics plan) = 2" by simp
  with run plan_settings_accepted [OF run ok] show ?thesis by blast
qed

end
