(* ===== verification/Spec2Isabelle.thy ===== *)
theory Spec2Isabelle
  imports Job_Properties Tracker_Properties Batch_Refinement Fabric_Operation Stage_Timeline Firmware_Store
    Artifact_Properties Span_Queue Managed_Properties Plan_Properties
begin

text \<open>
  A verification of the core of the rack management service.  Paths below are relative to
  \<open>src/crates/rackmanagementservice/src\<close>.

  \<^bold>\<open>The program.\<close>  The service runs long operations on racks as jobs.  A job registry admits them, keeps
  them off each other's devices and seals each once; a tracker adds the service's policies, batches and
  parent jobs; a worker owns a handle and reports stages on a timeline.  Fabric activation has its own
  registry of owners and proofs.  Firmware comes from a catalogue and is fetched by a downloader that enforces
  a host policy and digests.  A rack's switches and computes are divided into fabrics by a planner that reads a
  catalogue of layout profiles; the settings it plans are brought onto the controllers and read back.  Trace
  spans leave through a bounded queue.

  \<^bold>\<open>Foundations.\<close>
  \<^item> \<open>Prelude\<close>: maps, sorted maps, strings, sorting and searching of the standard library; transition systems
    with invariants, orders and simulations as locales.
  \<^item> \<open>Rms_Error\<close>: \<open>utilities/error.rs\<close> and result chaining.  \<open>Ip_Addr\<close>: addresses, their parser and printer.
    \<open>Json\<close>: the JSON values the service builds.

  \<^bold>\<open>Jobs.\<close>
  \<^item> \<open>Job_Types\<close>, \<open>Job_Store\<close>, \<open>Job_Registry\<close>: \<open>orchestrator/job_lifecycle\<close> (\<open>ids\<close>, \<open>job_type\<close>, \<open>state\<close>, \<open>error\<close>,
    \<open>domain\<close>, \<open>store.rs\<close>, \<open>registry.rs\<close>).  One record holds the registry; each method is a function on it, with the
    clock and the random identifiers as arguments.
  \<^item> \<open>Job_Invariants\<close>, \<open>Job_Properties\<close>: the invariant of all histories, and that jobs only move forward, scopes
    and nodes are exclusive, capacity holds, observers hear of each end once, refusals change nothing,
    creation returns, shutdown is final and retention removes exactly the expired.
  \<^item> \<open>Job_Handle\<close>: \<open>handle.rs\<close> and \<open>cleanup.rs\<close>; a supervised run always seals its job.
  \<^item> \<open>Job_Tracker\<close>, \<open>Tracker_Properties\<close>, \<open>Batch_Refinement\<close>: \<open>orchestrator/job_tracker.rs\<close>; the tracker's registry
    is always a reachable one, parents are sealed by their last child, shutdown leaves no live job, and a batch
    admission refines an abstract board of live jobs, scope owners and room.
  \<^item> \<open>Stage_Timeline\<close>: \<open>orchestrator/stage_timeline.rs\<close>; the cursor only advances, and failing a job settles
    every stage.

  \<^bold>\<open>Fabric and firmware.\<close>
  \<^item> \<open>Fabric_Operation\<close>: \<open>orchestrator/fabric_operation.rs\<close>; owners are exclusive, transfers fence the old
    owner, and evidence is confirmed exactly while it stands.
  \<^item> \<open>Firmware_Store\<close>: \<open>persistence/firmware_object.rs\<close> and \<open>persistence/memory\<close>; a hardware type has at most one
    default bundle.
  \<^item> \<open>Special_Ip\<close>: \<open>utilities/special_purpose_ip.rs\<close>; the mask test is membership in intervals.
  \<^item> \<open>Artifact_Error\<close>, \<open>Artifact_Policy\<close>, \<open>Artifact_Download\<close>: \<open>api/grpc/artifact_download\<close>, its error type, the host
    policy and the redaction of locations.  The world is the requests sent, the time and the files; servers
    and file faults are arbitrary.
  \<^item> \<open>Artifact_Properties\<close>: published files are complete and have their digest, failures publish nothing,
    every request passes the policy and credentials stay with their origin.

  \<^bold>\<open>Fabric layout.\<close>
  \<^item> \<open>Node_Types\<close>: the node types of \<open>domain/node.rs\<close>, their stable names and properties.
  \<^item> \<open>Managed_Config\<close>, \<open>Managed_Properties\<close>: \<open>libnmxc/managed_config.rs\<close> and \<open>utilities/filename.rs\<close>.  The controller
    is a record of its three calls on a state of any type.  Success rests on what was read back, removal
    keeps all other records, and a controller that keeps its contract is always brought to the desired state.
  \<^item> \<open>Fabric_Layout\<close>: \<open>config/fabric_layout.rs\<close>, \<open>calculation.rs\<close> and \<open>controller.rs\<close>: profiles and their validation,
    interface ranges, grouping of positions, numbering of links, controller rules and the catalogue.
  \<^item> \<open>Layout_Properties\<close>, \<open>Catalog_Properties\<close>: groups and links follow their formulas exactly and without
    wrap-around, selection is unique, controller rules are complete and expanded interfaces load as themselves.
  \<^item> \<open>Fabric_Planner\<close>: \<open>handlers_v2/layout_planner.rs\<close> and \<open>handlers_v2/layout/controller_targets.rs\<close> below
    \<open>api/grpc/scaleupfabricmanager_handlers\<close>, with the check of the request's configuration in \<open>handlers_v2.rs\<close>.
  \<^item> \<open>Planner_Properties\<close>, \<open>Plan_Properties\<close>: the cached search equals backtracking and is complete; planned
    fabrics are disjoint sets of observed nodes of the requested sizes, every owned interface of every switch
    has the state its fabric calls for, and the planned settings are valid for the managed configuration.

  \<^bold>\<open>Telemetry.\<close>
  \<^item> \<open>Span_Queue\<close>: \<open>observability/span_queue.rs\<close> and \<open>trace_metrics.rs\<close>; every span is accounted for once.

  \<^bold>\<open>Bounds.\<close>  No definition uses fuel that can run out: the redirect and retry loops recur on the redirects and
  attempts left, the search for placements on the requests and options left, and drawing a fresh job identifier
  has its own termination property.  Counters that cannot reach their width are natural numbers; times shown to
  users, addresses, prefixes, tray counts and coordinates are machine words, and link numbers are computed in
  64-bit range with the overflow checks of the code.

  \<^bold>\<open>Parameters.\<close>  URL parsing, host parsing, name resolution, HTTP servers, fabric controllers, the digest, file
  faults and JSON conversion belong to other libraries or to the system.  They are arguments, and the theorems
  about them hold for all values unless a hypothesis says otherwise.

  \<^bold>\<open>Concurrency.\<close>  An operation that runs under a lock is one step, and histories interleave such steps in any
  order.  Interleavings inside an operation that awaits, such as another process changing a file during a
  download, are not covered.  The calls of a reconciliation are steps of one controller state; a call may change
  that state in any way.

  \<^bold>\<open>Not modelled.\<close>  Device I/O (\<open>nodes\<close>, \<open>libgnmi\<close>, the gRPC client of \<open>libnmxc\<close>, the client crates), the gRPC
  handlers except the validation of switch hosts and fabric configurations and the layout planner, SQL, log and
  trace set-up, and the asynchronous worker around the span queue: these are sequences of external effects.
  Pure code that is left out for now: hardware profiles, firmware manifests, artifact file names, the reaper of
  stale temporary files, the rack manager, and the PLDM and flint parsers of \<open>src/crates/rust_nvfwupd\<close>.
\<close>

end
